(* ===== verification/Prelude.thy ===== *)
theory Prelude
  imports Main "HOL-Library.Word" "HOL-Library.Char_ord" "HOL-Library.List_Lexorder"
begin

text \<open>
  Shared vocabulary of the development: Python exceptions as values, the result type of
  fallible code, truth values of text, and the generic facts on lists that the table
  operations of the SQLite stores rest on.

  A Python \<open>str\<close> is a \<^typ>\<open>string\<close> whose characters are its code points; the model covers
  text up to U+00FF. Where the standard library would produce a value outside this domain
  (a larger code point, a float) the result is the exception value \<open>Unmodelled\<close>, which no
  handler of the modelled code catches.
\<close>

section \<open>Exceptions and results\<close>

datatype py_exc =
    ValueError string
  | TypeError string
  | KeyError string
  | RuntimeError string
  | JSONDecodeError
  | Base64Error
  | UnicodeDecodeError
  | IntegrityError
  | OperationalError string
  | MarkerError string
  | ConcurrentTransitionError
  | BindingConflictError string
  | BroadcastConflictError string
  | CmuxMarkerError string
  | JournalError string
  | OutboxError string
  | StreamProtocolError string
  | ReceiptProducerError string
  | NotificationLifecycleError string
  | RuntimeDiscoveryError string
  | AssertionError
  | OverflowError
  | ExternalError string
  | OutOfFuel
  | Unmodelled

text \<open>\<open>ExternalError\<close> is whatever an injected callable (resolver, transport, socket, receipt
  sink) raises. The next function says which exceptions an \<open>except ValueError\<close> clause
  catches: the class and its subclasses.\<close>

fun is_ValueError :: "py_exc \<Rightarrow> bool" where
  "is_ValueError (ValueError m) = True"
| "is_ValueError JSONDecodeError = True"
| "is_ValueError Base64Error = True"
| "is_ValueError UnicodeDecodeError = True"
| "is_ValueError (MarkerError m) = True"
| "is_ValueError (CmuxMarkerError m) = True"
| "is_ValueError e = False"

type_synonym 'a res = "py_exc + 'a"

text \<open>Sequencing of fallible steps: the first exception ends the sequence.\<close>

fun try_each :: "('s \<Rightarrow> 'a \<Rightarrow> 's res) \<Rightarrow> 's \<Rightarrow> 'a list \<Rightarrow> 's res" where
  "try_each f s [] = Inr s"
| "try_each f s (x # xs) = (case f s x of Inl e \<Rightarrow> Inl e | Inr s' \<Rightarrow> try_each f s' xs)"

lemma try_each_append:
  "try_each f s (xs @ ys) =
     (case try_each f s xs of Inl e \<Rightarrow> Inl e | Inr s' \<Rightarrow> try_each f s' ys)"
  by (induction xs arbitrary: s) (auto split: sum.splits)

text \<open>An invariant that every successful step keeps holds at the end of the sequence.\<close>

lemma try_each_invariant:
  assumes "\<And>s x s'. \<lbrakk>x \<in> set xs; I s; f s x = Inr s'\<rbrakk> \<Longrightarrow> I s'"
    and "I s" and "try_each f s xs = Inr t"
  shows "I t"
  using assms
proof (induction xs arbitrary: s)
  case Nil
  then show ?case by simp
next
  case (Cons x xs)
  from Cons.prems(3) obtain u where u: "f s x = Inr u" "try_each f u xs = Inr t"
    by (auto split: sum.splits)
  with Cons.prems(1,2) have "I u" by auto
  with Cons.IH[of u] Cons.prems(1) u(2) show ?case by auto
qed

section \<open>Truth value of text\<close>

definition truthy :: "string option \<Rightarrow> bool" where
  "truthy v = (case v of None \<Rightarrow> False | Some s \<Rightarrow> s \<noteq> [])"

lemma truthy_simps [simp]:
  "truthy None = False" "truthy (Some s) = (s \<noteq> [])"
  by (simp_all add: truthy_def)

lemma truthyE [elim]:
  assumes "truthy v" obtains s where "v = Some s" "s \<noteq> []"
  using assms by (cases v) auto

section \<open>Tables\<close>

text \<open>
  A table is the list of its rows in \<open>rowid\<close> order. A query that a key constraint makes
  unique is the first row that satisfies it.
\<close>

definition fetchone :: "('r \<Rightarrow> bool) \<Rightarrow> 'r list \<Rightarrow> 'r option" where
  "fetchone P rows = find P rows"

lemma fetchone_simps [simp]:
  "fetchone P [] = None"
  "fetchone P (r # rs) = (if P r then Some r else fetchone P rs)"
  by (simp_all add: fetchone_def)

lemma fetchone_None_iff: "fetchone P rows = None \<longleftrightarrow> (\<forall>r \<in> set rows. \<not> P r)"
  by (induction rows) auto

lemma fetchone_SomeD: "fetchone P rows = Some r \<Longrightarrow> r \<in> set rows \<and> P r"
  by (induction rows) (auto split: if_splits)

lemma fetchone_append:
  "fetchone P (xs @ ys) = (case fetchone P xs of None \<Rightarrow> fetchone P ys | Some r \<Rightarrow> Some r)"
  by (induction xs) auto

lemma fetchone_absent: "k \<notin> key ` set rows \<Longrightarrow> fetchone (\<lambda>x. key x = k) rows = None"
  by (induction rows) auto

text \<open>Under a unique key the row that satisfies a key equation is determined.\<close>

lemma fetchone_key:
  assumes "distinct (map key rows)" "r \<in> set rows"
  shows "fetchone (\<lambda>x. key x = key r) rows = Some r"
  using assms by (induction rows) (auto simp: image_iff)

lemma fetchone_key_iff:
  assumes "distinct (map key rows)"
  shows "fetchone (\<lambda>x. key x = k) rows = Some r \<longleftrightarrow> r \<in> set rows \<and> key r = k"
  using assms fetchone_key[of key rows r] fetchone_SomeD[of "\<lambda>x. key x = k" rows r] by auto

text \<open>\<open>UPDATE\<close> with a condition, and its row count.\<close>

definition update_where :: "('r \<Rightarrow> bool) \<Rightarrow> ('r \<Rightarrow> 'r) \<Rightarrow> 'r list \<Rightarrow> 'r list" where
  "update_where P f rows = map (\<lambda>r. if P r then f r else r) rows"

definition rowcount :: "('r \<Rightarrow> bool) \<Rightarrow> 'r list \<Rightarrow> nat" where
  "rowcount P rows = length (filter P rows)"

lemma update_where_map_key:
  assumes "\<And>r. key (f r) = key r"
  shows "map key (update_where P f rows) = map key rows"
  using assms by (simp add: update_where_def)

lemma length_update_where [simp]: "length (update_where P f rows) = length rows"
  by (simp add: update_where_def)

lemma update_where_id: "rowcount P rows = 0 \<Longrightarrow> update_where P f rows = rows"
  by (induction rows) (auto simp: update_where_def rowcount_def split: if_splits)

lemma rowcount_key:
  assumes "distinct (map key rows)"
  shows "rowcount (\<lambda>x. key x = k \<and> Q x) rows =
     (case fetchone (\<lambda>x. key x = k) rows of None \<Rightarrow> 0 | Some r \<Rightarrow> of_bool (Q r))"
  using assms
proof (induction rows)
  case Nil
  then show ?case by (simp add: rowcount_def)
next
  case (Cons r rows)
  have other: "filter (\<lambda>x. key x = key r \<and> Q x) rows = []"
    using Cons.prems by (auto simp: filter_empty_conv image_iff)
  from Cons show ?case by (auto simp: rowcount_def other split: option.splits)
qed

lemma fetchone_update_where_key:
  assumes "distinct (map key rows)" and "\<And>r. key (f r) = key r"
  shows "fetchone (\<lambda>x. key x = j) (update_where (\<lambda>x. key x = k \<and> Q x) f rows) =
     map_option (\<lambda>r. if j = k \<and> Q r then f r else r) (fetchone (\<lambda>x. key x = j) rows)"
  using assms by (induction rows) (auto simp: update_where_def)

lemma set_update_whereD:
  "r' \<in> set (update_where P f rows) \<Longrightarrow> \<exists>r \<in> set rows. r' = (if P r then f r else r)"
  by (auto simp: update_where_def)

text \<open>
  A table as a component of a database: how its rows are read and replaced.
\<close>

locale table =
  fixes rows :: "'db \<Rightarrow> 'row list"
    and upd :: "('row list \<Rightarrow> 'row list) \<Rightarrow> 'db \<Rightarrow> 'db"
  assumes rows_upd [simp]: "rows (upd f t) = f (rows t)"
    and upd_upd [simp]: "upd f (upd g t) = upd (\<lambda>xs. f (g xs)) t"
    and upd_id [simp]: "upd (\<lambda>xs. xs) t = t"

text \<open>
  The contract of an \<open>INSERT\<close> into a table with a unique key: it appends the row when the key is
  new and raises \<open>IntegrityError\<close>, with no row changed, when the key is taken. Every store of the
  program implements it; the lemmas below are proved once and used through interpretations.
\<close>

locale keyed_table = table rows upd
  for rows :: "'db \<Rightarrow> 'row list" and upd :: "('row list \<Rightarrow> 'row list) \<Rightarrow> 'db \<Rightarrow> 'db" +
  fixes key :: "'row \<Rightarrow> 'k"
    and insert_row :: "'row \<Rightarrow> 'db \<Rightarrow> 'db res"
  assumes insert_Inr:
      "insert_row r t = Inr t' \<Longrightarrow> key r \<notin> key ` set (rows t) \<and> t' = upd (\<lambda>xs. xs @ [r]) t"
    and insert_Inl: "insert_row r t = Inl e \<Longrightarrow> e = IntegrityError"
begin

lemma insert_rows: "insert_row r t = Inr t' \<Longrightarrow> rows t' = rows t @ [r]"
  by (auto dest: insert_Inr)

lemma insert_taken: "key r \<in> key ` set (rows t) \<Longrightarrow> insert_row r t = Inl IntegrityError"
  by (cases "insert_row r t") (auto dest: insert_Inr insert_Inl)

lemma insert_unique:
  "distinct (map key (rows t)) \<Longrightarrow> insert_row r t = Inr t' \<Longrightarrow> distinct (map key (rows t'))"
  by (auto dest: insert_Inr)

lemma lookup_insert:
  assumes "insert_row r t = Inr t'"
  shows "fetchone (\<lambda>x. key x = k) (rows t') =
    (if k = key r then Some r else fetchone (\<lambda>x. key x = k) (rows t))"
proof -
  from insert_Inr[OF assms] have fresh: "key r \<notin> key ` set (rows t)" and t': "rows t' = rows t @ [r]"
    by auto
  have "fetchone (\<lambda>x. key x = key r) (rows t) = None" using fresh by (rule fetchone_absent)
  with t' show ?thesis by (auto simp: fetchone_append split: option.splits)
qed

lemma insert_keeps: "insert_row r t = Inr t' \<Longrightarrow> x \<in> set (rows t) \<Longrightarrow> x \<in> set (rows t')"
  by (auto dest: insert_Inr)

text \<open>\<open>executemany\<close>: a sequence of inserts appends its rows in order or fails.\<close>

lemma insert_many:
  "try_each (\<lambda>u x. insert_row (f x) u) t xs = Inr t' \<Longrightarrow> t' = upd (\<lambda>rs. rs @ map f xs) t"
proof (induction xs arbitrary: t)
  case Nil
  then show ?case by simp
next
  case (Cons x xs)
  then obtain u where "insert_row (f x) t = Inr u" "try_each (\<lambda>u x. insert_row (f x) u) u xs = Inr t'"
    by (auto split: sum.splits)
  with Cons.IH[of u] insert_Inr[of "f x" t u] show ?case by simp
qed

end

section \<open>Transition systems\<close>

text \<open>
  A component that runs operation after operation: its initial states, its steps, and an
  invariant both respect. The stores of the program are instances.
\<close>

locale invariant_system =
  fixes init :: "'s \<Rightarrow> bool"
    and step :: "'s \<Rightarrow> 's \<Rightarrow> bool"
    and inv :: "'s \<Rightarrow> bool"
  assumes inv_init: "init s \<Longrightarrow> inv s"
    and inv_step: "inv s \<Longrightarrow> step s s' \<Longrightarrow> inv s'"
begin

lemma inv_steps: "step\<^sup>*\<^sup>* s t \<Longrightarrow> inv s \<Longrightarrow> inv t"
  by (induction rule: rtranclp_induct) (auto intro: inv_step)

lemma reachable_inv: "init s \<Longrightarrow> step\<^sup>*\<^sup>* s t \<Longrightarrow> inv t"
  using inv_init inv_steps by blast

end

text \<open>A preorder that no step leaves: what only ever grows.\<close>

locale progress_system = invariant_system init step inv
  for init :: "'s \<Rightarrow> bool" and step :: "'s \<Rightarrow> 's \<Rightarrow> bool" and inv :: "'s \<Rightarrow> bool" +
  fixes le :: "'s \<Rightarrow> 's \<Rightarrow> bool"
  assumes le_refl: "le s s"
    and le_trans: "le s t \<Longrightarrow> le t u \<Longrightarrow> le s u"
    and step_le: "inv s \<Longrightarrow> step s s' \<Longrightarrow> le s s'"
begin

lemma steps_le: "step\<^sup>*\<^sup>* s t \<Longrightarrow> inv s \<Longrightarrow> le s t"
proof (induction rule: rtranclp_induct)
  case base
  then show ?case by (simp add: le_refl)
next
  case (step t u)
  then have "inv t" using inv_steps by blast
  with step show ?case using le_trans step_le by blast
qed

lemma reachable_le: "init s0 \<Longrightarrow> step\<^sup>*\<^sup>* s0 s \<Longrightarrow> step\<^sup>*\<^sup>* s t \<Longrightarrow> le s t"
  using reachable_inv steps_le by blast

end

section \<open>Decimal text\<close>

text \<open>Python's \<open>str(n)\<close> for integers.\<close>

definition digit_char :: "nat \<Rightarrow> char" where
  "digit_char d = char_of (48 + d)"

fun nat_text :: "nat \<Rightarrow> string" where
  "nat_text n = (if n < 10 then [digit_char n] else nat_text (n div 10) @ [digit_char (n mod 10)])"

declare nat_text.simps [simp del]

definition int_text :: "int \<Rightarrow> string" where
  "int_text i = (if i < 0 then CHR ''-'' # nat_text (nat (- i)) else nat_text (nat i))"

end
