(* ===== verification/Py_Time.thy ===== *)
theory Py_Time
  imports Prelude
begin

text \<open>
  \<open>parse_timestamp\<close> of \<open>core/yatagarasu_core/proofs.py\<close> and the part of the standard library it
  calls: \<open>str.replace\<close> and the documented grammar of \<open>datetime.fromisoformat\<close> (Python 3.11):
  calendar and week dates in basic or extended form, any one-character separator, times
  with an optional fraction, and a UTC offset. An aware datetime is the \<^typ>\<open>int\<close> number of
  microseconds of its instant in UTC, which is what Python's comparison and subtraction of
  aware datetimes use.
\<close>

section \<open>Digits\<close>

definition digit_val :: "char \<Rightarrow> nat option" where
  "digit_val c = (let n = of_char c in if 48 \<le> n \<and> n \<le> (57::nat) then Some (n - 48) else None)"

fun num_acc :: "nat \<Rightarrow> string \<Rightarrow> nat option" where
  "num_acc a [] = Some a"
| "num_acc a (c # cs) =
     (case digit_val c of None \<Rightarrow> None | Some d \<Rightarrow> num_acc (10 * a + d) cs)"

definition parse_num :: "string \<Rightarrow> nat option" where
  "parse_num s = (if s = [] then None else num_acc 0 s)"

definition parse_digits :: "nat \<Rightarrow> string \<Rightarrow> (nat \<times> string) option" where
  "parse_digits n s =
     (if length s < n then None
      else case parse_num (take n s) of None \<Rightarrow> None | Some v \<Rightarrow> Some (v, drop n s))"

definition is_digit :: "char \<Rightarrow> bool" where
  "is_digit c = (digit_val c \<noteq> None)"

section \<open>Calendar\<close>

definition is_leap :: "int \<Rightarrow> bool" where
  "is_leap y = (y mod 4 = 0 \<and> (y mod 100 \<noteq> 0 \<or> y mod 400 = 0))"

definition days_before_year :: "int \<Rightarrow> int" where
  "days_before_year y = (y - 1) * 365 + (y - 1) div 4 - (y - 1) div 100 + (y - 1) div 400"

definition month_lengths :: "int \<Rightarrow> int list" where
  "month_lengths y = [31, if is_leap y then 29 else 28, 31, 30, 31, 30, 31, 31, 30, 31, 30, 31]"

definition ymd2ord :: "int \<Rightarrow> nat \<Rightarrow> int \<Rightarrow> int" where
  "ymd2ord y m d = days_before_year y + sum_list (take (m - 1) (month_lengths y)) + d"

definition valid_ymd :: "int \<Rightarrow> nat \<Rightarrow> int \<Rightarrow> bool" where
  "valid_ymd y m d =
     (1 \<le> y \<and> y \<le> 9999 \<and> 1 \<le> m \<and> m \<le> 12 \<and> 1 \<le> d \<and> d \<le> month_lengths y ! (m - 1))"

definition week_ordinal :: "int \<Rightarrow> nat \<Rightarrow> nat \<Rightarrow> int option" where
  "week_ordinal y w d =
     (let first = ymd2ord y 1 1;
          fw = (first + 6) mod 7;
          monday = first - fw + (if fw > 3 then 7 else 0);
          long = (first mod 7 = 4 \<or> first mod 7 = 3 \<and> is_leap y);
          ord = monday + (int w - 1) * 7 + (int d - 1)
      in if 1 \<le> y \<and> y \<le> 9999 \<and> 1 \<le> w \<and> (w < 53 \<or> w = 53 \<and> long) \<and> 1 \<le> d \<and> d \<le> 7
            \<and> 1 \<le> ord \<and> ord \<le> 3652059
         then Some ord else None)"

section \<open>fromisoformat\<close>

text \<open>Where the date ends: 7, 8 or 10 characters. In a basic week date the digits that follow
  decide whether the day is present.\<close>

definition find_separator :: "string \<Rightarrow> nat" where
  "find_separator s =
     (if length s \<le> 7 then 7
      else if s ! 4 = CHR ''-'' then
        (if s ! 5 = CHR ''W'' then
           (if length s > 8 \<and> s ! 8 = CHR ''-''
            then (if length s > 10 \<and> is_digit (s ! 10) then 8 else 10)
            else 8)
         else 10)
      else if s ! 4 = CHR ''W'' then
        (let idx = 7 + length (takeWhile is_digit (drop 7 s))
         in if idx < 9 then idx else if even idx then 7 else 8)
      else 8)"

definition parse_date :: "string \<Rightarrow> int option" where
  "parse_date s =
     (case parse_digits 4 s of None \<Rightarrow> None
      | Some (y, r) \<Rightarrow>
        (let sep = (case r of c # _ \<Rightarrow> c = CHR ''-'' | [] \<Rightarrow> False);
             r1 = (if sep then tl r else r)
         in case r1 of
              [] \<Rightarrow> None
            | c # r2 \<Rightarrow>
              if c = CHR ''W'' then
                (case parse_digits 2 r2 of None \<Rightarrow> None
                 | Some (w, r3) \<Rightarrow>
                   if r3 = [] then week_ordinal (int y) w 1
                   else if sep \<and> hd r3 \<noteq> CHR ''-'' then None
                   else (case parse_digits 1 (if sep then tl r3 else r3) of
                           Some (d, []) \<Rightarrow> week_ordinal (int y) w d
                         | _ \<Rightarrow> None))
              else
                (case parse_digits 2 r1 of None \<Rightarrow> None
                 | Some (m, r3) \<Rightarrow>
                   if sep \<and> (r3 = [] \<or> hd r3 \<noteq> CHR ''-'') then None
                   else (case parse_digits 2 (if sep then tl r3 else r3) of
                           Some (d, []) \<Rightarrow>
                             if valid_ymd (int y) m (int d)
                             then Some (ymd2ord (int y) m (int d)) else None
                         | _ \<Rightarrow> None))))"

definition parse_fraction :: "string \<Rightarrow> nat option" where
  "parse_fraction s =
     (case s of [] \<Rightarrow> Some 0
      | c # fs \<Rightarrow>
        if (c = CHR ''.'' \<or> c = CHR '','') \<and> fs \<noteq> [] \<and> list_all is_digit fs
        then parse_num (take 6 (fs @ ''00000'')) else None)"

text \<open>\<open>HH[:MM[:SS[.f+]]]\<close> or \<open>HH[MM[SS[.f+]]]\<close>; the separator after the hours decides the form.\<close>

definition parse_hms :: "string \<Rightarrow> (nat \<times> nat \<times> nat \<times> nat) option" where
  "parse_hms s =
     (case parse_digits 2 s of None \<Rightarrow> None
      | Some (h, []) \<Rightarrow> Some (h, 0, 0, 0)
      | Some (h, c # r) \<Rightarrow>
        (let sep = (c = CHR '':'')
         in case parse_digits 2 (if sep then r else c # r) of None \<Rightarrow> None
            | Some (m, []) \<Rightarrow> Some (h, m, 0, 0)
            | Some (m, c2 # r2) \<Rightarrow>
              if sep \<and> c2 \<noteq> CHR '':'' then None
              else (case parse_digits 2 (if sep then r2 else c2 # r2) of None \<Rightarrow> None
                    | Some (sec, r3) \<Rightarrow>
                      map_option (\<lambda>us. (h, m, sec, us)) (parse_fraction r3))))"

definition micros :: "nat \<times> nat \<times> nat \<times> nat \<Rightarrow> int" where
  "micros t = (case t of (h, m, s, us) \<Rightarrow>
     ((int h * 60 + int m) * 60 + int s) * 1000000 + int us)"

definition is_sign :: "char \<Rightarrow> bool" where
  "is_sign c = (c = CHR ''+'' \<or> c = CHR ''-'')"

text \<open>The time of day and the UTC offset in microseconds. \<open>None\<close> also stands for a time
  without offset: \<open>parse_timestamp\<close> raises \<open>ValueError\<close> for a naive datetime as well. An
  offset is strictly below one day.\<close>

definition parse_time :: "string \<Rightarrow> (int \<times> int) option" where
  "parse_time s =
     (let hms = takeWhile (\<lambda>c. \<not> is_sign c) s; tz = dropWhile (\<lambda>c. \<not> is_sign c) s
      in case (parse_hms hms, tz) of
           (Some (h, m, sec, us), c # off) \<Rightarrow>
             if h < 24 \<and> m < 60 \<and> sec < 60 then
               (case parse_hms off of None \<Rightarrow> None
                | Some t \<Rightarrow>
                  if micros t < 86400000000
                  then Some (micros (h, m, sec, us), if c = CHR ''-'' then - micros t else micros t)
                  else None)
             else None
         | _ \<Rightarrow> None)"

definition fromisoformat_aware :: "string \<Rightarrow> int option" where
  "fromisoformat_aware s =
     (let k = find_separator s
      in case parse_date (take k s) of None \<Rightarrow> None
         | Some day \<Rightarrow>
           (case parse_time (drop (Suc k) s) of None \<Rightarrow> None
            | Some (tod, off) \<Rightarrow> Some (day * 86400000000 + tod - off)))"

definition replace_Z :: "string \<Rightarrow> string" where
  "replace_Z s = concat (map (\<lambda>c. if c = CHR ''Z'' then ''+00:00'' else [c]) s)"

definition parse_timestamp :: "string \<Rightarrow> int res" where
  "parse_timestamp value =
     (case fromisoformat_aware (replace_Z value) of
        None \<Rightarrow> Inl (ValueError ''timestamp'')
      | Some t \<Rightarrow> Inr t)"

lemma parse_timestamp_is_ValueError:
  "parse_timestamp v = Inl e \<Longrightarrow> is_ValueError e"
  by (auto simp: parse_timestamp_def split: option.splits)

end
