(* ===== verification/Py_Hash.thy ===== *)
theory Py_Hash
  imports Prelude
begin

text \<open>
  The standard library functions behind marker signatures and correlation tokens:
  \<open>str.encode\<close> (UTF-8), \<open>hashlib.sha256\<close>, \<open>hmac.new\<close> with SHA-256, \<open>bytes.hex\<close>,
  \<open>bytes.fromhex\<close> on lower-case digits and \<open>hmac.compare_digest\<close> on text. SHA-256 is
  FIPS 180-4 on 32-bit words, HMAC is RFC 2104 with the 64-byte block of SHA-256.
\<close>

unbundle bit_operations_syntax

type_synonym byte = "8 word"
type_synonym u32 = "32 word"

section \<open>SHA-256\<close>

definition sha_k :: "u32 list" where
  "sha_k =
     [1116352408, 1899447441, 3049323471, 3921009573, 961987163, 1508970993,
      2453635748, 2870763221, 3624381080, 310598401, 607225278, 1426881987,
      1925078388, 2162078206, 2614888103, 3248222580, 3835390401, 4022224774,
      264347078, 604807628, 770255983, 1249150122, 1555081692, 1996064986,
      2554220882, 2821834349, 2952996808, 3210313671, 3336571891, 3584528711,
      113926993, 338241895, 666307205, 773529912, 1294757372, 1396182291,
      1695183700, 1986661051, 2177026350, 2456956037, 2730485921, 2820302411,
      3259730800, 3345764771, 3516065817, 3600352804, 4094571909, 275423344,
      430227734, 506948616, 659060556, 883997877, 958139571, 1322822218,
      1537002063, 1747873779, 1955562222, 2024104815, 2227730452, 2361852424,
      2428436474, 2756734187, 3204031479, 3329325298]"

definition sha_init :: "u32 list" where
  "sha_init =
     [0x6a09e667, 0xbb67ae85, 0x3c6ef372, 0xa54ff53a, 0x510e527f, 0x9b05688c,
      0x1f83d9ab, 0x5be0cd19]"

definition big_sigma0 :: "u32 \<Rightarrow> u32" where
  "big_sigma0 x = word_rotr 2 x XOR word_rotr 13 x XOR word_rotr 22 x"

definition big_sigma1 :: "u32 \<Rightarrow> u32" where
  "big_sigma1 x = word_rotr 6 x XOR word_rotr 11 x XOR word_rotr 25 x"

definition small_sigma0 :: "u32 \<Rightarrow> u32" where
  "small_sigma0 x = word_rotr 7 x XOR word_rotr 18 x XOR drop_bit 3 x"

definition small_sigma1 :: "u32 \<Rightarrow> u32" where
  "small_sigma1 x = word_rotr 17 x XOR word_rotr 19 x XOR drop_bit 10 x"

text \<open>The message schedule is kept newest word first: \<open>w ! 0\<close> is \<open>W\<^sub>t\<^sub>-\<^sub>1\<close>.\<close>

fun extend_schedule :: "nat \<Rightarrow> u32 list \<Rightarrow> u32 list" where
  "extend_schedule 0 w = w"
| "extend_schedule (Suc n) w =
     extend_schedule n
       ((small_sigma1 (w ! 1) + w ! 6 + small_sigma0 (w ! 14) + w ! 15) # w)"

definition be32 :: "byte list \<Rightarrow> u32" where
  "be32 bs = foldl (\<lambda>a b. push_bit 8 a OR ucast b) 0 bs"

fun chunks :: "nat \<Rightarrow> nat \<Rightarrow> 'a list \<Rightarrow> 'a list list" where
  "chunks 0 k xs = []"
| "chunks (Suc n) k xs = take k xs # chunks n k (drop k xs)"

definition schedule :: "byte list \<Rightarrow> u32 list" where
  "schedule block = rev (extend_schedule 48 (rev (map be32 (chunks 16 4 block))))"

fun sha_round :: "u32 list \<Rightarrow> u32 \<times> u32 \<Rightarrow> u32 list" where
  "sha_round [a, b, c, d, e, f, g, h] (k, w) =
     (let t1 = h + big_sigma1 e + ((e AND f) XOR (NOT e AND g)) + k + w;
          t2 = big_sigma0 a + ((a AND b) XOR (a AND c) XOR (b AND c))
      in [t1 + t2, a, b, c, d + t1, e, f, g])"
| "sha_round st kw = st"

definition sha_block :: "u32 list \<Rightarrow> byte list \<Rightarrow> u32 list" where
  "sha_block st block =
     map2 (+) st (foldl sha_round st (zip sha_k (schedule block)))"

definition be_bytes :: "nat \<Rightarrow> nat \<Rightarrow> byte list" where
  "be_bytes n v = map (\<lambda>i. word_of_nat (v div 256 ^ (n - 1 - i))) [0..<n]"

definition sha_pad :: "byte list \<Rightarrow> byte list" where
  "sha_pad m =
     (let z = (119 - length m mod 64) mod 64
      in m @ 0x80 # replicate z 0 @ be_bytes 8 (8 * length m))"

definition sha256 :: "byte list \<Rightarrow> byte list" where
  "sha256 m =
     (let p = sha_pad m
      in concat (map (\<lambda>w. be_bytes 4 (unat w))
           (foldl sha_block sha_init (chunks (length p div 64) 64 p))))"

section \<open>HMAC\<close>

definition hmac_sha256 :: "byte list \<Rightarrow> byte list \<Rightarrow> byte list" where
  "hmac_sha256 key msg =
     (let k0 = (if length key > 64 then sha256 key else key);
          k = k0 @ replicate (64 - length k0) 0
      in sha256 (map (\<lambda>b. b XOR 0x5c) k @ sha256 (map (\<lambda>b. b XOR 0x36) k @ msg)))"

section \<open>Text and bytes\<close>

definition utf8_char :: "char \<Rightarrow> byte list" where
  "utf8_char c =
     (let n = of_char c :: nat
      in if n < 128 then [word_of_nat n]
         else [word_of_nat (192 + n div 64), word_of_nat (128 + n mod 64)])"

definition utf8 :: "string \<Rightarrow> byte list" where
  "utf8 s = concat (map utf8_char s)"

definition is_ascii :: "string \<Rightarrow> bool" where
  "is_ascii s = list_all (\<lambda>c. of_char c < (128::nat)) s"

definition hex_digit :: "nat \<Rightarrow> char" where
  "hex_digit n = (if n < 10 then char_of (48 + n) else char_of (87 + n))"

definition hex :: "byte list \<Rightarrow> string" where
  "hex bs = concat (map (\<lambda>b. [hex_digit (unat b div 16), hex_digit (unat b mod 16)]) bs)"

definition hex_val :: "char \<Rightarrow> nat option" where
  "hex_val c =
     (let n = of_char c :: nat
      in if 48 \<le> n \<and> n \<le> 57 then Some (n - 48)
         else if 97 \<le> n \<and> n \<le> 102 then Some (n - 87) else None)"

fun fromhex :: "string \<Rightarrow> byte list option" where
  "fromhex [] = Some []"
| "fromhex (a # b # cs) =
     (case (hex_val a, hex_val b, fromhex cs) of
        (Some x, Some y, Some bs) \<Rightarrow> Some (word_of_nat (16 * x + y) # bs)
      | _ \<Rightarrow> None)"
| "fromhex [c] = None"

text \<open>\<open>hmac.compare_digest\<close> on two \<open>str\<close> arguments raises \<open>TypeError\<close> when either holds a
  character outside ASCII, and otherwise compares them.\<close>

definition compare_digest :: "string \<Rightarrow> string \<Rightarrow> bool res" where
  "compare_digest a b =
     (if is_ascii a \<and> is_ascii b then Inr (a = b)
      else Inl (TypeError ''comparing strings with non-ASCII characters is not supported''))"

section \<open>Facts\<close>

lemma of_char_char_of_small: "n < 256 \<Longrightarrow> of_char (char_of n :: char) = (n::nat)"
  by simp

lemma of_char_hex_digit: "n < 16 \<Longrightarrow> of_char (hex_digit n) = (if n < 10 then 48 + n else 87 + n :: nat)"
  by (simp add: hex_digit_def)

lemma hex_val_hex_digit [simp]: "n < 16 \<Longrightarrow> hex_val (hex_digit n) = Some n"
  by (auto simp: hex_val_def of_char_hex_digit)

lemma hex_Cons: "hex (b # bs) = hex_digit (unat b div 16) # hex_digit (unat b mod 16) # hex bs"
  by (simp add: hex_def)

lemma unat_byte_lt: "unat (b :: byte) < 256"
  using unsigned_less[of b, where ?'a = nat] by simp

lemma fromhex_hex [simp]: "fromhex (hex bs) = Some bs"
proof (induction bs)
  case Nil
  then show ?case by (simp add: hex_def)
next
  case (Cons b bs)
  have "unat b div 16 < 16" using unat_byte_lt[of b] by simp
  with Cons show ?case by (simp add: hex_Cons)
qed

lemma is_ascii_hex [simp]: "is_ascii (hex bs)"
proof (induction bs)
  case Nil
  then show ?case by (simp add: hex_def is_ascii_def)
next
  case (Cons b bs)
  have "unat b div 16 < 16" using unat_byte_lt[of b] by simp
  with Cons show ?case
    using pos_mod_bound[of 16 "int (unat b)"]
    by (auto simp: hex_Cons is_ascii_def of_char_hex_digit)
qed

lemma length_hex [simp]: "length (hex bs) = 2 * length bs"
  by (induction bs) (auto simp: hex_def)

lemma compare_digest_Inr: "compare_digest a b = Inr True \<longleftrightarrow> a = b \<and> is_ascii a"
  by (auto simp: compare_digest_def)

lemma length_be_bytes [simp]: "length (be_bytes n v) = n"
  by (simp add: be_bytes_def)

lemma length_sha_round: "length st = 8 \<Longrightarrow> length (sha_round st kw) = 8"
  by (cases "(st, kw)" rule: sha_round.cases) (auto simp: Let_def)

lemma length_foldl_sha_round: "length st = 8 \<Longrightarrow> length (foldl sha_round st kws) = 8"
  by (induction kws arbitrary: st) (auto simp: length_sha_round)

lemma length_foldl_sha_block: "length st = 8 \<Longrightarrow> length (foldl sha_block st bs) = 8"
  by (induction bs arbitrary: st) (auto simp: sha_block_def length_foldl_sha_round)

lemma length_sha256 [simp]: "length (sha256 m) = 32"
proof -
  have "length sha_init = 8" by (simp add: sha_init_def)
  then have l: "length (foldl sha_block sha_init bs) = 8" for bs
    by (rule length_foldl_sha_block)
  have len: "length (concat (map (\<lambda>w. be_bytes 4 (unat w)) ws)) = 4 * length ws" for ws :: "u32 list"
    by (induction ws) auto
  show ?thesis by (simp add: sha256_def Let_def len l)
qed

lemma length_hmac_sha256 [simp]: "length (hmac_sha256 k m) = 32"
  by (simp add: hmac_sha256_def Let_def)

text \<open>UTF-8 encoding is injective, so distinct texts are distinct signing inputs.\<close>

lemma utf8_Nil [simp]: "utf8 [] = []"
  by (simp add: utf8_def)

lemma utf8_Cons: "utf8 (c # s) = utf8_char c @ utf8 s"
  by (simp add: utf8_def)

lemma unat_small: "n < 256 \<Longrightarrow> unat (word_of_nat n :: byte) = n"
  by (simp add: unat_of_nat)

definition lead :: "char \<Rightarrow> nat" where
  "lead c = (let n = of_char c in if n < 128 then n else 192 + n div 64)"

definition continuation :: "char \<Rightarrow> nat list" where
  "continuation c = (let n = of_char c in if n < 128 then [] else [128 + n mod 64])"

lemma utf8_char_split: "utf8_char c = word_of_nat (lead c) # map word_of_nat (continuation c)"
  by (simp add: utf8_char_def lead_def continuation_def Let_def)

lemma lead_lt: "lead c < 256"
proof -
  have "(of_char c :: nat) div 64 \<le> 255 div 64"
    by (rule div_le_mono) (use nat_of_char_less_256[of c] in linarith)
  then show ?thesis by (simp add: lead_def Let_def)
qed

lemma lead_continuation_inject:
  assumes "lead c = lead d" "continuation c = continuation d"
  shows "c = d"
proof -
  define m n where "m = (of_char c :: nat)" and "n = (of_char d :: nat)"
  have "m = n"
  proof (cases "m < 128 \<or> n < 128")
    case True
    with assms show ?thesis
      by (auto simp: lead_def continuation_def Let_def m_def n_def split: if_splits)
  next
    case False
    with assms have "m div 64 = n div 64" "m mod 64 = n mod 64"
      by (auto simp: lead_def continuation_def Let_def m_def n_def)
    then show ?thesis by (metis div_mult_mod_eq)
  qed
  then show ?thesis by (simp add: m_def n_def)
qed

lemma byte_eq_iff: "a < 256 \<Longrightarrow> b < 256 \<Longrightarrow> (word_of_nat a :: byte) = word_of_nat b \<longleftrightarrow> a = b"
  using unat_small by metis

lemma continuation_lt: "n \<in> set (continuation c) \<Longrightarrow> n < 256"
  by (auto simp: continuation_def Let_def split: if_splits)

lemma lead_length: "lead c = lead d \<Longrightarrow> length (continuation c) = length (continuation d)"
  by (auto simp: lead_def continuation_def Let_def split: if_splits)

lemma utf8_char_prefix:
  assumes "utf8_char c @ xs = utf8_char d @ ys"
  shows "c = d \<and> xs = ys"
proof -
  have l: "lead c = lead d"
    using assms by (simp add: utf8_char_split byte_eq_iff lead_lt)
  then have m: "map word_of_nat (continuation c) = (map word_of_nat (continuation d) :: byte list)"
    and xy: "xs = ys"
    using assms lead_length[OF l] by (auto simp: utf8_char_split)
  have "map unat (map word_of_nat (continuation c) :: byte list) =
        map unat (map word_of_nat (continuation d) :: byte list)"
    by (simp only: m)
  then have "continuation c = continuation d"
    by (simp add: o_def unat_small continuation_lt cong: map_cong)
  with l xy show ?thesis using lead_continuation_inject[of c d] by simp
qed

lemma utf8_inject [simp]: "utf8 s = utf8 t \<longleftrightarrow> s = t"
proof
  assume "utf8 s = utf8 t"
  then show "s = t"
  proof (induction s arbitrary: t)
    case Nil
    then show ?case
      by (cases t) (auto simp: utf8_Cons utf8_char_def Let_def split: if_splits)
  next
    case (Cons c s)
    then obtain d t' where t: "t = d # t'"
      by (cases t) (auto simp: utf8_Cons utf8_char_def Let_def split: if_splits)
    with Cons.prems have "c = d" "utf8 s = utf8 t'"
      by (auto simp: utf8_Cons dest: utf8_char_prefix)
    with Cons.IH t show ?case by simp
  qed
qed simp

end
