(* ===== verification/Py_Json.thy ===== *)
theory Py_Json
  imports Py_Time Py_Hash
begin

text \<open>
  The standard library's \<open>json\<close> module as the program uses it: \<open>json.dumps\<close> with the default
  \<open>ensure_ascii\<close>, optional \<open>sort_keys\<close> and explicit or default separators, and \<open>json.loads\<close> on
  text and on bytes. A \<open>dict\<close> is an association list with distinct keys in insertion order.
  Values are those of JSON without floats; a float literal, \<open>NaN\<close> or a code point beyond U+00FF
  gives \<open>Unmodelled\<close>. CPython's limits on recursion depth and on the digits of an integer are
  not modelled.

  The main result is the round trip \<open>loads (dumps v) = v\<close> up to key order, and with it that
  \<open>dumps\<close> is injective: two stored texts are equal only if the values are.
\<close>

section \<open>Values\<close>

datatype json =
    JNull
  | JBool bool
  | JInt int
  | JStr string
  | JArr "json list"
  | JObj "(string \<times> json) list"

fun dict_set :: "(string \<times> 'v) list \<Rightarrow> string \<Rightarrow> 'v \<Rightarrow> (string \<times> 'v) list" where
  "dict_set [] k v = [(k, v)]"
| "dict_set ((k', v') # d) k v = (if k = k' then (k, v) # d else (k', v') # dict_set d k v)"

definition dict_of_pairs :: "(string \<times> 'v) list \<Rightarrow> (string \<times> 'v) list" where
  "dict_of_pairs kvs = foldl (\<lambda>d (k, v). dict_set d k v) [] kvs"

text \<open>\<open>dict.get\<close>, with \<open>None\<close> for an absent key as for a JSON null.\<close>

definition dict_get :: "(string \<times> json) list \<Rightarrow> string \<Rightarrow> json" where
  "dict_get d k = (case map_of d k of None \<Rightarrow> JNull | Some v \<Rightarrow> v)"

section \<open>dumps\<close>

fun join :: "string \<Rightarrow> string list \<Rightarrow> string" where
  "join sep [] = []"
| "join sep [x] = x"
| "join sep (x # y # zs) = x @ sep @ join sep (y # zs)"

definition esc_char :: "char \<Rightarrow> string" where
  "esc_char c =
     (if c = CHR 0x22 then [CHR 0x5C, CHR 0x22]
      else if c = CHR 0x5C then [CHR 0x5C, CHR 0x5C]
      else if c = CHR 0x0A then [CHR 0x5C, CHR ''n'']
      else if c = CHR 0x0D then [CHR 0x5C, CHR ''r'']
      else if c = CHR 0x09 then [CHR 0x5C, CHR ''t'']
      else if c = CHR 0x0C then [CHR 0x5C, CHR ''f'']
      else if c = CHR 0x08 then [CHR 0x5C, CHR ''b'']
      else let n = of_char c :: nat
      in if n < 32 \<or> 126 < n then
           [CHR 0x5C, CHR ''u'', CHR ''0'', CHR ''0'', hex_digit (n div 16), hex_digit (n mod 16)]
         else [c])"

definition quoted :: "string \<Rightarrow> string" where
  "quoted s = CHR 0x22 # concat (map esc_char s) @ [CHR 0x22]"

fun dumps_with :: "string \<Rightarrow> string \<Rightarrow> bool \<Rightarrow> json \<Rightarrow> string" where
  "dumps_with isep ksep srt JNull = ''null''"
| "dumps_with isep ksep srt (JBool b) = (if b then ''true'' else ''false'')"
| "dumps_with isep ksep srt (JInt i) = int_text i"
| "dumps_with isep ksep srt (JStr s) = quoted s"
| "dumps_with isep ksep srt (JArr vs) =
     CHR ''['' # join isep (map (dumps_with isep ksep srt) vs) @ '']''"
| "dumps_with isep ksep srt (JObj kvs) =
     (let ts = map (\<lambda>(k, v). (k, dumps_with isep ksep srt v)) kvs
      in CHR ''{'' # join isep (map (\<lambda>(k, t). quoted k @ ksep @ t)
           (if srt then sort_key fst ts else ts)) @ ''}'')"

text \<open>\<open>separators=(",", ":"), sort_keys=True\<close>, the canonical form of signatures and evidence.\<close>

definition dumps :: "json \<Rightarrow> string" where
  "dumps v = dumps_with '','' '':'' True v"

text \<open>The compact form with the keys in their order, and the default separators.\<close>

definition dumps_compact :: "json \<Rightarrow> string" where
  "dumps_compact v = dumps_with '','' '':'' False v"

definition dumps_default :: "json \<Rightarrow> string" where
  "dumps_default v = dumps_with '', '' '': '' False v"

section \<open>loads\<close>

definition is_ws :: "char \<Rightarrow> bool" where
  "is_ws c = (c = CHR '' '' \<or> c = CHR 0x09 \<or> c = CHR 0x0A \<or> c = CHR 0x0D)"

definition skip_ws :: "string \<Rightarrow> string" where
  "skip_ws s = dropWhile is_ws s"

definition xdigit_val :: "char \<Rightarrow> nat option" where
  "xdigit_val c =
     (let n = of_char c :: nat
      in if 65 \<le> n \<and> n \<le> 70 then Some (n - 55) else hex_val c)"

fun xdigits :: "nat \<Rightarrow> string \<Rightarrow> nat option" where
  "xdigits a [] = Some a"
| "xdigits a (c # cs) = (case xdigit_val c of None \<Rightarrow> None | Some d \<Rightarrow> xdigits (16 * a + d) cs)"

definition simple_escape :: "char \<Rightarrow> char option" where
  "simple_escape c =
     (if c = CHR 0x22 \<or> c = CHR 0x5C \<or> c = CHR ''/'' then Some c
      else if c = CHR ''n'' then Some (CHR 0x0A)
      else if c = CHR ''r'' then Some (CHR 0x0D)
      else if c = CHR ''t'' then Some (CHR 0x09)
      else if c = CHR ''f'' then Some (CHR 0x0C)
      else if c = CHR ''b'' then Some (CHR 0x08)
      else None)"

text \<open>The text after an opening quote, in strict mode: the string and what follows it.\<close>

definition push_char :: "char \<Rightarrow> (string \<times> string) res \<Rightarrow> (string \<times> string) res" where
  "push_char c r = (case r of Inl e \<Rightarrow> Inl e | Inr (s, rest) \<Rightarrow> Inr (c # s, rest))"

function scan_str :: "string \<Rightarrow> (string \<times> string) res" where
  "scan_str s =
     (case s of
        [] \<Rightarrow> Inl JSONDecodeError
      | c # r \<Rightarrow>
        if c = CHR 0x22 then Inr ([], r)
        else if c = CHR 0x5C then
          (case r of
             [] \<Rightarrow> Inl JSONDecodeError
           | e # r' \<Rightarrow>
             if e = CHR ''u'' then
               (if length r' < 4 then Inl JSONDecodeError
                else case xdigits 0 (take 4 r') of
                       None \<Rightarrow> Inl JSONDecodeError
                     | Some n \<Rightarrow> if n < 256 then push_char (char_of n) (scan_str (drop 4 r'))
                                else Inl Unmodelled)
             else (case simple_escape e of
                     None \<Rightarrow> Inl JSONDecodeError
                   | Some c' \<Rightarrow> push_char c' (scan_str r')))
        else if of_char c < (32::nat) then Inl JSONDecodeError
        else push_char c (scan_str r))"
  by pat_completeness auto
termination by (relation "measure length") auto

declare scan_str.simps [simp del]

text \<open>An integer literal. A fraction or an exponent makes the literal a float.\<close>

definition starts_float :: "string \<Rightarrow> bool" where
  "starts_float r =
     (case r of
        c # d # r' \<Rightarrow>
          c = CHR ''.'' \<and> is_digit d
          \<or> (c = CHR ''e'' \<or> c = CHR ''E'') \<and>
            (is_digit d \<or> (is_sign d \<and> r' \<noteq> [] \<and> is_digit (hd r')))
      | _ \<Rightarrow> False)"

definition scan_nat :: "string \<Rightarrow> (nat \<times> string) res" where
  "scan_nat s =
     (let ds = takeWhile is_digit s; r = dropWhile is_digit s
      in if ds = [] then Inl JSONDecodeError
         else if hd ds = CHR ''0''
           then (if starts_float (tl s) then Inl Unmodelled else Inr (0, tl s))
         else if starts_float r then Inl Unmodelled
         else case num_acc 0 ds of None \<Rightarrow> Inl JSONDecodeError | Some n \<Rightarrow> Inr (n, r))"

definition scan_int :: "string \<Rightarrow> (json \<times> string) res" where
  "scan_int s =
     (case s of
        c # r \<Rightarrow>
          if c = CHR ''-'' then
            (if take 8 r = ''Infinity'' then Inl Unmodelled
             else case scan_nat r of Inl e \<Rightarrow> Inl e | Inr (n, t) \<Rightarrow> Inr (JInt (- int n), t))
          else (case scan_nat s of Inl e \<Rightarrow> Inl e | Inr (n, t) \<Rightarrow> Inr (JInt (int n), t))
      | [] \<Rightarrow> Inl JSONDecodeError)"

definition scan_word :: "string \<Rightarrow> (json \<times> string) res" where
  "scan_word s =
     (if take 4 s = ''null'' then Inr (JNull, drop 4 s)
      else if take 4 s = ''true'' then Inr (JBool True, drop 4 s)
      else if take 5 s = ''false'' then Inr (JBool False, drop 5 s)
      else if take 3 s = ''NaN'' \<or> take 8 s = ''Infinity'' then Inl Unmodelled
      else scan_int s)"

text \<open>
  The recursive scanner. Each nested call spends one unit of fuel, and \<open>OutOfFuel\<close> is told apart
  from every outcome of the program; \<open>loads\<close> supplies two units per character, which is enough (\<open>loads_fuel\<close>).
\<close>

fun scan_value :: "nat \<Rightarrow> string \<Rightarrow> (json \<times> string) res"
  and scan_elements :: "nat \<Rightarrow> string \<Rightarrow> (json list \<times> string) res"
  and scan_members :: "nat \<Rightarrow> string \<Rightarrow> ((string \<times> json) list \<times> string) res" where
  "scan_value 0 s = Inl OutOfFuel"
| "scan_value (Suc f) s =
     (case s of
        [] \<Rightarrow> Inl JSONDecodeError
      | c # r \<Rightarrow>
        if c = CHR 0x22 then
          (case scan_str r of Inl e \<Rightarrow> Inl e | Inr (t, r') \<Rightarrow> Inr (JStr t, r'))
        else if c = CHR ''['' then
          (case skip_ws r of
             [] \<Rightarrow> Inl JSONDecodeError
           | d # r' \<Rightarrow>
             if d = CHR '']'' then Inr (JArr [], r')
             else case scan_elements f (d # r') of
                    Inl e \<Rightarrow> Inl e | Inr (vs, r'') \<Rightarrow> Inr (JArr vs, r''))
        else if c = CHR ''{'' then
          (case skip_ws r of
             [] \<Rightarrow> Inl JSONDecodeError
           | d # r' \<Rightarrow>
             if d = CHR ''}'' then Inr (JObj [], r')
             else case scan_members f (d # r') of
                    Inl e \<Rightarrow> Inl e | Inr (kvs, r'') \<Rightarrow> Inr (JObj (dict_of_pairs kvs), r''))
        else scan_word s)"
| "scan_elements 0 s = Inl OutOfFuel"
| "scan_elements (Suc f) s =
     (case scan_value f s of
        Inl e \<Rightarrow> Inl e
      | Inr (v, r) \<Rightarrow>
        (case skip_ws r of
           [] \<Rightarrow> Inl JSONDecodeError
         | d # r' \<Rightarrow>
           if d = CHR '']'' then Inr ([v], r')
           else if d = CHR '','' then
             (case scan_elements f (skip_ws r') of
                Inl e \<Rightarrow> Inl e | Inr (vs, r'') \<Rightarrow> Inr (v # vs, r''))
           else Inl JSONDecodeError))"
| "scan_members 0 s = Inl OutOfFuel"
| "scan_members (Suc f) s =
     (case s of
        [] \<Rightarrow> Inl JSONDecodeError
      | q # r0 \<Rightarrow>
        if q \<noteq> CHR 0x22 then Inl JSONDecodeError
        else case scan_str r0 of
          Inl e \<Rightarrow> Inl e
        | Inr (k, r1) \<Rightarrow>
          (case skip_ws r1 of
             [] \<Rightarrow> Inl JSONDecodeError
           | d # r2 \<Rightarrow>
             if d \<noteq> CHR '':'' then Inl JSONDecodeError
             else case scan_value f (skip_ws r2) of
               Inl e \<Rightarrow> Inl e
             | Inr (v, r3) \<Rightarrow>
               (case skip_ws r3 of
                  [] \<Rightarrow> Inl JSONDecodeError
                | d' # r4 \<Rightarrow>
                  if d' = CHR ''}'' then Inr ([(k, v)], r4)
                  else if d' = CHR '','' then
                    (case scan_members f (skip_ws r4) of
                       Inl e \<Rightarrow> Inl e | Inr (kvs, r5) \<Rightarrow> Inr ((k, v) # kvs, r5))
                  else Inl JSONDecodeError)))"

definition loads :: "string \<Rightarrow> json res" where
  "loads s =
     (case scan_value (Suc (2 * length s)) (skip_ws s) of
        Inl e \<Rightarrow> Inl e
      | Inr (v, r) \<Rightarrow> if skip_ws r = [] then Inr v else Inl JSONDecodeError)"

text \<open>\<open>json.loads\<close> on bytes. The encoding is UTF-8 unless a byte-order mark or a NUL among the
  first bytes announces UTF-16 or UTF-32, which is outside the model.\<close>

fun utf8_decode :: "byte list \<Rightarrow> string res" where
  "utf8_decode [] = Inr []"
| "utf8_decode (b # bs) =
     (if unat b < 128 then
        (case utf8_decode bs of Inl e \<Rightarrow> Inl e | Inr s \<Rightarrow> Inr (char_of (unat b) # s))
      else if unat b < 194 \<or> 244 < unat b then Inl UnicodeDecodeError
      else if 195 < unat b then Inl Unmodelled
      else (case bs of
              [] \<Rightarrow> Inl UnicodeDecodeError
            | b2 # bs' \<Rightarrow>
              if unat b2 < 128 \<or> 191 < unat b2 then Inl UnicodeDecodeError
              else (case utf8_decode bs' of Inl e \<Rightarrow> Inl e
                    | Inr s \<Rightarrow> Inr (char_of (64 * (unat b - 192) + (unat b2 - 128)) # s))))"

definition wide_encoding :: "byte list \<Rightarrow> bool" where
  "wide_encoding bs =
     (take 2 bs = [0xFE, 0xFF] \<or> take 2 bs = [0xFF, 0xFE] \<or> take 3 bs = [0xEF, 0xBB, 0xBF]
      \<or> (length bs \<ge> 2 \<and> (bs ! 0 = 0 \<or> bs ! 1 = 0)))"

definition loads_bytes :: "byte list \<Rightarrow> json res" where
  "loads_bytes bs =
     (if wide_encoding bs then Inl Unmodelled
      else case utf8_decode bs of Inl e \<Rightarrow> Inl e | Inr s \<Rightarrow> loads s)"

section \<open>Facts: decimal text\<close>

lemma digit_char_0: "digit_char 0 = CHR ''0''"
  by code_simp

lemma digit_val_digit_char [simp]: "d < 10 \<Longrightarrow> digit_val (digit_char d) = Some d"
  by (simp add: digit_val_def digit_char_def Let_def)

lemma num_acc_append:
  "num_acc a (xs @ ys) = (case num_acc a xs of None \<Rightarrow> None | Some b \<Rightarrow> num_acc b ys)"
  by (induction xs arbitrary: a) (auto split: option.splits)

lemma num_acc_nat_text: "num_acc 0 (nat_text n) = Some n"
proof (induction n rule: nat_text.induct)
  case (1 n)
  then show ?case by (subst nat_text.simps) (simp add: num_acc_append)
qed

lemma nat_text_digits: "list_all is_digit (nat_text n)"
proof (induction n rule: nat_text.induct)
  case (1 n)
  then show ?case by (subst nat_text.simps) (auto simp: is_digit_def[of "digit_char _"])
qed

lemma nat_text_not_Nil [simp]: "nat_text n \<noteq> []"
  by (subst nat_text.simps) simp

lemma hd_nat_text: "hd (nat_text n) = CHR ''0'' \<longleftrightarrow> n = 0"
proof (induction n rule: nat_text.induct)
  case (1 n)
  have "digit_char n = CHR ''0'' \<longleftrightarrow> n = 0" if "n < 10"
  proof
    assume "digit_char n = CHR ''0''"
    then have "digit_val (digit_char n) = digit_val (CHR ''0'')" by simp
    with that show "n = 0" by (simp add: digit_val_def[of "CHR ''0''"])
  qed (simp add: digit_char_0)
  with "1" show ?case by (subst nat_text.simps) auto
qed

lemma nat_text_0: "nat_text 0 = ''0''"
  by (simp add: nat_text.simps digit_char_0)

section \<open>Scanning strings\<close>

lemma scan_str_Nil: "scan_str (CHR 0x22 # r) = Inr ([], r)"
  by (simp add: scan_str.simps)

lemma scan_str_plain:
  "c \<noteq> CHR 0x22 \<Longrightarrow> c \<noteq> CHR 0x5C \<Longrightarrow> 32 \<le> (of_char c :: nat) \<Longrightarrow>
   scan_str (c # r) = push_char c (scan_str r)"
  by (subst scan_str.simps) simp

lemma scan_str_simple:
  "simple_escape e = Some c \<Longrightarrow> scan_str (CHR 0x5C # e # r) = push_char c (scan_str r)"
  by (subst scan_str.simps) (auto simp: simple_escape_def)

lemma scan_str_unicode:
  "xdigits 0 [a, b, d, e] = Some n \<Longrightarrow> n < 256 \<Longrightarrow>
   scan_str (CHR 0x5C # CHR ''u'' # a # b # d # e # r) = push_char (char_of n) (scan_str r)"
  by (subst scan_str.simps) (simp del: xdigits.simps)

lemma xdigits_hex:
  "n < 256 \<Longrightarrow>
   xdigits 0 [CHR ''0'', CHR ''0'', hex_digit (n div 16), hex_digit (n mod 16)] = Some n"
proof -
  assume "n < 256"
  then have "n div 16 < 16" by simp
  moreover have "xdigit_val (hex_digit d) = Some d" if "d < 16" for d
    using that by (auto simp: xdigit_val_def Let_def of_char_hex_digit)
  ultimately show ?thesis by (simp add: xdigit_val_def[of "CHR ''0''"] hex_val_def Let_def)
qed

lemma scan_str_esc: "scan_str (esc_char c @ r) = push_char c (scan_str r)"
  by (auto simp: esc_char_def Let_def scan_str_plain scan_str_simple scan_str_unicode[OF xdigits_hex]
      simple_escape_def)

lemma scan_str_quoted: "scan_str (concat (map esc_char s) @ CHR 0x22 # r) = Inr (s, r)"
  by (induction s) (auto simp: scan_str_Nil scan_str_esc push_char_def)

section \<open>Round trip\<close>

definition ok_rest :: "string \<Rightarrow> bool" where
  "ok_rest r = (r = [] \<or> hd r = CHR '','' \<or> hd r = CHR '']'' \<or> hd r = CHR ''}'' \<or> hd r = CHR 0x0A)"

lemma ok_rest_not_digit: "ok_rest (c # r) \<Longrightarrow> \<not> is_digit c"
  by (auto simp: ok_rest_def is_digit_def digit_val_def)

lemma ok_rest_not_float: "ok_rest r \<Longrightarrow> \<not> starts_float r"
  by (auto simp: ok_rest_def starts_float_def split: list.splits)

lemma takeWhile_nat_text: "ok_rest r \<Longrightarrow> takeWhile is_digit (nat_text n @ r) = nat_text n"
  using nat_text_digits[of n]
  by (cases r) (auto simp: takeWhile_append2 list_all_iff ok_rest_not_digit takeWhile_tail)

lemma dropWhile_nat_text: "ok_rest r \<Longrightarrow> dropWhile is_digit (nat_text n @ r) = r"
  using nat_text_digits[of n]
  by (cases r) (auto simp: dropWhile_append2 list_all_iff ok_rest_not_digit)

lemma scan_nat_text: "ok_rest r \<Longrightarrow> scan_nat (nat_text n @ r) = Inr (n, r)"
proof (cases "n = 0")
  case True
  assume "ok_rest r"
  with takeWhile_nat_text[of r 0] show ?thesis
    by (simp add: True scan_nat_def Let_def nat_text_0 ok_rest_not_float)
next
  case False
  assume "ok_rest r"
  with False show ?thesis
    by (simp add: scan_nat_def Let_def takeWhile_nat_text dropWhile_nat_text ok_rest_not_float
        hd_nat_text num_acc_nat_text)
qed


text \<open>Separators: the mark, then optional white space.\<close>

definition seps :: "string \<Rightarrow> string \<Rightarrow> bool" where
  "seps isep ksep =
     (isep \<noteq> [] \<and> hd isep = CHR '','' \<and> list_all is_ws (tl isep)
      \<and> ksep \<noteq> [] \<and> hd ksep = CHR '':'' \<and> list_all is_ws (tl ksep))"

lemma skip_ws_append: "list_all is_ws w \<Longrightarrow> skip_ws (w @ s) = skip_ws s"
  by (induction w) (auto simp: skip_ws_def)

lemma skip_ws_Cons: "\<not> is_ws c \<Longrightarrow> skip_ws (c # r) = c # r"
  by (simp add: skip_ws_def)

fun canon :: "bool \<Rightarrow> json \<Rightarrow> json" where
  "canon srt (JArr vs) = JArr (map (canon srt) vs)"
| "canon srt (JObj kvs) =
     (let d = map (\<lambda>(k, v). (k, canon srt v)) kvs in JObj (if srt then sort_key fst d else d))"
| "canon srt v = v"

fun wf_json :: "json \<Rightarrow> bool" where
  "wf_json (JArr vs) = list_all wf_json vs"
| "wf_json (JObj kvs) = (distinct (map fst kvs) \<and> list_all (\<lambda>(k, v). wf_json v) kvs)"
| "wf_json v = True"

lemma insort_key_map: "insort_key f (g x) (map g xs) = map g (insort_key (f \<circ> g) x xs)"
  by (induction xs) auto

lemma sort_key_map: "sort_key f (map g xs) = map g (sort_key (f \<circ> g) xs)"
  by (induction xs) (auto simp: insort_key_map o_def)

text \<open>A printed value starts with a character that is no white space and no closing bracket.\<close>

definition ok_head :: "char \<Rightarrow> bool" where
  "ok_head c = (\<not> is_ws c \<and> c \<noteq> CHR '']'' \<and> c \<noteq> CHR ''}'')"

lemma ok_head_digit: "is_digit c \<Longrightarrow> ok_head c"
  by (auto simp: ok_head_def is_digit_def digit_val_def is_ws_def)

lemma nat_text_Cons: obtains c t where "nat_text n = c # t" "is_digit c"
  using nat_text_digits[of n] by (cases "nat_text n") auto

lemma dumps_Cons:
  obtains c t where "dumps_with isep ksep srt v = c # t" "ok_head c"
proof (cases v)
  case (JInt i)
  obtain c t where "nat_text (nat i) = c # t" "is_digit c" by (rule nat_text_Cons)
  moreover have "ok_head (CHR ''-'')" by (simp add: ok_head_def is_ws_def)
  ultimately show ?thesis
    using JInt that by (cases "i < 0") (auto simp: int_text_def ok_head_digit)
next
  case (JBool b)
  with that show ?thesis by (cases b) (auto simp: ok_head_def is_ws_def)
qed (auto simp: ok_head_def is_ws_def quoted_def Let_def intro: that)

lemma scan_value_word:
  "c \<noteq> CHR 0x22 \<Longrightarrow> c \<noteq> CHR ''['' \<Longrightarrow> c \<noteq> CHR ''{'' \<Longrightarrow>
   scan_value (Suc f) (c # r) = scan_word (c # r)"
  by simp

lemma scan_word_int:
  assumes "is_digit c \<or> c = CHR ''-''"
  shows "scan_word (c # r) = scan_int (c # r)"
proof -
  have "c \<noteq> CHR ''n''" "c \<noteq> CHR ''t''" "c \<noteq> CHR ''f''" "c \<noteq> CHR ''N''" "c \<noteq> CHR ''I''"
    using assms by (auto simp: is_digit_def digit_val_def)
  then show ?thesis by (simp add: scan_word_def)
qed

lemma scan_int_text: "ok_rest r \<Longrightarrow> scan_value (Suc f) (int_text i @ r) = Inr (JInt i, r)"
proof -
  assume r: "ok_rest r"
  show ?thesis
  proof (cases "i < 0")
    case True
    obtain c t where c: "nat_text (nat (- i)) = c # t" "is_digit c"
      by (rule nat_text_Cons)
    then have "c \<noteq> CHR ''I''" by (auto simp: is_digit_def digit_val_def)
    with True r c scan_nat_text[OF r, of "nat (- i)"] show ?thesis
      by (simp add: int_text_def scan_value_word scan_word_int scan_int_def del: scan_value.simps)
  next
    case False
    obtain c t where c: "nat_text (nat i) = c # t" "is_digit c"
      by (rule nat_text_Cons)
    then have "c \<noteq> CHR ''-''" "c \<noteq> CHR 0x22" "c \<noteq> CHR ''[''" "c \<noteq> CHR ''{''"
      by (auto simp: is_digit_def digit_val_def)
    with False r c scan_nat_text[OF r, of "nat i"] show ?thesis
      by (simp add: int_text_def scan_value_word scan_word_int scan_int_def del: scan_value.simps)
  qed
qed

lemma dict_set_fresh: "k \<notin> fst ` set d \<Longrightarrow> dict_set d k v = d @ [(k, v)]"
  by (induction d) auto

lemma dict_of_pairs_distinct: "distinct (map fst kvs) \<Longrightarrow> dict_of_pairs kvs = kvs"
proof -
  have "distinct (map fst (d @ kvs)) \<Longrightarrow> foldl (\<lambda>d (k, v). dict_set d k v) d kvs = d @ kvs" for d
    by (induction kvs arbitrary: d) (auto simp: dict_set_fresh image_iff)
  from this[of "[]"] show "distinct (map fst kvs) \<Longrightarrow> ?thesis" by (simp add: dict_of_pairs_def)
qed


definition scans :: "string \<Rightarrow> json \<Rightarrow> bool" where
  "scans t v = (\<forall>f r. 2 * length t < f \<longrightarrow> ok_rest r \<longrightarrow> scan_value f (t @ r) = Inr (v, r))"

lemma scansD: "scans t v \<Longrightarrow> 2 * length t < f \<Longrightarrow> ok_rest r \<Longrightarrow> scan_value f (t @ r) = Inr (v, r)"
  by (simp add: scans_def)

lemma scans_wordI:
  assumes "\<And>r. scan_word (c # t @ r) = Inr (v, r)"
    and "c \<noteq> CHR 0x22" "c \<noteq> CHR ''[''" "c \<noteq> CHR ''{''"
  shows "scans (c # t) v"
  unfolding scans_def
proof (intro allI impI)
  fix f r assume "2 * length (c # t) < f"
  then obtain f' where "f = Suc f'" by (cases f) auto
  with assms show "scan_value f ((c # t) @ r) = Inr (v, r)" by (simp add: scan_value_word del: scan_value.simps)
qed

lemma scan_elements_join:
  assumes "list_all2 (\<lambda>t v. scans t v \<and> t \<noteq> [] \<and> ok_head (hd t)) ts vs" "ts \<noteq> []"
    and "isep \<noteq> []" "hd isep = CHR '',''" "list_all is_ws (tl isep)"
    and "2 * length (join isep ts) + 2 \<le> f"
  shows "scan_elements f (join isep ts @ CHR '']'' # r) = Inr (vs, r)"
  using assms
proof (induction isep ts arbitrary: vs f rule: join.induct)
  case (1 sep)
  then show ?case by simp
next
  case (2 sep t)
  then obtain v f' where v: "vs = [v]" "scans t v" and f: "f = Suc f'" "2 * length t < f'"
    by (cases f) (auto simp: list_all2_Cons1)
  have "scan_value f' (t @ CHR '']'' # r) = Inr (v, CHR '']'' # r)"
    using v f by (intro scansD) (auto simp: ok_rest_def)
  with v f show ?case by (simp add: skip_ws_def is_ws_def)
next
  case (3 sep t u ts)
  then obtain v vs' f' where v: "vs = v # vs'" "scans t v"
      "list_all2 (\<lambda>t v. scans t v \<and> t \<noteq> [] \<and> ok_head (hd t)) (u # ts) vs'"
    and f: "f = Suc f'" "2 * length t < f'" "2 * length (join sep (u # ts)) + 2 \<le> f'"
    by (cases f) (auto simp: list_all2_Cons1 neq_Nil_conv)
  from 3(4,5) obtain w where sep: "sep = CHR '','' # w" by (cases sep) auto
  let ?rest = "join sep (u # ts) @ CHR '']'' # r"
  have "scan_value f' (t @ sep @ ?rest) = Inr (v, sep @ ?rest)"
    using v f sep by (intro scansD) (auto simp: ok_rest_def)
  moreover have "skip_ws (w @ ?rest) = ?rest"
  proof -
    have "\<exists>c s. ?rest = c # s \<and> ok_head c"
      using v(3) by (cases ts) (auto simp: list_all2_Cons1 neq_Nil_conv)
    with 3(6) sep show ?thesis by (auto simp: skip_ws_append skip_ws_Cons ok_head_def)
  qed
  moreover have "scan_elements f' ?rest = Inr (vs', r)"
    using 3(1)[of vs' f'] v f 3(4-6) by simp
  moreover have "skip_ws (sep @ ?rest) = CHR '','' # w @ ?rest"
    by (simp add: sep skip_ws_def is_ws_def)
  ultimately show ?case using v f by (simp add: sep)
qed

lemma scan_members_join:
  assumes "list_all2 (\<lambda>(k, t) (k', v). k = k' \<and> scans t v \<and> t \<noteq> [] \<and> ok_head (hd t)) kts kvs"
    and "kts \<noteq> []" and "seps isep ksep"
    and "2 * length (join isep (map (\<lambda>(k, t). quoted k @ ksep @ t) kts)) + 2 \<le> f"
  shows "scan_members f (join isep (map (\<lambda>(k, t). quoted k @ ksep @ t) kts) @ CHR ''}'' # r) =
     Inr (kvs, r)"
  using assms
proof (induction kts arbitrary: kvs f)
  case Nil
  then show ?case by simp
next
  case (Cons kt kts)
  obtain k t where kt: "kt = (k, t)" by (cases kt)
  with Cons.prems obtain v kvs' where v: "kvs = (k, v) # kvs'" "scans t v" "t \<noteq> []" "ok_head (hd t)"
      "list_all2 (\<lambda>(k, t) (k', v). k = k' \<and> scans t v \<and> t \<noteq> [] \<and> ok_head (hd t)) kts kvs'"
    by (auto simp: list_all2_Cons1)
  from Cons.prems(3) obtain w w' where seps: "isep = CHR '','' # w" "list_all is_ws w"
      "ksep = CHR '':'' # w'" "list_all is_ws w'"
    by (cases isep; cases ksep) (auto simp: seps_def)
  let ?m = "\<lambda>(k, t). quoted k @ ksep @ t"
  define rest where "rest = (if kts = [] then CHR ''}'' # r
     else isep @ join isep (map ?m kts) @ CHR ''}'' # r)"
  have shown: "join isep (map ?m (kt # kts)) @ CHR ''}'' # r =
      CHR 0x22 # concat (map esc_char k) @ CHR 0x22 # CHR '':'' # w' @ t @ rest"
    by (cases kts) (auto simp: kt rest_def quoted_def seps)
  from Cons.prems(4) obtain f' where f: "f = Suc f'" "2 * length t < f'"
      "kts \<noteq> [] \<Longrightarrow> 2 * length (join isep (map ?m kts)) + 2 \<le> f'"
    by (cases f; cases kts) (auto simp: kt quoted_def seps)
  have val: "scan_value f' (t @ rest) = Inr (v, rest)"
    using v f by (intro scansD) (auto simp: ok_rest_def rest_def seps)
  have ws: "skip_ws (w' @ t @ rest) = t @ rest"
    using seps v by (cases t) (auto simp: skip_ws_append skip_ws_Cons ok_head_def)
  have colon: "skip_ws (CHR '':'' # x) = CHR '':'' # x" for x
    by (simp add: skip_ws_def is_ws_def)
  show ?case
  proof (cases "kts = []")
    case True
    then have "skip_ws rest = CHR ''}'' # r" by (simp add: rest_def skip_ws_def is_ws_def)
    with True v f val ws show ?thesis
      unfolding shown by (simp add: scan_str_quoted colon)
  next
    case False
    let ?more = "join isep (map ?m kts) @ CHR ''}'' # r"
    have "skip_ws rest = CHR '','' # w @ ?more"
      using False by (simp add: rest_def seps skip_ws_def is_ws_def)
    moreover have "skip_ws (w @ ?more) = ?more" 
    proof -
      have "\<exists>s. ?more = CHR 0x22 # s"
        using False by (cases kts; cases "tl kts") (auto simp: quoted_def)
      with seps(2) show ?thesis
        by (auto simp: skip_ws_append skip_ws_Cons[of "CHR 0x22"] is_ws_def[of "CHR 0x22"])
    qed
    moreover have "scan_members f' ?more = Inr (kvs', r)"
      using Cons.IH[OF v(5) False Cons.prems(3) f(3)[OF False]] .
    ultimately show ?thesis
      unfolding shown using v f val ws by (simp add: scan_str_quoted colon)
  qed
qed

lemma scans_array:
  assumes "list_all2 (\<lambda>t v. scans t v \<and> t \<noteq> [] \<and> ok_head (hd t)) ts vs" "seps isep ksep"
  shows "scans (CHR ''['' # join isep ts @ '']'') (JArr vs)"
  unfolding scans_def
proof (intro allI impI)
  fix f r
  assume f: "2 * length (CHR ''['' # join isep ts @ '']'') < f"
  then obtain f' where f': "f = Suc f'" by (cases f) auto
  show "scan_value f ((CHR ''['' # join isep ts @ '']'') @ r) = Inr (JArr vs, r)"
  proof (cases "ts = []")
    case True
    then show ?thesis using assms by (simp add: f' skip_ws_def is_ws_def)
  next
    case False
    then obtain c s where c: "join isep ts = c # s" "ok_head c"
      using assms(1) by (cases ts; cases "tl ts") (auto simp: list_all2_Cons1 neq_Nil_conv)
    have "scan_elements f' (join isep ts @ CHR '']'' # r) = Inr (vs, r)"
      using assms False f f' by (intro scan_elements_join) (auto simp: seps_def)
    with c show ?thesis by (simp add: f' skip_ws_Cons ok_head_def)
  qed
qed

lemma scans_object:
  assumes "list_all2 (\<lambda>(k, t) (k', v). k = k' \<and> scans t v \<and> t \<noteq> [] \<and> ok_head (hd t)) kts kvs"
    and "distinct (map fst kvs)" "seps isep ksep"
  shows "scans (CHR ''{'' # join isep (map (\<lambda>(k, t). quoted k @ ksep @ t) kts) @ ''}'') (JObj kvs)"
  unfolding scans_def
proof (intro allI impI)
  fix f r
  let ?j = "join isep (map (\<lambda>(k, t). quoted k @ ksep @ t) kts)"
  assume f: "2 * length (CHR ''{'' # ?j @ ''}'') < f"
  then obtain f' where f': "f = Suc f'" by (cases f) auto
  show "scan_value f ((CHR ''{'' # ?j @ ''}'') @ r) = Inr (JObj kvs, r)"
  proof (cases "kts = []")
    case True
    then show ?thesis using assms by (simp add: f' skip_ws_def is_ws_def)
  next
    case False
    then obtain s where s: "?j = CHR 0x22 # s"
      by (cases kts; cases "tl kts") (auto simp: quoted_def)
    have "scan_members f' (?j @ CHR ''}'' # r) = Inr (kvs, r)"
      using assms False f f' by (intro scan_members_join) auto
    with s assms(2) show ?thesis
      by (simp add: f' skip_ws_def is_ws_def dict_of_pairs_distinct)
  qed
qed

lemma list_all2_mapI: "(\<And>x. x \<in> set xs \<Longrightarrow> P (f x) (g x)) \<Longrightarrow> list_all2 P (map f xs) (map g xs)"
  by (induction xs) auto

lemma dumps_head: "dumps_with i k s v \<noteq> [] \<and> ok_head (hd (dumps_with i k s v))"
  by (rule dumps_Cons[of i k s v]) simp

lemma dumps_scans:
  assumes "seps isep ksep"
  shows "wf_json v \<Longrightarrow> scans (dumps_with isep ksep srt v) (canon srt v)"
proof (induction v rule: wf_json.induct[case_names arr obj null bool int str])
  case (arr vs)
  have "list_all2 (\<lambda>t v. scans t v \<and> t \<noteq> [] \<and> ok_head (hd t))
      (map (dumps_with isep ksep srt) vs) (map (canon srt) vs)"
    using arr by (intro list_all2_mapI) (auto simp: list_all_iff dumps_head)
  then show ?case using scans_array[OF _ assms] by simp
next
  case (obj kvs)
  define xs where "xs = (if srt then sort_key fst kvs else kvs)"
  have s: "set xs = set kvs" "distinct (map fst xs)"
    using obj by (auto simp: xs_def distinct_map)
  let ?d = "\<lambda>(k, v). (k, dumps_with isep ksep srt v)" and ?c = "\<lambda>(k, v). (k, canon srt v)"
  have fst_split: "fst \<circ> ?d = fst" "fst \<circ> ?c = fst" by auto
  have d: "(let ts = map ?d kvs in if srt then sort_key fst ts else ts) = map ?d xs"
    and c: "(let ts = map ?c kvs in if srt then sort_key fst ts else ts) = map ?c xs"
    by (simp_all only: xs_def Let_def sort_key_map fst_split if_distrib[of "map _"])
  have "list_all2 (\<lambda>(k, t) (k', v). k = k' \<and> scans t v \<and> t \<noteq> [] \<and> ok_head (hd t)) (map ?d xs) (map ?c xs)"
    using obj by (intro list_all2_mapI) (auto simp: list_all_iff dumps_head s split: prod.splits)
  moreover have "distinct (map fst (map ?c xs))" using s(2) by (simp only: map_map fst_split)
  ultimately have "scans (CHR ''{'' # join isep (map (\<lambda>(k, t). quoted k @ ksep @ t) (map ?d xs)) @ ''}'')
      (JObj (map ?c xs))"
    by (rule scans_object[OF _ _ assms])
  with d c show ?case by (simp add: Let_def)
next
  case null
  show ?case by (simp, rule scans_wordI) (auto simp: scan_word_def)
next
  case (bool b)
  show ?case by (cases b; simp; rule scans_wordI) (auto simp: scan_word_def)
next
  case (int i)
  then show ?case by (auto simp: scans_def scan_int_text simp del: scan_value.simps dest!: less_imp_Suc_add)
next
  case (str s)
  then show ?case by (auto simp: scans_def quoted_def scan_str_quoted dest!: less_imp_Suc_add)
qed

lemma loads_dumps_rest:
  assumes "seps isep ksep" "wf_json v" "ok_rest r" "skip_ws r = []"
  shows "loads (dumps_with isep ksep srt v @ r) = Inr (canon srt v)"
proof -
  let ?s = "dumps_with isep ksep srt v"
  have "skip_ws (?s @ r) = ?s @ r"
    by (rule dumps_Cons[of isep ksep srt v]) (simp add: skip_ws_Cons ok_head_def)
  moreover have "scan_value (Suc (2 * length (?s @ r))) (?s @ r) = Inr (canon srt v, r)"
    using dumps_scans[OF assms(1,2), of srt] by (rule scansD) (use assms(3) in auto)
  ultimately show ?thesis using assms(4) by (simp add: loads_def del: scan_value.simps)
qed

lemma loads_dumps_with: "seps isep ksep \<Longrightarrow> wf_json v \<Longrightarrow> loads (dumps_with isep ksep srt v) = Inr (canon srt v)"
  using loads_dumps_rest[of isep ksep v "[]" srt] by (simp add: ok_rest_def skip_ws_def)

section \<open>Fuel\<close>

lemma push_char_Inr: "push_char c x = Inr (s, r) \<longleftrightarrow> (\<exists>s'. x = Inr (s', r) \<and> s = c # s')"
  by (cases x) (auto simp: push_char_def)

lemma push_char_OutOfFuel: "push_char c x = Inl e \<longleftrightarrow> x = Inl e"
  by (cases x) (auto simp: push_char_def)

lemma scan_str_length: "scan_str s = Inr (t, r) \<Longrightarrow> length r < length s"
proof (induction s arbitrary: t rule: measure_induct_rule[of length])
  case (less s)
  have IH: "length u < length s \<Longrightarrow> scan_str u = Inr (t', r) \<Longrightarrow> length r < length u" for u t'
    by (rule less.IH)
  from less.prems obtain c s' where s: "s = c # s'"
    by (cases s) (auto simp: scan_str.simps)
  from less.prems consider "r = s'" | t' where "scan_str s' = Inr (t', r)"
    | e u t' where "s' = e # u" "scan_str u = Inr (t', r)"
    | e u t' where "s' = e # u" "scan_str (drop 4 u) = Inr (t', r)"
    unfolding scan_str.simps[of s]
    by (auto simp: s push_char_Inr split: if_splits list.splits option.splits)
  then show ?case
    by cases (auto simp: s dest!: IH[rotated])
qed

lemma scan_str_fuel: "scan_str s \<noteq> Inl OutOfFuel"
proof (induction s rule: scan_str.induct)
  case (1 s)
  show ?case
    by (subst scan_str.simps)
      (use "1.IH" in \<open>auto split: list.splits option.splits simp: push_char_OutOfFuel\<close>)
qed

lemma skip_ws_length: "length (skip_ws s) \<le> length s"
  by (simp add: skip_ws_def length_dropWhile_le)

lemma skip_ws_le: "skip_ws s = c # r \<Longrightarrow> length r < length s"
  using skip_ws_length[of s] by simp

lemma scan_nat_length: "scan_nat s = Inr (n, r) \<Longrightarrow> length r < length s"
  using length_dropWhile_le[of is_digit "tl s"]
  by (cases s) (auto simp: scan_nat_def Let_def less_Suc_eq_le split: if_splits option.splits)

lemma scan_word_length: "scan_word s = Inr (v, r) \<Longrightarrow> length r < length s"
  by (auto simp: scan_word_def scan_int_def split: if_splits list.splits sum.splits
      dest!: scan_nat_length) (auto dest!: arg_cong[of _ _ length])

lemma scan_word_fuel: "scan_word s \<noteq> Inl OutOfFuel"
  by (auto simp: scan_word_def scan_int_def scan_nat_def Let_def
      split: if_splits list.splits sum.splits option.splits)

lemma scan_lengths_all:
  "(\<forall>s v r. scan_value f s = Inr (v, r) \<longrightarrow> length r < length s) \<and>
   (\<forall>s vs r. scan_elements f s = Inr (vs, r) \<longrightarrow> length r < length s) \<and>
   (\<forall>s kvs r. scan_members f s = Inr (kvs, r) \<longrightarrow> length r < length s)"
proof (induction f)
  case 0
  then show ?case by simp
next
  case (Suc f)
  then have V: "\<And>s v r. scan_value f s = Inr (v, r) \<Longrightarrow> length r < length s"
    and E: "\<And>s vs r. scan_elements f s = Inr (vs, r) \<Longrightarrow> length r < length s"
    and M: "\<And>s kvs r. scan_members f s = Inr (kvs, r) \<Longrightarrow> length r < length s"
    by blast+
  have V': "scan_value f (skip_ws s) = Inr (v, r) \<Longrightarrow> length r < length s"
    and E': "scan_elements f (skip_ws s) = Inr (vs, r) \<Longrightarrow> length r < length s"
    and M': "scan_members f (skip_ws s) = Inr (kvs, r) \<Longrightarrow> length r < length s" for s v vs kvs r
    using V E M skip_ws_length[of s] less_le_trans by blast+
  have "length r < length s" if "scan_value (Suc f) s = Inr (v, r)" for s v r
    using that
    by (auto split: list.splits if_splits sum.splits dest!: scan_str_length scan_word_length)
      (auto dest!: E M skip_ws_le)
  moreover have "length r < length s" if "scan_elements (Suc f) s = Inr (vs, r)" for s vs r
    using that
    by (auto split: list.splits if_splits sum.splits dest!: V E' skip_ws_le)
  moreover have "length r < length s" if "scan_members (Suc f) s = Inr (kvs, r)" for s kvs r
    using that
    by (auto split: list.splits if_splits sum.splits dest!: V' M' skip_ws_le scan_str_length)
  ultimately show ?case by blast
qed


lemma scan_fuel_all:
  "(\<forall>s. 2 * length s < f \<longrightarrow> scan_value f s \<noteq> Inl OutOfFuel) \<and>
   (\<forall>s. 2 * length s + 1 < f \<longrightarrow> scan_elements f s \<noteq> Inl OutOfFuel) \<and>
   (\<forall>s. 2 * length s + 1 < f \<longrightarrow> scan_members f s \<noteq> Inl OutOfFuel)"
proof (induction f)
  case 0
  then show ?case by simp
next
  case (Suc f)
  then have V: "\<And>s. 2 * length s < f \<Longrightarrow> scan_value f s \<noteq> Inl OutOfFuel"
    and E: "\<And>s. 2 * length s + 1 < f \<Longrightarrow> scan_elements f s \<noteq> Inl OutOfFuel"
    and M: "\<And>s. 2 * length s + 1 < f \<Longrightarrow> scan_members f s \<noteq> Inl OutOfFuel"
    by blast+
  have vlen: "scan_value f s = Inr (v, r) \<Longrightarrow> length r < length s" for s v r
    using scan_lengths_all[of f] by blast
  have ws: "length (skip_ws s) \<le> length s" for s by (rule skip_ws_length)
  have "scan_value (Suc f) s \<noteq> Inl OutOfFuel" if "2 * length s < Suc f" for s
  proof -
    have "2 * length (d # r') + 1 < f" if "s = c # r" "skip_ws r = d # r'" for c r d r'
      using skip_ws_le[OF that(2)] that(1) \<open>2 * length s < Suc f\<close> by simp
    then have e: "scan_elements f (d # r') \<noteq> Inl OutOfFuel"
      and m: "scan_members f (d # r') \<noteq> Inl OutOfFuel"
      if "s = c # r" "skip_ws r = d # r'" for c r d r'
      using E M that by blast+
    show ?thesis
    proof (cases s)
      case (Cons c r)
      consider "c = CHR 0x22" | "c = CHR ''[''" | "c = CHR ''{''"
        | "c \<noteq> CHR 0x22" "c \<noteq> CHR ''[''" "c \<noteq> CHR ''{''" by blast
      then show ?thesis
      proof cases
        case 1
        then show ?thesis using scan_str_fuel[of r] by (auto simp: Cons split: sum.splits)
      next
        case 2
        then show ?thesis
          using e[OF Cons] by (cases "skip_ws r") (auto simp: Cons split: sum.splits)
      next
        case 3
        then show ?thesis
          using m[OF Cons] by (cases "skip_ws r") (auto simp: Cons split: sum.splits)
      qed (simp add: Cons scan_word_fuel)
    qed simp
  qed
  moreover have "scan_elements (Suc f) s \<noteq> Inl OutOfFuel" if "2 * length s + 1 < Suc f" for s
  proof -
    have "scan_elements f (skip_ws r') \<noteq> Inl OutOfFuel"
      if "scan_value f s = Inr (v, r)" "skip_ws r = d # r'" for v r d r'
      using E[of "skip_ws r'"] ws[of r'] vlen[OF that(1)] skip_ws_le[OF that(2)]
        \<open>2 * length s + 1 < Suc f\<close> by simp
    with V[of s] that show ?thesis by (auto split: list.splits sum.splits)
  qed
  moreover have "scan_members (Suc f) s \<noteq> Inl OutOfFuel" if "2 * length s + 1 < Suc f" for s
  proof -
    have v: False
      if "scan_value f (skip_ws r2) = Inl OutOfFuel"
        "scan_str r0 = Inr (k, r1)" "skip_ws r1 = d # r2" "s = q # r0" for q r0 k r1 d r2
      using V[of "skip_ws r2"] ws[of r2] scan_str_length[OF that(2)] skip_ws_le[OF that(3)] that(1,4)
        \<open>2 * length s + 1 < Suc f\<close> by simp
    have m: False
      if "scan_members f (skip_ws r4) = Inl OutOfFuel" "scan_str r0 = Inr (k, r1)" "skip_ws r1 = d # r2"
        "scan_value f (skip_ws r2) = Inr (v, r3)" "skip_ws r3 = d' # r4"
        "s = q # r0" for q r0 k r1 d r2 v r3 d' r4
      using M[of "skip_ws r4"] ws[of r4] ws[of r2] scan_str_length[OF that(2)] skip_ws_le[OF that(3)]
        vlen[OF that(4)] skip_ws_le[OF that(5)] that(1,6) \<open>2 * length s + 1 < Suc f\<close> by simp
    show ?thesis
      by (auto simp: scan_str_fuel split: list.splits sum.splits)
        (erule (3) v, erule (5) m)
  qed
  ultimately show ?case by blast
qed

lemma loads_fuel: "loads s \<noteq> Inl OutOfFuel"
proof -
  have "2 * length (skip_ws s) < Suc (2 * length s)" using skip_ws_length[of s] by simp
  then have "scan_value (Suc (2 * length s)) (skip_ws s) \<noteq> Inl OutOfFuel"
    using scan_fuel_all by blast
  then show ?thesis by (auto simp: loads_def split: sum.splits simp del: scan_value.simps)
qed


section \<open>Printed text is printable ASCII\<close>

definition printable :: "char \<Rightarrow> bool" where
  "printable c = (32 \<le> (of_char c :: nat) \<and> (of_char c :: nat) \<le> 126)"

lemma printable_marks [simp]:
  "printable (CHR ''['')" "printable (CHR '']'')" "printable (CHR ''{'')" "printable (CHR ''}'')"
  "printable (CHR '','')" "printable (CHR '':'')" "printable (CHR '' '')" "printable (CHR 0x22)"
  by (simp_all add: printable_def)

lemma printable_hex_digit: "n < 16 \<Longrightarrow> printable (hex_digit n)"
  by (auto simp: printable_def of_char_hex_digit)

lemma printable_esc: "list_all printable (esc_char c)"
proof -
  have "(of_char c :: nat) div 16 < 16" using nat_of_char_less_256[of c] by linarith
  then show ?thesis by (simp add: esc_char_def Let_def printable_hex_digit) (simp add: printable_def)
qed

lemma printable_quoted: "list_all printable (quoted s)"
  by (induction s) (auto simp: quoted_def printable_esc)

lemma printable_digit: "is_digit c \<Longrightarrow> printable c"
  by (auto simp: is_digit_def digit_val_def printable_def Let_def split: if_splits)

lemma printable_int_text: "list_all printable (int_text i)"
  using nat_text_digits[of "nat i"] nat_text_digits[of "nat (- i)"]
  by (auto simp: int_text_def list_all_iff printable_digit) (simp add: printable_def)

lemma printable_join:
  "list_all printable sep \<Longrightarrow> \<forall>x \<in> set xs. list_all printable x \<Longrightarrow> list_all printable (join sep xs)"
  by (induction sep xs rule: join.induct) auto

lemma printable_dumps_with:
  assumes "list_all printable isep" "list_all printable ksep"
  shows "list_all printable (dumps_with isep ksep srt v)"
proof (induction v rule: wf_json.induct)
  case (1 vs)
  then show ?case using printable_join[OF assms(1)] by auto
next
  case (2 kvs)
  have "\<forall>x \<in> set (map (\<lambda>(k, t). quoted k @ ksep @ t)
        (let ts = map (\<lambda>(k, v). (k, dumps_with isep ksep srt v)) kvs in if srt then sort_key fst ts else ts)).
      list_all printable x"
    using 2 assms(2) by (auto simp: printable_quoted Let_def)
  from printable_join[OF assms(1) this] show ?case by (auto simp: Let_def)
qed (auto simp: printable_int_text printable_quoted, auto simp: printable_def)

lemma printable_dumps: "list_all printable (dumps v)"
  unfolding dumps_def by (rule printable_dumps_with) (simp_all add: printable_def)

lemma utf8_decode_printable: "list_all printable s \<Longrightarrow> utf8_decode (utf8 s) = Inr s"
  by (induction s) (auto simp: utf8_Cons utf8_char_def printable_def unat_small)

lemma seps_compact: "seps '','' '':''" and seps_default: "seps '', '' '': ''"
  by (simp_all add: seps_def is_ws_def)

lemma loads_dumps: "wf_json v \<Longrightarrow> loads (dumps v) = Inr (canon True v)"
  unfolding dumps_def by (rule loads_dumps_with[OF seps_compact])

lemma loads_dumps_default: "wf_json v \<Longrightarrow> loads (dumps_default v) = Inr (canon False v)"
  unfolding dumps_default_def by (rule loads_dumps_with[OF seps_default])

lemma dumps_inject:
  "wf_json v \<Longrightarrow> wf_json w \<Longrightarrow> dumps v = dumps w \<Longrightarrow> canon True v = canon True w"
  by (metis loads_dumps sum.inject(2))

text \<open>An object printed and encoded is read back from its bytes, with or without a newline after it.\<close>

lemma wide_object:
  assumes "list_all printable s" "hd s = CHR ''{''" "2 \<le> length s"
  shows "\<not> wide_encoding (utf8 s @ bs)"
proof -
  from assms(2,3) obtain c r where s: "s = CHR ''{'' # c # r"
    by (cases s; cases "tl s") auto
  have "printable c" using assms(1) s by simp
  with s show ?thesis
    using byte_eq_iff[of "of_char c" 0] by (auto simp: wide_encoding_def utf8_Cons utf8_char_def printable_def)
qed

lemma dumps_object: "hd (dumps_with i k srt (JObj kvs)) = CHR ''{''" "2 \<le> length (dumps_with i k srt (JObj kvs))"
  by (simp_all add: Let_def)

lemma loads_bytes_dumps:
  assumes "wf_json (JObj kvs)"
  shows "loads_bytes (utf8 (dumps (JObj kvs))) = Inr (canon True (JObj kvs))"
proof -
  have "\<not> wide_encoding (utf8 (dumps (JObj kvs)))"
    using wide_object[OF printable_dumps, of "JObj kvs" "[]"] dumps_object[of _ _ _ kvs] by (simp add: dumps_def)
  with assms show ?thesis
    by (simp add: loads_bytes_def utf8_decode_printable printable_dumps loads_dumps del: canon.simps)
qed

lemma printable_dumps_compact: "list_all printable (dumps_compact v)"
  unfolding dumps_compact_def by (rule printable_dumps_with) (simp_all add: printable_def)

lemma utf8_decode_line: "list_all printable s \<Longrightarrow> utf8_decode (utf8 s @ [10]) = Inr (s @ [CHR 0x0A])"
proof (induction s)
  case Nil
  have "char_of (10 :: nat) = CHR 0x0A" by code_simp
  then show ?case by simp
qed (auto simp: utf8_Cons utf8_char_def printable_def unat_small)

lemma loads_bytes_line:
  assumes "wf_json (JObj kvs)"
  shows "loads_bytes (utf8 (dumps_compact (JObj kvs)) @ [10]) = Inr (canon False (JObj kvs))"
proof -
  have "\<not> wide_encoding (utf8 (dumps_compact (JObj kvs)) @ [10])"
    using wide_object[OF printable_dumps_compact, of "JObj kvs" "[10]"] dumps_object[of _ _ _ kvs] by (simp add: dumps_compact_def)
  moreover have "loads (dumps_compact (JObj kvs) @ [CHR 0x0A]) = Inr (canon False (JObj kvs))"
    unfolding dumps_compact_def
    by (rule loads_dumps_rest[OF seps_compact assms]) (simp_all add: ok_rest_def skip_ws_def is_ws_def)
  ultimately show ?thesis by (simp add: loads_bytes_def utf8_decode_line printable_dumps_compact del: canon.simps)
qed

end
