(* ===== verification/Py_Base64.thy ===== *)
theory Py_Base64
  imports Py_Json
begin

text \<open>
  \<open>base64.urlsafe_b64encode\<close> and \<open>base64.urlsafe_b64decode\<close>. Decoding is \<open>binascii.a2b_base64\<close> in its
  non-strict mode as CPython runs it: characters outside the alphabet are skipped, a complete
  pad ends the input, and an incomplete quantum is an error. Encoded text without its pad,
  the form markers use, is \<open>b64_core\<close>.
\<close>

section \<open>Alphabet\<close>

definition b64_char :: "nat \<Rightarrow> char" where
  "b64_char v =
     (if v < 26 then char_of (65 + v)
      else if v < 52 then char_of (71 + v)
      else if v < 62 then char_of (v - 4)
      else if v = 62 then CHR ''-'' else CHR ''_'')"

text \<open>The url-safe translation maps \<open>-\<close> and \<open>_\<close>; \<open>+\<close> and \<open>/\<close> keep their standard meaning.\<close>

definition b64_val :: "char \<Rightarrow> nat option" where
  "b64_val c =
     (let n = of_char c :: nat
      in if 65 \<le> n \<and> n \<le> 90 then Some (n - 65)
         else if 97 \<le> n \<and> n \<le> 122 then Some (n - 71)
         else if 48 \<le> n \<and> n \<le> 57 then Some (n + 4)
         else if n = 45 \<or> n = 43 then Some 62
         else if n = 95 \<or> n = 47 then Some 63 else None)"

definition is_token_char :: "char \<Rightarrow> bool" where
  "is_token_char c =
     (let n = of_char c :: nat
      in 65 \<le> n \<and> n \<le> 90 \<or> 97 \<le> n \<and> n \<le> 122 \<or> 48 \<le> n \<and> n \<le> 57 \<or> n = 95 \<or> n = 45)"

section \<open>Encoding\<close>

fun b64_core :: "byte list \<Rightarrow> string" where
  "b64_core [] = []"
| "b64_core [a] = [b64_char (unat a div 4), b64_char (unat a mod 4 * 16)]"
| "b64_core [a, b] =
     [b64_char (unat a div 4), b64_char (unat a mod 4 * 16 + unat b div 16),
      b64_char (unat b mod 16 * 4)]"
| "b64_core (a # b # c # r) =
     b64_char (unat a div 4) # b64_char (unat a mod 4 * 16 + unat b div 16) #
     b64_char (unat b mod 16 * 4 + unat c div 64) # b64_char (unat c mod 64) # b64_core r"

definition b64_pad :: "nat \<Rightarrow> string" where
  "b64_pad n = replicate ((4 - n mod 4) mod 4) (CHR ''='')"

definition urlsafe_b64encode :: "byte list \<Rightarrow> string" where
  "urlsafe_b64encode bs = b64_core bs @ b64_pad (length (b64_core bs))"

definition rstrip_pad :: "string \<Rightarrow> string" where
  "rstrip_pad s = rev (dropWhile (\<lambda>c. c = CHR ''='') (rev s))"

section \<open>Decoding\<close>

fun a2b :: "nat \<Rightarrow> nat \<Rightarrow> nat \<Rightarrow> string \<Rightarrow> byte list res" where
  "a2b q left pads [] = (if q = 0 then Inr [] else Inl Base64Error)"
| "a2b q left pads (c # cs) =
     (if c = CHR ''='' then
        (if 2 \<le> q \<and> 4 \<le> q + Suc pads then Inr []
         else a2b q left (if 2 \<le> q then Suc pads else pads) cs)
      else case b64_val c of
        None \<Rightarrow> a2b q left pads cs
      | Some v \<Rightarrow>
        if q = 0 then a2b 1 v 0 cs
        else if q = 1 then map_sum id ((#) (word_of_nat (left * 4 + v div 16))) (a2b 2 (v mod 16) 0 cs)
        else if q = 2 then map_sum id ((#) (word_of_nat (left * 16 + v div 4))) (a2b 3 (v mod 4) 0 cs)
        else map_sum id ((#) (word_of_nat (left * 64 + v))) (a2b 0 0 0 cs))"

definition urlsafe_b64decode :: "string \<Rightarrow> byte list res" where
  "urlsafe_b64decode s =
     (if is_ascii s then a2b 0 0 0 s
      else Inl (ValueError ''string argument should contain only ASCII characters''))"

section \<open>Facts\<close>

lemma of_char_b64_char:
  "v < 64 \<Longrightarrow> of_char (b64_char v) =
     (if v < 26 then 65 + v else if v < 52 then 71 + v else if v < 62 then v - 4
      else if v = 62 then 45 else 95 :: nat)"
  by (simp add: b64_char_def)

lemma b64_val_char [simp]: "v < 64 \<Longrightarrow> b64_val (b64_char v) = Some v"
  by (auto simp: b64_val_def Let_def of_char_b64_char)

lemma b64_char_token [simp]: "v < 64 \<Longrightarrow> is_token_char (b64_char v)"
  by (auto simp: is_token_char_def Let_def of_char_b64_char)

lemma token_char_not_pad: "is_token_char c \<Longrightarrow> c \<noteq> CHR ''=''"
  by (auto simp: is_token_char_def)

lemma token_char_ascii: "is_token_char c \<Longrightarrow> of_char c < (128::nat)"
  by (auto simp: is_token_char_def Let_def)

lemma b64_char_not_pad [simp]: "v < 64 \<Longrightarrow> b64_char v \<noteq> CHR ''=''"
  by (rule token_char_not_pad) simp

lemma byte_parts [simp]:
  "unat (b :: byte) div 4 < 64" "unat b mod 4 * 16 < 64" "unat b mod 16 * 4 < 64"
  "unat b div 16 < 16" "unat b div 64 < 4"
  "unat (a :: byte) mod 4 * 16 + unat b div 16 < 64"
  "unat (a :: byte) mod 16 * 4 + unat b div 64 < 64"
  using unat_byte_lt[of b] by auto

lemma b64_core_tokens: "list_all is_token_char (b64_core bs)"
  by (induction bs rule: b64_core.induct) auto

lemma length_b64_core: "length (b64_core bs) = (4 * length bs + 2) div 3"
  by (induction bs rule: b64_core.induct) auto

lemma glue1: "(unat (a :: byte) div 4 * 4 + (unat a mod 4 * 16 + x) div 16) = unat a" if "x < 16" for x
proof -
  have "(unat a mod 4 * 16 + x) div 16 = unat a mod 4" using that by simp
  then show ?thesis by simp
qed

lemma glue2: "(unat (a :: byte) mod 4 * 16 + unat (b :: byte) div 16) mod 16 * 16 +
    (unat b mod 16 * 4 + x) div 4 = unat b" if "x < 4" for x
proof -
  have "(unat b mod 16 * 4 + x) div 4 = unat b mod 16" using that by simp
  moreover have "(unat a mod 4 * 16 + unat b div 16) mod 16 = unat b div 16"
    by (simp add: mod_mult_self3)
  ultimately show ?thesis by simp
qed

lemma glue3: "(unat (b :: byte) mod 16 * 4 + unat (c :: byte) div 64) mod 4 * 64 + unat c mod 64 = unat c"
proof -
  have "(unat b mod 16 * 4 + unat c div 64) mod 4 = unat c div 64" by (simp add: mod_mult_self3)
  then show ?thesis by simp
qed

lemma a2b_core: "a2b 0 0 0 (b64_core bs @ b64_pad (length (b64_core bs))) = Inr bs"
proof (induction bs rule: b64_core.induct)
  case (2 a)
  have "unat a div 4 * 4 + unat a mod 4 * 16 div 16 = unat a" using glue1[of 0 a] by simp
  then show ?case by (simp add: b64_pad_def numeral_2_eq_2)
next
  case (3 a b)
  have "(unat a mod 4 * 16 + unat b div 16) mod 16 * 16 + unat b mod 16 * 4 div 4 = unat b"
    using glue2[of 0 a b] by simp
  moreover have "unat a div 4 * 4 + (unat a mod 4 * 16 + unat b div 16) div 16 = unat a"
    by (rule glue1) simp
  ultimately show ?case by (simp add: b64_pad_def)
next
  case (4 a b c r)
  have "unat a div 4 * 4 + (unat a mod 4 * 16 + unat b div 16) div 16 = unat a"
    by (rule glue1) simp
  moreover have "(unat a mod 4 * 16 + unat b div 16) mod 16 * 16 +
      (unat b mod 16 * 4 + unat c div 64) div 4 = unat b"
    by (rule glue2) simp
  moreover note glue3[of b c]
  moreover have "b64_pad (Suc (Suc (Suc (Suc n)))) = b64_pad n" for n
    by (simp add: b64_pad_def)
  ultimately show ?case using 4 by simp
qed (simp add: b64_pad_def)

lemma is_ascii_tokens: "list_all is_token_char s \<Longrightarrow> is_ascii s"
  by (auto simp: is_ascii_def list_all_iff token_char_ascii)

lemma is_ascii_append: "is_ascii (s @ t) \<longleftrightarrow> is_ascii s \<and> is_ascii t"
  by (simp add: is_ascii_def)

lemma is_ascii_pad: "is_ascii (b64_pad n)"
  by (simp add: is_ascii_def b64_pad_def list_all_iff)

text \<open>Decoding inverts encoding, with the pad dropped and put back.\<close>

lemma urlsafe_b64decode_core:
  "urlsafe_b64decode (b64_core bs @ b64_pad (length (b64_core bs))) = Inr bs"
  by (simp add: urlsafe_b64decode_def is_ascii_append is_ascii_pad a2b_core
      is_ascii_tokens[OF b64_core_tokens])

lemma rstrip_encode [simp]: "rstrip_pad (urlsafe_b64encode bs) = b64_core bs"
proof -
  have "dropWhile (\<lambda>c. c = CHR ''='') (rev (b64_core bs)) = rev (b64_core bs)"
    using b64_core_tokens[of bs]
    by (cases "rev (b64_core bs)") (auto simp: list_all_iff dest: token_char_not_pad
        intro!: dropWhile_eq_self_iff[THEN iffD2])
  moreover have "dropWhile (\<lambda>c. c = CHR ''='') (replicate n (CHR ''='') @ xs) =
      dropWhile (\<lambda>c. c = CHR ''='') xs" for n xs
    by (induction n) auto
  ultimately show ?thesis
    by (simp add: rstrip_pad_def urlsafe_b64encode_def b64_pad_def)
qed

end
