(* ===== verification/Core_Types.thy ===== *)
theory Core_Types
  imports Py_Base64
begin

text \<open>
  The canonical types of \<open>core/yatagarasu_core/types.py\<close>. A \<open>StrEnum\<close> is a datatype with the source's
  members; a column that stores \<open>member.value\<close> holds the member. A frozen dataclass is a record
  whose fields carry a prefix per class, since record selectors share one name space. Fields
  have the annotated types, so the \<open>isinstance\<close> guards of the core hold by construction.
\<close>

datatype DeliveryMode = SESSION_BOUND | CHANNEL_NATIVE

datatype DeliveryState = QUEUED | DISPATCHING | TRANSPORT_SUBMITTED | IN_SESSION | PROCESSED

datatype Disposition = COMPLETED | ANSWERED | ACKNOWLEDGED | HELD | DECLINED

datatype EvidenceClass =
    TRANSPORT_SUBMIT_ACK
  | HARNESS_PROMPT_ACCEPTED
  | HARNESS_TURN_STARTED
  | HARNESS_TURN_COMPLETED
  | SESSION_REPLY_AUTHORED
  | SESSION_REACTION_AUTHORED
  | SESSION_DISPOSITION_AUTHORED
  | PARTICIPANT_REPLY_AUTHORED
  | PARTICIPANT_REACTION_AUTHORED

datatype ProviderKind = SESSION_TRANSPORT | COMMS_VIEW

datatype SourceKind = DIRECT_HOOK | EVENT_BUS

datatype CorrelationRule = CMUX_HARNESS_CHAIN

datatype BindingState = ACTIVE | REVOKED | SUPERSEDED

fun evidence_value :: "EvidenceClass \<Rightarrow> string" where
  "evidence_value TRANSPORT_SUBMIT_ACK = ''transport.submit_ack''"
| "evidence_value HARNESS_PROMPT_ACCEPTED = ''harness.prompt_accepted''"
| "evidence_value HARNESS_TURN_STARTED = ''harness.turn_started''"
| "evidence_value HARNESS_TURN_COMPLETED = ''harness.turn_completed''"
| "evidence_value SESSION_REPLY_AUTHORED = ''session.reply_authored''"
| "evidence_value SESSION_REACTION_AUTHORED = ''session.reaction_authored''"
| "evidence_value SESSION_DISPOSITION_AUTHORED = ''session.disposition_authored''"
| "evidence_value PARTICIPANT_REPLY_AUTHORED = ''participant.reply_authored''"
| "evidence_value PARTICIPANT_REACTION_AUTHORED = ''participant.reaction_authored''"

definition all_evidence :: "EvidenceClass list" where
  "all_evidence =
     [TRANSPORT_SUBMIT_ACK, HARNESS_PROMPT_ACCEPTED, HARNESS_TURN_STARTED, HARNESS_TURN_COMPLETED,
      SESSION_REPLY_AUTHORED, SESSION_REACTION_AUTHORED, SESSION_DISPOSITION_AUTHORED,
      PARTICIPANT_REPLY_AUTHORED, PARTICIPANT_REACTION_AUTHORED]"

text \<open>\<open>EvidenceClass(value)\<close>.\<close>

definition evidence_of_value :: "string \<Rightarrow> EvidenceClass res" where
  "evidence_of_value v =
     (case find (\<lambda>e. evidence_value e = v) all_evidence of
        None \<Rightarrow> Inl (ValueError ''not a valid EvidenceClass'')
      | Some e \<Rightarrow> Inr e)"

fun state_value :: "DeliveryState \<Rightarrow> string" where
  "state_value QUEUED = ''queued''"
| "state_value DISPATCHING = ''dispatching''"
| "state_value TRANSPORT_SUBMITTED = ''transport-submitted''"
| "state_value IN_SESSION = ''in-session''"
| "state_value PROCESSED = ''processed''"

record ProofMethodRegistration =
  pm_proof_method :: string
  pm_source_kind :: SourceKind
  pm_source_instance_id :: string
  pm_correlation_rule :: CorrelationRule
  pm_evidence_classes :: "EvidenceClass set"

record SessionBinding =
  sb_binding_id :: string
  sb_recipient_id :: string
  sb_provider_id :: string
  sb_adapter_instance_id :: string
  sb_harness :: string
  sb_session_id :: string
  sb_established_at :: string
  sb_expires_at :: string
  sb_proof_methods :: "ProofMethodRegistration list"
  sb_state :: BindingState

record DeliveryMarker =
  mk_schema_version :: int
  mk_event_id :: string
  mk_delivery_id :: string
  mk_attempt_id :: string
  mk_binding_id :: string
  mk_authority_scope :: string
  mk_issued_at :: string
  mk_expires_at :: string
  mk_signature :: string

record SourceEventRef =
  se_source_instance_id :: string
  se_boot_id :: string
  se_seq :: int
  se_source_event_id :: string
  se_event_name :: string
  se_session_id :: "string option"
  se_binding_id :: "string option"
  se_marker_signature :: "string option"

record SessionProof =
  pf_session_id :: string
  pf_marker :: DeliveryMarker
  pf_source_events :: "SourceEventRef list"
  pf_turn_id :: "string option"

record Delivery =
  dl_event_id :: string
  dl_delivery_id :: string
  dl_attempt_id :: string
  dl_binding_id :: "string option"
  dl_recipient_id :: string
  dl_delivery_mode :: DeliveryMode
  dl_state :: DeliveryState
  dl_disposition :: "Disposition option"

record Receipt =
  rc_receipt_id :: string
  rc_event_id :: string
  rc_delivery_id :: string
  rc_attempt_id :: string
  rc_binding_id :: string
  rc_evidence_provider_id :: string
  rc_evidence_class :: EvidenceClass
  rc_proof_method :: string
  rc_observed_at :: string
  rc_source_event_id :: "string option"
  rc_platform_principal_id :: "string option"
  rc_platform_message_id :: "string option"
  rc_disposition :: "Disposition option"
  rc_authored_by_provider :: bool
  rc_infrastructure_event :: bool
  rc_proof :: "SessionProof option"

record ReceiptResult =
  rs_status :: string
  rs_reason :: "string option"
  rs_state :: "DeliveryState option"
  rs_disposition :: "Disposition option"

record BroadcastOutcome =
  bo_recipient_id :: string
  bo_delivery_id :: string
  bo_binding_id :: "string option"
  bo_state :: DeliveryState
  bo_disposition :: "Disposition option"
  bo_unavailable_reason :: "string option"

record BroadcastResult =
  br_broadcast_id :: string
  br_event_id :: string
  br_room_id :: string
  br_roster_snapshot_size :: nat
  br_outcomes :: "BroadcastOutcome list"
  br_all_delivered :: bool

section \<open>Facts\<close>

lemma all_evidence_complete: "e \<in> set all_evidence"
  by (cases e) (simp_all add: all_evidence_def)

lemma evidence_of_value_value [simp]: "evidence_of_value (evidence_value e) = Inr e"
  by (cases e) (simp_all add: evidence_of_value_def all_evidence_def)

lemma inj_evidence_value: "inj evidence_value"
  by (rule injI) (metis evidence_of_value_value sum.inject(2))

lemma evidence_value_no_comma: "CHR '','' \<notin> set (evidence_value e)"
  by (cases e) simp_all

text \<open>How far a delivery has come; \<open>rank\<close> orders the chain of states.\<close>

instantiation DeliveryState :: linorder
begin

fun rank_state :: "DeliveryState \<Rightarrow> nat" where
  "rank_state QUEUED = 0"
| "rank_state DISPATCHING = 1"
| "rank_state TRANSPORT_SUBMITTED = 2"
| "rank_state IN_SESSION = 3"
| "rank_state PROCESSED = 4"

definition less_eq_DeliveryState :: "DeliveryState \<Rightarrow> DeliveryState \<Rightarrow> bool" where
  "less_eq_DeliveryState a b = (rank_state a \<le> rank_state b)"

definition less_DeliveryState :: "DeliveryState \<Rightarrow> DeliveryState \<Rightarrow> bool" where
  "less_DeliveryState a b = (rank_state a < rank_state b)"

instance
proof
  fix a b c :: DeliveryState
  show "a < b \<longleftrightarrow> a \<le> b \<and> \<not> b \<le> a" by (auto simp: less_eq_DeliveryState_def less_DeliveryState_def)
  show "a \<le> a" by (simp add: less_eq_DeliveryState_def)
  show "a \<le> b \<Longrightarrow> b \<le> c \<Longrightarrow> a \<le> c" by (simp add: less_eq_DeliveryState_def)
  show "a \<le> b \<Longrightarrow> b \<le> a \<Longrightarrow> a = b"
    by (cases a; cases b) (simp_all add: less_eq_DeliveryState_def)
  show "a \<le> b \<or> b \<le> a" by (auto simp: less_eq_DeliveryState_def)
qed

end

lemmas state_order = less_eq_DeliveryState_def less_DeliveryState_def

end
