(* ===== verification/Core_Proofs.thy ===== *)
theory Core_Proofs
  imports Core_Types
begin

text \<open>
  \<open>core/yatagarasu_core/proofs.py\<close>: the marker authority (mint, validate, encode, decode, sign) and
  the correlation of a session proof with a delivery. A validator returns \<open>Inr None\<close> for
  acceptance, \<open>Inr (Some reason)\<close> for a rejection and \<open>Inl e\<close> where the source raises.
\<close>

section \<open>Markers\<close>

definition AUTHORITY_SCOPE :: string where
  "AUTHORITY_SCOPE = ''conversation''"

definition MARKER_SCHEMA_VERSION :: int where
  "MARKER_SCHEMA_VERSION = 1"

definition PROMPT_CHAIN :: "string list" where
  "PROMPT_CHAIN =
     [''surface.input_sent'', ''workspace.prompt.submitted'', ''agent.hook.UserPromptSubmit'']"

definition COMPLETED_CHAIN :: "string list" where
  "COMPLETED_CHAIN = PROMPT_CHAIN @ [''agent.hook.Stop'']"

record MarkerAuthority =
  ma_signing_key :: "byte list"
  ma_max_lifetime :: int

text \<open>\<open>MarkerAuthority.__init__\<close>; the lifetime is kept in microseconds.\<close>

definition marker_authority :: "byte list \<Rightarrow> int \<Rightarrow> MarkerAuthority res" where
  "marker_authority signing_key max_lifetime_seconds =
     (if signing_key = [] then Inl (ValueError ''marker signing key must not be empty'')
      else if max_lifetime_seconds \<le> 0 then Inl (ValueError ''marker lifetime must be positive'')
      else Inr \<lparr>ma_signing_key = signing_key, ma_max_lifetime = max_lifetime_seconds * 1000000\<rparr>)"

definition sign_payload :: "DeliveryMarker \<Rightarrow> json" where
  "sign_payload m = JObj
     [(''attempt_id'', JStr (mk_attempt_id m)),
      (''authority_scope'', JStr (mk_authority_scope m)),
      (''binding_id'', JStr (mk_binding_id m)),
      (''delivery_id'', JStr (mk_delivery_id m)),
      (''event_id'', JStr (mk_event_id m)),
      (''expires_at'', JStr (mk_expires_at m)),
      (''issued_at'', JStr (mk_issued_at m)),
      (''schema_version'', JInt (mk_schema_version m))]"

definition sign :: "MarkerAuthority \<Rightarrow> DeliveryMarker \<Rightarrow> string" where
  "sign auth m = hex (hmac_sha256 (ma_signing_key auth) (utf8 (dumps (sign_payload m))))"

definition mint :: "MarkerAuthority \<Rightarrow> Delivery \<Rightarrow> string \<Rightarrow> string \<Rightarrow> DeliveryMarker res" where
  "mint auth d issued_at expires_at =
     (case dl_binding_id d of
        None \<Rightarrow> Inl (ValueError ''cannot mint a marker without an authoritative binding'')
      | Some b \<Rightarrow>
        (case parse_timestamp expires_at of Inl e \<Rightarrow> Inl e | Inr ex \<Rightarrow>
         case parse_timestamp issued_at of Inl e \<Rightarrow> Inl e | Inr iss \<Rightarrow>
           let lifetime = ex - iss
           in if lifetime \<le> 0 then Inl (ValueError ''marker expiry must follow issue time'')
              else if lifetime > ma_max_lifetime auth
                then Inl (ValueError ''marker lifetime exceeds configured maximum'')
              else let unsigned =
                     \<lparr>mk_schema_version = MARKER_SCHEMA_VERSION,
                      mk_event_id = dl_event_id d,
                      mk_delivery_id = dl_delivery_id d,
                      mk_attempt_id = dl_attempt_id d,
                      mk_binding_id = b,
                      mk_authority_scope = AUTHORITY_SCOPE,
                      mk_issued_at = issued_at,
                      mk_expires_at = expires_at,
                      mk_signature = []\<rparr>
                in Inr (unsigned\<lparr>mk_signature := sign auth unsigned\<rparr>)))"

definition marker_fields_match :: "DeliveryMarker \<Rightarrow> Delivery \<Rightarrow> bool" where
  "marker_fields_match m d =
     (mk_schema_version m = MARKER_SCHEMA_VERSION
      \<and> mk_event_id m = dl_event_id d
      \<and> mk_delivery_id m = dl_delivery_id d
      \<and> mk_attempt_id m = dl_attempt_id d
      \<and> Some (mk_binding_id m) = dl_binding_id d
      \<and> mk_authority_scope m = AUTHORITY_SCOPE)"

definition validate ::
  "MarkerAuthority \<Rightarrow> DeliveryMarker \<Rightarrow> Delivery \<Rightarrow> string \<Rightarrow> string option res" where
  "validate auth m d observed_at =
     (if \<not> marker_fields_match m d then Inr (Some ''marker_fields_mismatch'')
      else case compare_digest (mk_signature m) (sign auth m) of
        Inl e \<Rightarrow> Inl e
      | Inr False \<Rightarrow> Inr (Some ''marker_signature_invalid'')
      | Inr True \<Rightarrow>
        (case (parse_timestamp (mk_issued_at m), parse_timestamp (mk_expires_at m),
               parse_timestamp observed_at) of
           (Inr iss, Inr ex, Inr ob) \<Rightarrow>
             if ex - iss > ma_max_lifetime auth then Inr (Some ''marker_lifetime_exceeds_limit'')
             else if ex \<le> iss \<or> ob < iss \<or> ob \<ge> ex
               then Inr (Some ''marker_expired_or_not_yet_valid'')
             else Inr None
         | _ \<Rightarrow> Inr (Some ''marker_timestamp_invalid'')))"

section \<open>Tokens\<close>

definition marker_payload :: "DeliveryMarker \<Rightarrow> json" where
  "marker_payload m = JObj
     [(''attempt_id'', JStr (mk_attempt_id m)),
      (''authority_scope'', JStr (mk_authority_scope m)),
      (''binding_id'', JStr (mk_binding_id m)),
      (''delivery_id'', JStr (mk_delivery_id m)),
      (''event_id'', JStr (mk_event_id m)),
      (''expires_at'', JStr (mk_expires_at m)),
      (''issued_at'', JStr (mk_issued_at m)),
      (''schema_version'', JInt (mk_schema_version m)),
      (''signature'', JStr (mk_signature m))]"

definition encode :: "DeliveryMarker \<Rightarrow> string" where
  "encode m = ''ygr1.'' @ rstrip_pad (urlsafe_b64encode (utf8 (dumps (marker_payload m))))"

definition marker_keys :: "string list" where
  "marker_keys =
     [''attempt_id'', ''authority_scope'', ''binding_id'', ''delivery_id'', ''event_id'',
      ''expires_at'', ''issued_at'', ''schema_version'', ''signature'']"

text \<open>\<open>DeliveryMarker(**payload)\<close> after the field checks. A \<open>bool\<close> is an \<open>int\<close> to \<open>isinstance\<close>; a
  marker whose version is one has no counterpart in the record and is \<open>Unmodelled\<close>.\<close>

definition marker_of_dict :: "(string \<times> json) list \<Rightarrow> DeliveryMarker res" where
  "marker_of_dict p =
     (if set (map fst p) \<noteq> set marker_keys then Inl (MarkerError ''marker fields invalid'')
      else case (dict_get p ''schema_version'',
                 dict_get p ''attempt_id'', dict_get p ''authority_scope'',
                 dict_get p ''binding_id'', dict_get p ''delivery_id'', dict_get p ''event_id'',
                 dict_get p ''expires_at'', dict_get p ''issued_at'', dict_get p ''signature'') of
        (v, JStr a, JStr s, JStr b, JStr d, JStr e, JStr x, JStr i, JStr g) \<Rightarrow>
          (case v of
             JInt n \<Rightarrow> Inr
               \<lparr>mk_schema_version = n, mk_event_id = e, mk_delivery_id = d, mk_attempt_id = a,
                mk_binding_id = b, mk_authority_scope = s, mk_issued_at = i, mk_expires_at = x,
                mk_signature = g\<rparr>
           | JBool _ \<Rightarrow> Inl Unmodelled
           | _ \<Rightarrow> Inl (MarkerError ''marker field types invalid''))
      | _ \<Rightarrow> Inl (MarkerError ''marker field types invalid''))"

definition decode :: "string \<Rightarrow> DeliveryMarker res" where
  "decode token =
     (if take 5 token \<noteq> ''ygr1.'' then Inl (MarkerError ''marker prefix invalid'')
      else let encoded = drop 5 token
      in if encoded = [] \<or> length encoded > 4096 then Inl (MarkerError ''marker size invalid'')
         else case (case urlsafe_b64decode (encoded @ b64_pad (length encoded)) of
                      Inl e \<Rightarrow> Inl e | Inr bs \<Rightarrow> loads_bytes bs) of
           Inl e \<Rightarrow> Inl (if is_ValueError e then MarkerError ''marker encoding invalid'' else e)
         | Inr (JObj p) \<Rightarrow> marker_of_dict p
         | Inr _ \<Rightarrow> Inl (MarkerError ''marker fields invalid''))"

section \<open>Session proofs\<close>

definition opt_json :: "string option \<Rightarrow> json" where
  "opt_json v = (case v of None \<Rightarrow> JNull | Some s \<Rightarrow> JStr s)"

definition source_event_json :: "SourceEventRef \<Rightarrow> json" where
  "source_event_json e = JObj
     [(''binding_id'', opt_json (se_binding_id e)),
      (''boot_id'', JStr (se_boot_id e)),
      (''event_name'', JStr (se_event_name e)),
      (''marker_signature'', opt_json (se_marker_signature e)),
      (''seq'', JInt (se_seq e)),
      (''session_id'', opt_json (se_session_id e)),
      (''source_event_id'', JStr (se_source_event_id e)),
      (''source_instance_id'', JStr (se_source_instance_id e))]"

definition source_chain_json :: "SourceEventRef list \<Rightarrow> string" where
  "source_chain_json events = dumps (JArr (map source_event_json events))"

definition proof_storage_fields ::
  "SessionProof option \<Rightarrow> string option \<times> string option \<times> string \<times> string option" where
  "proof_storage_fields p =
     (case p of
        None \<Rightarrow> (None, None, ''[]'', None)
      | Some q \<Rightarrow> (Some (pf_session_id q), Some (mk_signature (pf_marker q)),
                   source_chain_json (pf_source_events q), pf_turn_id q))"

text \<open>\<open>any(left.seq >= right.seq for left, right in pairwise(events))\<close>, negated.\<close>

fun in_order :: "SourceEventRef list \<Rightarrow> bool" where
  "in_order (a # b # r) = (se_seq a < se_seq b \<and> in_order (b # r))"
| "in_order r = True"

definition expected_names :: "EvidenceClass \<Rightarrow> string list option" where
  "expected_names c =
     (if c = HARNESS_PROMPT_ACCEPTED \<or> c = HARNESS_TURN_STARTED then Some PROMPT_CHAIN
      else if c = HARNESS_TURN_COMPLETED then Some COMPLETED_CHAIN
      else None)"

text \<open>The checks on the event chain, in the source's order, once its shape is known.\<close>

definition validate_chain ::
  "SessionProof \<Rightarrow> Delivery \<Rightarrow> ProofMethodRegistration \<Rightarrow> string list \<Rightarrow> string option" where
  "validate_chain p d reg names =
     (let events = pf_source_events p
      in if map se_event_name events \<noteq> names then Some ''source_event_chain_wrong_shape''
         else if list_ex (\<lambda>e. se_source_instance_id e \<noteq> pm_source_instance_id reg) events
           then Some ''source_instance_mismatch''
         else if list_ex (\<lambda>e. se_boot_id e = [] \<or> se_source_event_id e = [] \<or> se_seq e < 0) events
           then Some ''source_event_identity_invalid''
         else if card (set (map se_boot_id events)) \<noteq> 1
           then Some ''source_boot_changed_within_chain''
         else if card (set (map se_source_event_id events)) \<noteq> length events
           then Some ''source_event_repeated_within_chain''
         else if \<not> in_order events then Some ''source_event_chain_out_of_order''
         else if se_binding_id (events ! 1) \<noteq> dl_binding_id d
              \<or> se_marker_signature (events ! 1) \<noteq> Some (mk_signature (pf_marker p))
           then Some ''prompt_marker_binding_mismatch''
         else if list_ex (\<lambda>e. se_session_id e \<noteq> Some (pf_session_id p)) (drop 2 events)
           then Some ''hook_session_mismatch''
         else None)"

definition validate_session_proof ::
  "SessionProof \<Rightarrow> Delivery \<Rightarrow> EvidenceClass \<Rightarrow> ProofMethodRegistration \<Rightarrow> MarkerAuthority
    \<Rightarrow> string \<Rightarrow> string option res" where
  "validate_session_proof p d cls reg auth observed_at =
     (if cls \<notin> pm_evidence_classes reg
        then Inr (Some ''evidence_class_not_declared_for_proof_method'')
      else if pm_correlation_rule reg \<noteq> CMUX_HARNESS_CHAIN
        then Inr (Some ''proof_correlation_rule_unsupported'')
      else if pm_source_kind reg \<noteq> EVENT_BUS then Inr (Some ''proof_source_kind_mismatch'')
      else case validate auth (pf_marker p) d observed_at of
        Inl e \<Rightarrow> Inl e
      | Inr (Some reason) \<Rightarrow> Inr (Some reason)
      | Inr None \<Rightarrow>
        (case expected_names cls of
           None \<Rightarrow> Inr (Some ''evidence_class_not_session_proof'')
         | Some names \<Rightarrow> Inr (validate_chain p d reg names)))"

section \<open>Facts: canonical texts are injective\<close>

lemma canon_sorted:
  assumes "sorted (map fst kvs)"
  shows "canon True (JObj kvs) = JObj (map (\<lambda>(k, v). (k, canon True v)) kvs)"
proof -
  let ?c = "map (\<lambda>(k, v). (k, canon True v)) kvs"
  have "map fst ?c = map fst kvs" by (induction kvs) auto
  with assms have "sorted (map fst ?c)" by (simp only:)
  then show ?thesis by (simp add: sort_key_id_if_sorted)
qed

lemma marker_keys_sorted: "sorted marker_keys"
  by code_simp

lemma sign_keys_sorted: "sorted (take 8 marker_keys)"
  by code_simp

lemma source_event_keys_sorted:
  "sorted [''binding_id'', ''boot_id'', ''event_name'', ''marker_signature'', ''seq'', ''session_id'',
     ''source_event_id'', ''source_instance_id'']"
  by code_simp

lemma wf_opt_json [simp]: "wf_json (opt_json v)" "canon b (opt_json v) = opt_json v"
  by (auto simp: opt_json_def split: option.splits)

lemma opt_json_inject [simp]: "opt_json v = opt_json w \<longleftrightarrow> v = w"
  by (auto simp: opt_json_def split: option.splits)

lemma wf_marker_payloads [simp]: "wf_json (sign_payload m)" "wf_json (marker_payload m)"
  by (simp_all add: sign_payload_def marker_payload_def)

lemma canon_payloads [simp]:
  "canon True (sign_payload m) = sign_payload m"
  "canon True (marker_payload m) = marker_payload m"
  unfolding sign_payload_def marker_payload_def
  using sign_keys_sorted marker_keys_sorted
  by (simp_all add: canon_sorted marker_keys_def del: sorted_simps canon.simps(2))

lemma wf_source_event [simp]:
  "wf_json (source_event_json e)" "canon True (source_event_json e) = source_event_json e"
  using source_event_keys_sorted
  by (simp_all add: source_event_json_def canon_sorted del: sorted_simps canon.simps(2))

lemma source_event_json_inject [simp]: "source_event_json e = source_event_json f \<longleftrightarrow> e = f"
  by (cases e; cases f) (auto simp: source_event_json_def)

text \<open>Two signing inputs are equal only if every signed field is.\<close>

lemma sign_input_inject:
  assumes "utf8 (dumps (sign_payload m)) = utf8 (dumps (sign_payload n))"
  shows "m\<lparr>mk_signature := s\<rparr> = n\<lparr>mk_signature := s\<rparr>"
proof -
  have "sign_payload m = sign_payload n"
    using assms dumps_inject[of "sign_payload m" "sign_payload n"] by simp
  then show ?thesis by (cases m; cases n) (auto simp: sign_payload_def)
qed

lemma source_chain_json_inject [simp]: "source_chain_json a = source_chain_json b \<longleftrightarrow> a = b"
proof
  assume "source_chain_json a = source_chain_json b"
  then have "map source_event_json a = map source_event_json b"
    using dumps_inject[of "JArr (map source_event_json a)" "JArr (map source_event_json b)"]
    by (simp add: source_chain_json_def list_all_iff o_def)
  moreover have "inj source_event_json" by (rule injI) simp
  ultimately show "a = b" by (simp add: inj_map_eq_map)
qed simp

lemma source_chain_json_Nil: "source_chain_json [] = ''[]''"
  by (simp add: source_chain_json_def dumps_def)

section \<open>Facts: the marker authority\<close>

lemma is_ascii_sign [simp]: "is_ascii (sign auth m)"
  by (simp add: sign_def)

lemma length_sign: "length (sign auth m) = 64"
  by (simp add: sign_def)

lemma sign_signature [simp]: "sign auth (m\<lparr>mk_signature := s\<rparr>) = sign auth m"
  by (simp add: sign_def sign_payload_def)

text \<open>What \<open>validate\<close> accepts, as one condition.\<close>

definition valid_marker :: "MarkerAuthority \<Rightarrow> DeliveryMarker \<Rightarrow> Delivery \<Rightarrow> string \<Rightarrow> bool" where
  "valid_marker auth m d observed_at \<longleftrightarrow>
     marker_fields_match m d \<and> mk_signature m = sign auth m \<and>
     (\<exists>iss ex ob. parse_timestamp (mk_issued_at m) = Inr iss \<and>
        parse_timestamp (mk_expires_at m) = Inr ex \<and> parse_timestamp observed_at = Inr ob \<and>
        iss \<le> ob \<and> ob < ex \<and> ex - iss \<le> ma_max_lifetime auth)"

lemma validate_None_iff: "validate auth m d t = Inr None \<longleftrightarrow> valid_marker auth m d t"
proof -
  have digest: "compare_digest (mk_signature m) (sign auth m) = Inr True \<longleftrightarrow> mk_signature m = sign auth m"
    by (auto simp: compare_digest_Inr)
  show ?thesis
  proof (cases "marker_fields_match m d \<and> mk_signature m = sign auth m")
    case True
    then show ?thesis
      using digest by (auto simp: validate_def valid_marker_def split: sum.splits)
  next
    case False
    then show ?thesis
      using digest by (auto simp: validate_def valid_marker_def split: sum.splits bool.splits)
  qed
qed

lemma validate_raises_iff:
  "(\<exists>e. validate auth m d t = Inl e) \<longleftrightarrow> marker_fields_match m d \<and> \<not> is_ascii (mk_signature m)"
  by (auto simp: validate_def compare_digest_def split: sum.splits bool.splits)

lemma mint_Inr:
  assumes "mint auth d i x = Inr m"
  obtains b iss ex where "dl_binding_id d = Some b"
    "parse_timestamp i = Inr iss" "parse_timestamp x = Inr ex"
    "iss < ex" "ex - iss \<le> ma_max_lifetime auth"
    "m = \<lparr>mk_schema_version = MARKER_SCHEMA_VERSION, mk_event_id = dl_event_id d,
          mk_delivery_id = dl_delivery_id d, mk_attempt_id = dl_attempt_id d, mk_binding_id = b,
          mk_authority_scope = AUTHORITY_SCOPE, mk_issued_at = i, mk_expires_at = x,
          mk_signature = mk_signature m\<rparr>"
    "mk_signature m = sign auth m"
proof -
  from assms obtain b iss ex where 1: "dl_binding_id d = Some b"
      "parse_timestamp i = Inr iss" "parse_timestamp x = Inr ex"
      "iss < ex" "ex - iss \<le> ma_max_lifetime auth"
    by (auto simp: mint_def Let_def split: option.splits sum.splits if_splits)
  define u where "u = \<lparr>mk_schema_version = MARKER_SCHEMA_VERSION, mk_event_id = dl_event_id d,
      mk_delivery_id = dl_delivery_id d, mk_attempt_id = dl_attempt_id d, mk_binding_id = b,
      mk_authority_scope = AUTHORITY_SCOPE, mk_issued_at = i, mk_expires_at = x, mk_signature = []\<rparr>"
  from assms 1 have m: "m = u\<lparr>mk_signature := sign auth u\<rparr>"
    by (simp add: mint_def Let_def u_def)
  then have "mk_signature m = sign auth m" by simp
  with 1 m show ?thesis by (intro that) (auto simp: u_def)
qed

lemma mint_valid_marker:
  assumes "mint auth d i x = Inr m" "parse_timestamp t = Inr ob"
    and "parse_timestamp i = Inr iss" "parse_timestamp x = Inr ex" "iss \<le> ob" "ob < ex"
  shows "valid_marker auth m d t"
proof -
  from assms(1) show ?thesis
  proof (rule mint_Inr)
    fix b iss' ex'
    assume m: "dl_binding_id d = Some b" "parse_timestamp i = Inr iss'" "parse_timestamp x = Inr ex'"
      "iss' < ex'" "ex' - iss' \<le> ma_max_lifetime auth"
      "m = \<lparr>mk_schema_version = MARKER_SCHEMA_VERSION, mk_event_id = dl_event_id d,
            mk_delivery_id = dl_delivery_id d, mk_attempt_id = dl_attempt_id d, mk_binding_id = b,
            mk_authority_scope = AUTHORITY_SCOPE, mk_issued_at = i, mk_expires_at = x,
            mk_signature = mk_signature m\<rparr>"
      "mk_signature m = sign auth m"
    have fields: "marker_fields_match m d" "mk_issued_at m = i" "mk_expires_at m = x"
      by (subst m(6); simp add: marker_fields_match_def m(1))+
    with m assms show ?thesis by (simp add: valid_marker_def)
  qed
qed

lemma marker_of_dict_payload:
  assumes "marker_payload m = JObj p"
  shows "marker_of_dict p = Inr m"
proof -
  have "p = (case marker_payload m of JObj p \<Rightarrow> p)" using assms by simp
  then show ?thesis
    by (simp add: marker_payload_def marker_of_dict_def marker_keys_def dict_get_def insert_commute)
qed

text \<open>A marker survives the trip through its token: decoding the encoded marker gives it back,
  for every token within the decoder's size limit.\<close>

theorem decode_encode:
  assumes "length (encode m) \<le> 4101"
  shows "decode (encode m) = Inr m"
proof -
  let ?t = "utf8 (dumps (marker_payload m))"
  obtain p where p: "marker_payload m = JObj p" by (simp add: marker_payload_def)
  have bytes: "loads_bytes ?t = Inr (JObj p)"
    using loads_bytes_dumps[of p] wf_marker_payloads(2)[of m] canon_payloads(2)[of m] unfolding p by simp
  have "?t \<noteq> []" using bytes by (auto simp: loads_bytes_def loads_def wide_encoding_def skip_ws_def)
  then have "b64_core ?t \<noteq> []" by (cases ?t rule: b64_core.cases) auto
  then show ?thesis
    using assms bytes marker_of_dict_payload[OF p]
    by (simp add: decode_def encode_def urlsafe_b64decode_core)
qed

definition sample_marker :: DeliveryMarker where
  "sample_marker =
     \<lparr>mk_schema_version = 1, mk_event_id = ''e1'', mk_delivery_id = ''d1'', mk_attempt_id = ''a1'',
      mk_binding_id = ''b1'', mk_authority_scope = ''conversation'',
      mk_issued_at = ''2026-07-01T00:00:00Z'', mk_expires_at = ''2026-07-01T00:01:00Z'',
      mk_signature = ''00ff''\<rparr>"

text \<open>An instance.\<close>

theorem decode_encode_witness: "decode (encode sample_marker) = Inr sample_marker"
proof -
  have "length (utf8 (dumps (marker_payload sample_marker))) \<le> 300" by code_simp
  then have "length (encode sample_marker) \<le> 4101"
    by (simp add: encode_def length_b64_core)
  then show ?thesis by (rule decode_encode)
qed

text \<open>C20: A minted marker is valid for its delivery at every moment of its lifetime, and at no
  moment outside it.\<close>

theorem minted_marker_validates:
  assumes "mint auth d i x = Inr m" "parse_timestamp t = Inr ob"
    and "parse_timestamp i = Inr iss" "parse_timestamp x = Inr ex"
  shows "validate auth m d t = Inr None \<longleftrightarrow> iss \<le> ob \<and> ob < ex"
proof
  assume "iss \<le> ob \<and> ob < ex"
  with assms show "validate auth m d t = Inr None" by (simp add: validate_None_iff mint_valid_marker)
next
  assume "validate auth m d t = Inr None"
  moreover have "mk_issued_at m = i \<and> mk_expires_at m = x"
    using assms(1) by (rule mint_Inr) (metis DeliveryMarker.select_convs(7,8))
  ultimately show "iss \<le> ob \<and> ob < ex"
    using assms(2-4) by (auto simp: validate_None_iff valid_marker_def)
qed

definition sample_delivery :: Delivery where
  "sample_delivery =
     \<lparr>dl_event_id = ''e1'', dl_delivery_id = ''d1'', dl_attempt_id = ''a1'', dl_binding_id = Some ''b1'',
      dl_recipient_id = ''ana'', dl_delivery_mode = SESSION_BOUND, dl_state = QUEUED,
      dl_disposition = None\<rparr>"

definition sample_authority :: MarkerAuthority where
  "sample_authority = \<lparr>ma_signing_key = [7], ma_max_lifetime = 300000000\<rparr>"

lemma sample_times:
  obtains a b c where "parse_timestamp ''2026-07-01T00:00:00Z'' = Inr a"
    "parse_timestamp ''2026-07-01T00:00:30Z'' = Inr b" "parse_timestamp ''2026-07-01T00:01:00Z'' = Inr c"
    "a \<le> b" "b < c" "c - a \<le> 300000000"
proof -
  have "(case (parse_timestamp ''2026-07-01T00:00:00Z'', parse_timestamp ''2026-07-01T00:00:30Z'',
      parse_timestamp ''2026-07-01T00:01:00Z'') of
      (Inr a, Inr b, Inr c) \<Rightarrow> a \<le> b \<and> b < c \<and> c - a \<le> 300000000 | _ \<Rightarrow> False)"
    by code_simp
  then show ?thesis using that by (auto split: sum.splits)
qed

lemma sample_minted:
  "\<exists>m. mint sample_authority sample_delivery ''2026-07-01T00:00:00Z'' ''2026-07-01T00:01:00Z'' = Inr m \<and>
     validate sample_authority m sample_delivery ''2026-07-01T00:00:30Z'' = Inr None"
proof -
  obtain a b c where t: "parse_timestamp ''2026-07-01T00:00:00Z'' = Inr a"
      "parse_timestamp ''2026-07-01T00:00:30Z'' = Inr b" "parse_timestamp ''2026-07-01T00:01:00Z'' = Inr c"
      "a \<le> b" "b < c" "c - a \<le> 300000000" by (rule sample_times)
  then obtain m where m: "mint sample_authority sample_delivery ''2026-07-01T00:00:00Z'' ''2026-07-01T00:01:00Z'' = Inr m"
    by (simp add: mint_def sample_delivery_def sample_authority_def Let_def)
  from mint_valid_marker[OF m t(2,1,3,4,5)] m show ?thesis by (auto simp: validate_None_iff)
qed

text \<open>Witness of C20.\<close>

theorem minted_marker_validates_witness:
  "\<exists>m. mint sample_authority sample_delivery ''2026-07-01T00:00:00Z'' ''2026-07-01T00:01:00Z'' = Inr m \<and>
     validate sample_authority m sample_delivery ''2026-07-01T00:00:30Z'' = Inr None"
proof -
  obtain a b c where t: "parse_timestamp ''2026-07-01T00:00:00Z'' = Inr a"
      "parse_timestamp ''2026-07-01T00:00:30Z'' = Inr b" "parse_timestamp ''2026-07-01T00:01:00Z'' = Inr c"
      "a \<le> b" "b < c" "c - a \<le> 300000000" by (rule sample_times)
  from sample_minted obtain m where
    m: "mint sample_authority sample_delivery ''2026-07-01T00:00:00Z'' ''2026-07-01T00:01:00Z'' = Inr m" by blast
  from minted_marker_validates[OF m t(2,1,3)] t(4,5) m show ?thesis by blast
qed

text \<open>C21: A signature fixes every field of the marker it was accepted with: two markers accepted
  under one key with one signature are equal, or HMAC-SHA-256 has a collision.\<close>

theorem signature_binds_marker:
  assumes "validate auth m d t = Inr None" "validate auth n e u = Inr None"
    and "mk_signature m = mk_signature n"
  shows "m = n \<or>
    (utf8 (dumps (sign_payload m)) \<noteq> utf8 (dumps (sign_payload n)) \<and>
     hmac_sha256 (ma_signing_key auth) (utf8 (dumps (sign_payload m))) =
     hmac_sha256 (ma_signing_key auth) (utf8 (dumps (sign_payload n))))"
proof -
  have "sign auth m = sign auth n" using assms(1-3) by (simp add: validate_None_iff valid_marker_def)
  then have "hmac_sha256 (ma_signing_key auth) (utf8 (dumps (sign_payload m))) =
      hmac_sha256 (ma_signing_key auth) (utf8 (dumps (sign_payload n)))"
    unfolding sign_def by (metis fromhex_hex option.inject)
  moreover have "m = n" if "utf8 (dumps (sign_payload m)) = utf8 (dumps (sign_payload n))"
    using sign_input_inject[OF that, of "mk_signature m"] assms(3) by (cases m; cases n) simp
  ultimately show ?thesis by blast
qed

text \<open>Witness of C21.\<close>

theorem signature_binds_marker_witness:
  "\<exists>m. validate sample_authority m sample_delivery ''2026-07-01T00:00:30Z'' = Inr None \<and>
     (m = m\<lparr>mk_signature := sign sample_authority m\<rparr> \<or>
      utf8 (dumps (sign_payload m)) \<noteq> utf8 (dumps (sign_payload (m\<lparr>mk_signature := sign sample_authority m\<rparr>))))"
proof -
  obtain m where v: "validate sample_authority m sample_delivery ''2026-07-01T00:00:30Z'' = Inr None"
    using sample_minted by blast
  let ?n = "m\<lparr>mk_signature := sign sample_authority m\<rparr>"
  have s: "mk_signature m = mk_signature ?n" using v by (simp add: validate_None_iff valid_marker_def)
  then have "?n = m" by (cases m) simp
  with v have "validate sample_authority ?n sample_delivery ''2026-07-01T00:00:30Z'' = Inr None" by simp
  from signature_binds_marker[OF v this s] v show ?thesis by blast
qed

section \<open>Facts: session proofs\<close>

text \<open>What an accepted chain satisfies; \<open>names\<close> is the expected sequence of host events.\<close>

definition sound_chain ::
  "SessionProof \<Rightarrow> Delivery \<Rightarrow> ProofMethodRegistration \<Rightarrow> string list \<Rightarrow> bool" where
  "sound_chain p d reg names \<longleftrightarrow>
     (let events = pf_source_events p
      in map se_event_name events = names
         \<and> (\<forall>e \<in> set events. se_source_instance_id e = pm_source_instance_id reg
              \<and> se_boot_id e \<noteq> [] \<and> se_source_event_id e \<noteq> [] \<and> 0 \<le> se_seq e)
         \<and> (\<exists>boot. \<forall>e \<in> set events. se_boot_id e = boot)
         \<and> distinct (map se_source_event_id events)
         \<and> sorted_wrt (<) (map se_seq events)
         \<and> se_binding_id (events ! 1) = dl_binding_id d
         \<and> se_marker_signature (events ! 1) = Some (mk_signature (pf_marker p))
         \<and> (\<forall>e \<in> set (drop 2 events). se_session_id e = Some (pf_session_id p)))"

lemma in_order_iff: "in_order es \<longleftrightarrow> sorted_wrt (<) (map se_seq es)"
proof (induction es rule: in_order.induct)
  case (1 a b r)
  then show ?case by fastforce
qed auto

lemma card_one_iff:
  assumes "xs \<noteq> []"
  shows "card (set xs) = 1 \<longleftrightarrow> (\<exists>b. \<forall>x \<in> set xs. x = b)"
proof
  assume "card (set xs) = 1"
  then show "\<exists>b. \<forall>x \<in> set xs. x = b" by (auto simp: card_1_singleton_iff)
next
  assume "\<exists>b. \<forall>x \<in> set xs. x = b"
  then obtain b where "set xs = {b}" using assms by (cases xs) auto
  then show "card (set xs) = 1" by simp
qed

lemma validate_chain_None_iff:
  assumes "names \<noteq> []"
  shows "validate_chain p d reg names = None \<longleftrightarrow> sound_chain p d reg names"
proof (cases "map se_event_name (pf_source_events p) = names")
  case True
  define events where "events = pf_source_events p"
  have ne: "map se_boot_id events \<noteq> []" using assms True by (auto simp: events_def)
  have dist: "card (set (map se_source_event_id events)) = length events \<longleftrightarrow>
      distinct (map se_source_event_id events)"
    using card_distinct[of "map se_source_event_id events"] distinct_card[of "map se_source_event_id events"]
    by auto
  have one: "card (set (map se_boot_id events)) = 1 \<longleftrightarrow> (\<exists>b. \<forall>e \<in> set events. se_boot_id e = b)"
    using card_one_iff[OF ne] by simp
  show ?thesis
    unfolding validate_chain_def sound_chain_def Let_def events_def[symmetric] in_order_iff
    using True dist one
    by (auto simp: events_def[symmetric] list_ex_iff linorder_not_less) fastforce+
next
  case False
  then show ?thesis by (simp add: validate_chain_def sound_chain_def)
qed

lemma validate_session_proof_None_iff:
  "validate_session_proof p d cls reg auth t = Inr None \<longleftrightarrow>
     cls \<in> pm_evidence_classes reg \<and> pm_source_kind reg = EVENT_BUS \<and>
     valid_marker auth (pf_marker p) d t \<and>
     (\<exists>names. expected_names cls = Some names \<and> sound_chain p d reg names)"
proof -
  have rule: "pm_correlation_rule reg = CMUX_HARNESS_CHAIN"
    by (cases "pm_correlation_rule reg") simp
  have ne: "expected_names cls = Some names \<Longrightarrow> names \<noteq> []" for names
    by (auto simp: expected_names_def PROMPT_CHAIN_def COMPLETED_CHAIN_def split: if_splits)
  show ?thesis
    using validate_None_iff[of auth "pf_marker p" d t] validate_chain_None_iff[of _ p d reg] ne
    by (auto simp: validate_session_proof_def rule split: sum.splits option.splits)
qed

end
