(* ===== verification/Core_Store.thy ===== *)
theory Core_Store
  imports Core_Proofs
begin

text \<open>
  \<open>core/yatagarasu_core/store.py\<close>: the SQLite store of the core. A table is the list of its rows in
  \<open>rowid\<close> order, and every \<open>INSERT\<close> checks the table's primary key, unique and foreign-key
  constraints and raises \<open>IntegrityError\<close> when one fails. \<open>core_store\<close> adds the transaction flag
  of the connection: Python's \<open>sqlite3\<close> opens a transaction before a data-changing statement and
  only \<open>commit\<close> or \<open>rollback\<close> closes it, so an operation that raises between the two leaves it open.
  Rows with an \<open>AUTOINCREMENT\<close> key are never deleted, so the next key is one more than their number.
\<close>

section \<open>Schema\<close>

record ProviderRow =
  pv_provider_id :: string
  pv_kind :: ProviderKind
  pv_health :: string

record PrincipalRow =
  pb_provider_id :: string
  pb_platform_principal_id :: string
  pb_recipient_id :: string

record MessageRow =
  mb_provider_id :: string
  mb_platform_message_id :: string
  mb_event_id :: string
  mb_delivery_id :: string
  mb_attempt_id :: string

record ReceiptRow =
  rr_receipt_id :: string
  rr_provider_id :: string
  rr_source_event_id :: "string option"
  rr_event_id :: string
  rr_delivery_id :: string
  rr_attempt_id :: string
  rr_binding_id :: string
  rr_evidence_class :: EvidenceClass
  rr_proof_method :: string
  rr_observed_at :: string
  rr_disposition :: "Disposition option"
  rr_platform_principal_id :: "string option"
  rr_platform_message_id :: "string option"
  rr_authored_by_provider :: bool
  rr_infrastructure_event :: bool
  rr_session_id :: "string option"
  rr_marker_signature :: "string option"
  rr_source_event_chain :: string
  rr_turn_id :: "string option"

record BindingRow =
  sr_binding_id :: string
  sr_recipient_id :: string
  sr_provider_id :: string
  sr_adapter_instance_id :: string
  sr_harness :: string
  sr_session_id :: string
  sr_established_at :: string
  sr_expires_at :: string
  sr_state :: BindingState

record ProofMethodRow =
  pr_binding_id :: string
  pr_proof_method :: string
  pr_source_kind :: SourceKind
  pr_source_instance_id :: string
  pr_correlation_rule :: CorrelationRule
  pr_evidence_classes :: string

record AuditRow =
  au_audit_id :: nat
  au_receipt_id :: string
  au_delivery_id :: string
  au_from_state :: DeliveryState
  au_to_state :: DeliveryState
  au_disposition :: "Disposition option"
  au_delivery_mode :: DeliveryMode
  au_session_entry :: string
  au_evidence_class :: EvidenceClass
  au_proof_method :: string

record RejectionRow =
  rj_rejection_id :: nat
  rj_receipt_id :: string
  rj_delivery_id :: string
  rj_provider_id :: string
  rj_evidence_class :: EvidenceClass
  rj_proof_method :: string
  rj_observed_at :: string
  rj_reason :: string

record MemberRow =
  rm_room_id :: string
  rm_recipient_id :: string
  rm_roster_ordinal :: nat

record EventRow =
  ce_event_id :: string
  ce_actor_id :: string
  ce_room_id :: string
  ce_content :: string
  ce_accepted_at :: string
  ce_authority_scope :: string

record BroadcastRow =
  bc_broadcast_id :: string
  bc_event_id :: string
  bc_room_id :: string
  bc_roster_snapshot_size :: nat

record RecipientRow =
  bp_broadcast_id :: string
  bp_recipient_id :: string
  bp_roster_ordinal :: nat
  bp_binding_id :: "string option"
  bp_delivery_id :: string

record BroadcastAuditRow =
  ba_broadcast_id :: string
  ba_event_id :: string
  ba_roster_snapshot_size :: nat

record core_db =
  deliveries :: "Delivery list"
  providers :: "ProviderRow list"
  provider_evidence :: "(string \<times> EvidenceClass) list"
  principal_bindings :: "PrincipalRow list"
  platform_message_bindings :: "MessageRow list"
  receipts :: "ReceiptRow list"
  session_bindings :: "BindingRow list"
  binding_proof_methods :: "ProofMethodRow list"
  audit_log :: "AuditRow list"
  receipt_rejections :: "RejectionRow list"
  rooms :: "string list"
  room_members :: "MemberRow list"
  canonical_events :: "EventRow list"
  broadcasts :: "BroadcastRow list"
  broadcast_recipients :: "RecipientRow list"
  broadcast_audits :: "BroadcastAuditRow list"

record core_store =
  db :: core_db
  in_transaction :: bool

definition empty_db :: core_db where
  "empty_db =
     \<lparr>deliveries = [], providers = [], provider_evidence = [], principal_bindings = [],
      platform_message_bindings = [], receipts = [], session_bindings = [],
      binding_proof_methods = [], audit_log = [], receipt_rejections = [], rooms = [],
      room_members = [], canonical_events = [], broadcasts = [], broadcast_recipients = [],
      broadcast_audits = []\<rparr>"

definition new_store :: core_store where
  "new_store = \<lparr>db = empty_db, in_transaction = False\<rparr>"

section \<open>Transactions\<close>

text \<open>One statement followed by \<open>connection.commit()\<close>.\<close>

definition execute_commit :: "(core_db \<Rightarrow> core_db res) \<Rightarrow> core_store \<Rightarrow> unit res \<times> core_store" where
  "execute_commit stmt s =
     (case stmt (db s) of
        Inl e \<Rightarrow> (Inl e, s\<lparr>in_transaction := True\<rparr>)
      | Inr t \<Rightarrow> (Inr (), \<lparr>db = t, in_transaction = False\<rparr>))"

text \<open>\<open>with self.connection:\<close> commits when the body returns and rolls back when it raises. No
  operation leaves uncommitted rows behind, so the rollback restores the tables at entry.\<close>

definition with_connection :: "(core_db \<Rightarrow> core_db res) \<Rightarrow> core_store \<Rightarrow> unit res \<times> core_store" where
  "with_connection body s =
     (case body (db s) of
        Inl e \<Rightarrow> (Inl e, s\<lparr>in_transaction := False\<rparr>)
      | Inr t \<Rightarrow> (Inr (), \<lparr>db = t, in_transaction = False\<rparr>))"

section \<open>Queries\<close>

definition get_delivery :: "core_db \<Rightarrow> string \<Rightarrow> Delivery option" where
  "get_delivery t i = fetchone (\<lambda>d. dl_delivery_id d = i) (deliveries t)"

definition provider :: "core_db \<Rightarrow> string \<Rightarrow> ProviderRow option" where
  "provider t i = fetchone (\<lambda>p. pv_provider_id p = i) (providers t)"

definition provider_declares :: "core_db \<Rightarrow> string \<Rightarrow> EvidenceClass \<Rightarrow> bool" where
  "provider_declares t i c = (fetchone (\<lambda>r. r = (i, c)) (provider_evidence t) \<noteq> None)"

definition principal_matches :: "core_db \<Rightarrow> string \<Rightarrow> string \<Rightarrow> string \<Rightarrow> bool" where
  "principal_matches t p who recipient =
     (fetchone (\<lambda>r. pb_provider_id r = p \<and> pb_platform_principal_id r = who
                   \<and> pb_recipient_id r = recipient) (principal_bindings t) \<noteq> None)"

definition message_binding_matches :: "core_db \<Rightarrow> string \<Rightarrow> string \<Rightarrow> Delivery \<Rightarrow> bool" where
  "message_binding_matches t p message d =
     (fetchone (\<lambda>r. mb_provider_id r = p \<and> mb_platform_message_id r = message
                   \<and> mb_event_id r = dl_event_id d \<and> mb_delivery_id r = dl_delivery_id d
                   \<and> mb_attempt_id r = dl_attempt_id d) (platform_message_bindings t) \<noteq> None)"

definition receipt_record :: "core_db \<Rightarrow> string \<Rightarrow> ReceiptRow option" where
  "receipt_record t i = fetchone (\<lambda>r. rr_receipt_id r = i) (receipts t)"

definition receipt_exists :: "core_db \<Rightarrow> string \<Rightarrow> bool" where
  "receipt_exists t i = (fetchone (\<lambda>r. rr_receipt_id r = i) (receipts t) \<noteq> None)"

text \<open>\<open>ORDER BY rowid DESC LIMIT 1\<close>: the latest matching row.\<close>

definition session_entry_chain :: "core_db \<Rightarrow> string \<Rightarrow> string option" where
  "session_entry_chain t i =
     map_option rr_source_event_chain
       (fetchone (\<lambda>r. rr_delivery_id r = i \<and>
           (rr_evidence_class r = HARNESS_PROMPT_ACCEPTED \<or> rr_evidence_class r = HARNESS_TURN_STARTED))
         (rev (receipts t)))"

definition source_seen :: "core_db \<Rightarrow> string \<Rightarrow> string \<Rightarrow> bool" where
  "source_seen t p source =
     (fetchone (\<lambda>r. rr_provider_id r = p \<and> rr_source_event_id r = Some source) (receipts t) \<noteq> None)"

definition session_binding :: "core_db \<Rightarrow> string \<Rightarrow> BindingRow option" where
  "session_binding t i = fetchone (\<lambda>r. sr_binding_id r = i) (session_bindings t)"

definition active_session_binding_for ::
  "core_db \<Rightarrow> string \<Rightarrow> string option \<Rightarrow> BindingRow option res" where
  "active_session_binding_for t recipient observed_at =
     (case (fetchone (\<lambda>r. sr_recipient_id r = recipient \<and> sr_state r = ACTIVE) (session_bindings t),
            observed_at) of
        (None, _) \<Rightarrow> Inr None
      | (Some row, None) \<Rightarrow> Inr (Some row)
      | (Some row, Some ob) \<Rightarrow>
        (case parse_timestamp ob of Inl e \<Rightarrow> Inl e | Inr observed \<Rightarrow>
         case parse_timestamp (sr_established_at row) of Inl e \<Rightarrow> Inl e | Inr established \<Rightarrow>
         case parse_timestamp (sr_expires_at row) of Inl e \<Rightarrow> Inl e | Inr expires \<Rightarrow>
           Inr (if established \<le> observed \<and> observed < expires then Some row else None)))"

fun split_on :: "char \<Rightarrow> string \<Rightarrow> string list" where
  "split_on c [] = [[]]"
| "split_on c (x # xs) =
     (if x = c then [] # split_on c xs
      else case split_on c xs of [] \<Rightarrow> [[x]] | w # ws \<Rightarrow> (x # w) # ws)"

fun map_res :: "('a \<Rightarrow> 'b res) \<Rightarrow> 'a list \<Rightarrow> 'b list res" where
  "map_res f [] = Inr []"
| "map_res f (x # xs) =
     (case f x of Inl e \<Rightarrow> Inl e | Inr y \<Rightarrow>
      case map_res f xs of Inl e \<Rightarrow> Inl e | Inr ys \<Rightarrow> Inr (y # ys))"

definition binding_proof_method ::
  "core_db \<Rightarrow> string \<Rightarrow> string \<Rightarrow> ProofMethodRegistration option res" where
  "binding_proof_method t i method =
     (case fetchone (\<lambda>r. pr_binding_id r = i \<and> pr_proof_method r = method) (binding_proof_methods t) of
        None \<Rightarrow> Inr None
      | Some row \<Rightarrow>
        (case map_res evidence_of_value (split_on (CHR '','') (pr_evidence_classes row)) of
           Inl e \<Rightarrow> Inl e
         | Inr cs \<Rightarrow> Inr (Some
             \<lparr>pm_proof_method = pr_proof_method row,
              pm_source_kind = pr_source_kind row,
              pm_source_instance_id = pr_source_instance_id row,
              pm_correlation_rule = pr_correlation_rule row,
              pm_evidence_classes = set cs\<rparr>)))"

definition audit_for :: "core_db \<Rightarrow> string \<Rightarrow> AuditRow list" where
  "audit_for t i = sort_key au_audit_id (filter (\<lambda>r. au_delivery_id r = i) (audit_log t))"

definition rejections_for :: "core_db \<Rightarrow> string \<Rightarrow> RejectionRow list" where
  "rejections_for t i = sort_key rj_rejection_id (filter (\<lambda>r. rj_delivery_id r = i) (receipt_rejections t))"

definition room_roster :: "core_db \<Rightarrow> string \<Rightarrow> string list" where
  "room_roster t room =
     map rm_recipient_id (sort_key rm_roster_ordinal (filter (\<lambda>r. rm_room_id r = room) (room_members t)))"

definition broadcast_audit :: "core_db \<Rightarrow> string \<Rightarrow> BroadcastAuditRow option" where
  "broadcast_audit t i = fetchone (\<lambda>r. ba_broadcast_id r = i) (broadcast_audits t)"

definition canonical_event :: "core_db \<Rightarrow> string \<Rightarrow> EventRow option" where
  "canonical_event t i = fetchone (\<lambda>r. ce_event_id r = i) (canonical_events t)"

definition deliveries_for_event :: "core_db \<Rightarrow> string \<Rightarrow> Delivery list" where
  "deliveries_for_event t i =
     List.map_filter (\<lambda>row. get_delivery t (dl_delivery_id row))
       (filter (\<lambda>row. dl_event_id row = i) (deliveries t))"

section \<open>Inserts\<close>

definition insert_delivery :: "Delivery \<Rightarrow> core_db \<Rightarrow> core_db res" where
  "insert_delivery d t =
     (if dl_delivery_id d \<in> set (map dl_delivery_id (deliveries t)) then Inl IntegrityError
      else Inr (t\<lparr>deliveries := deliveries t @ [d]\<rparr>))"

definition insert_provider :: "ProviderRow \<Rightarrow> core_db \<Rightarrow> core_db res" where
  "insert_provider p t =
     (if pv_provider_id p \<in> set (map pv_provider_id (providers t)) then Inl IntegrityError
      else Inr (t\<lparr>providers := providers t @ [p]\<rparr>))"

definition provider_known :: "core_db \<Rightarrow> string \<Rightarrow> bool" where
  "provider_known t i = (i \<in> set (map pv_provider_id (providers t)))"

definition delivery_known :: "core_db \<Rightarrow> string \<Rightarrow> bool" where
  "delivery_known t i = (i \<in> set (map dl_delivery_id (deliveries t)))"

definition insert_evidence :: "string \<times> EvidenceClass \<Rightarrow> core_db \<Rightarrow> core_db res" where
  "insert_evidence r t =
     (if r \<in> set (provider_evidence t) \<or> \<not> provider_known t (fst r) then Inl IntegrityError
      else Inr (t\<lparr>provider_evidence := provider_evidence t @ [r]\<rparr>))"

definition principal_key :: "PrincipalRow \<Rightarrow> string \<times> string" where
  "principal_key r = (pb_provider_id r, pb_platform_principal_id r)"

definition insert_principal :: "PrincipalRow \<Rightarrow> core_db \<Rightarrow> core_db res" where
  "insert_principal r t =
     (if principal_key r \<in> set (map principal_key (principal_bindings t))
         \<or> \<not> provider_known t (pb_provider_id r)
      then Inl IntegrityError
      else Inr (t\<lparr>principal_bindings := principal_bindings t @ [r]\<rparr>))"

definition message_key :: "MessageRow \<Rightarrow> string \<times> string" where
  "message_key r = (mb_provider_id r, mb_platform_message_id r)"

definition insert_message :: "MessageRow \<Rightarrow> core_db \<Rightarrow> core_db res" where
  "insert_message r t =
     (if message_key r \<in> set (map message_key (platform_message_bindings t))
         \<or> \<not> provider_known t (mb_provider_id r) \<or> \<not> delivery_known t (mb_delivery_id r)
      then Inl IntegrityError
      else Inr (t\<lparr>platform_message_bindings := platform_message_bindings t @ [r]\<rparr>))"

text \<open>\<open>UNIQUE (provider_id, source_event_id)\<close>: rows without a source event never collide.\<close>

definition insert_receipt :: "ReceiptRow \<Rightarrow> core_db \<Rightarrow> core_db res" where
  "insert_receipt r t =
     (if rr_receipt_id r \<in> set (map rr_receipt_id (receipts t))
         \<or> \<not> provider_known t (rr_provider_id r) \<or> \<not> delivery_known t (rr_delivery_id r)
         \<or> (\<exists>x \<in> set (receipts t). rr_source_event_id r \<noteq> None
              \<and> rr_provider_id x = rr_provider_id r \<and> rr_source_event_id x = rr_source_event_id r)
      then Inl IntegrityError
      else Inr (t\<lparr>receipts := receipts t @ [r]\<rparr>))"

text \<open>\<open>audit_id\<close> is assigned by \<open>AUTOINCREMENT\<close>.\<close>

definition insert_audit :: "AuditRow \<Rightarrow> core_db \<Rightarrow> core_db res" where
  "insert_audit r t =
     (if au_receipt_id r \<in> set (map au_receipt_id (audit_log t))
         \<or> au_receipt_id r \<notin> set (map rr_receipt_id (receipts t))
         \<or> \<not> delivery_known t (au_delivery_id r)
      then Inl IntegrityError
      else Inr (t\<lparr>audit_log := audit_log t @ [r\<lparr>au_audit_id := Suc (length (audit_log t))\<rparr>]\<rparr>))"

text \<open>The partial unique index admits one active binding per recipient.\<close>

definition insert_binding :: "BindingRow \<Rightarrow> core_db \<Rightarrow> core_db res" where
  "insert_binding r t =
     (if sr_binding_id r \<in> set (map sr_binding_id (session_bindings t))
         \<or> \<not> provider_known t (sr_provider_id r)
         \<or> (sr_state r = ACTIVE \<and> (\<exists>x \<in> set (session_bindings t).
              sr_recipient_id x = sr_recipient_id r \<and> sr_state x = ACTIVE))
      then Inl IntegrityError
      else Inr (t\<lparr>session_bindings := session_bindings t @ [r]\<rparr>))"

definition method_key :: "ProofMethodRow \<Rightarrow> string \<times> string" where
  "method_key r = (pr_binding_id r, pr_proof_method r)"

definition insert_method :: "ProofMethodRow \<Rightarrow> core_db \<Rightarrow> core_db res" where
  "insert_method r t =
     (if method_key r \<in> set (map method_key (binding_proof_methods t))
         \<or> pr_binding_id r \<notin> set (map sr_binding_id (session_bindings t))
      then Inl IntegrityError
      else Inr (t\<lparr>binding_proof_methods := binding_proof_methods t @ [r]\<rparr>))"

definition member_key :: "MemberRow \<Rightarrow> string \<times> string" where
  "member_key r = (rm_room_id r, rm_recipient_id r)"

definition insert_member :: "MemberRow \<Rightarrow> core_db \<Rightarrow> core_db res" where
  "insert_member r t =
     (if member_key r \<in> set (map member_key (room_members t))
         \<or> (\<exists>x \<in> set (room_members t). rm_room_id x = rm_room_id r
              \<and> rm_roster_ordinal x = rm_roster_ordinal r)
         \<or> rm_room_id r \<notin> set (rooms t)
      then Inl IntegrityError
      else Inr (t\<lparr>room_members := room_members t @ [r]\<rparr>))"

section \<open>Operations\<close>

definition add_delivery :: "Delivery \<Rightarrow> core_store \<Rightarrow> unit res \<times> core_store" where
  "add_delivery d s = execute_commit (insert_delivery d) s"

definition roster_rows :: "string \<Rightarrow> string list \<Rightarrow> MemberRow list" where
  "roster_rows room recipients =
     map (\<lambda>(n, r). \<lparr>rm_room_id = room, rm_recipient_id = r, rm_roster_ordinal = n\<rparr>)
       (enumerate 0 recipients)"

definition replace_roster_body :: "string \<Rightarrow> string list \<Rightarrow> core_db \<Rightarrow> core_db res" where
  "replace_roster_body room recipients t =
     try_each (\<lambda>u r. insert_member r u)
       (t\<lparr>rooms := (if room \<in> set (rooms t) then rooms t else rooms t @ [room]),
          room_members := filter (\<lambda>r. rm_room_id r \<noteq> room) (room_members t)\<rparr>)
       (roster_rows room recipients)"

definition replace_room_roster :: "string \<Rightarrow> string list \<Rightarrow> core_store \<Rightarrow> unit res \<times> core_store" where
  "replace_room_roster room recipients s =
     (if room = [] \<or> recipients = [] \<or> [] \<in> set recipients
        then (Inl (ValueError ''room and recipients must not be empty''), s)
      else if \<not> distinct recipients
        then (Inl (ValueError ''room roster contains a duplicate recipient''), s)
      else with_connection (replace_roster_body room recipients) s)"

definition set_dispatching :: "string \<Rightarrow> core_store \<Rightarrow> unit res \<times> core_store" where
  "set_dispatching i s =
     (let P = (\<lambda>d. dl_delivery_id d = i \<and> dl_state d = QUEUED);
          t = (db s)\<lparr>deliveries := update_where P (\<lambda>d. d\<lparr>dl_state := DISPATCHING\<rparr>) (deliveries (db s))\<rparr>
      in if rowcount P (deliveries (db s)) \<noteq> 1
         then (Inl (ValueError ''delivery_not_queued''), \<lparr>db = t, in_transaction = True\<rparr>)
         else (Inr (), \<lparr>db = t, in_transaction = False\<rparr>))"

definition register_provider_body ::
  "string \<Rightarrow> ProviderKind \<Rightarrow> EvidenceClass list \<Rightarrow> core_db \<Rightarrow> core_db res" where
  "register_provider_body i kind classes t =
     (case insert_provider \<lparr>pv_provider_id = i, pv_kind = kind, pv_health = ''healthy''\<rparr> t of
        Inl e \<Rightarrow> Inl e
      | Inr u \<Rightarrow> try_each (\<lambda>v c. insert_evidence (i, c) v) u classes)"

definition register_provider ::
  "string \<Rightarrow> ProviderKind \<Rightarrow> EvidenceClass list \<Rightarrow> core_store \<Rightarrow> unit res \<times> core_store" where
  "register_provider i kind classes s = with_connection (register_provider_body i kind classes) s"

definition evidence_text :: "EvidenceClass set \<Rightarrow> string" where
  "evidence_text cs = join '','' (sorted_list_of_set (evidence_value ` cs))"

definition binding_row :: "SessionBinding \<Rightarrow> BindingRow" where
  "binding_row b =
     \<lparr>sr_binding_id = sb_binding_id b, sr_recipient_id = sb_recipient_id b,
      sr_provider_id = sb_provider_id b, sr_adapter_instance_id = sb_adapter_instance_id b,
      sr_harness = sb_harness b, sr_session_id = sb_session_id b,
      sr_established_at = sb_established_at b, sr_expires_at = sb_expires_at b,
      sr_state = sb_state b\<rparr>"

definition method_row :: "string \<Rightarrow> ProofMethodRegistration \<Rightarrow> ProofMethodRow" where
  "method_row i m =
     \<lparr>pr_binding_id = i, pr_proof_method = pm_proof_method m, pr_source_kind = pm_source_kind m,
      pr_source_instance_id = pm_source_instance_id m,
      pr_correlation_rule = pm_correlation_rule m,
      pr_evidence_classes = evidence_text (pm_evidence_classes m)\<rparr>"

definition insert_session_binding :: "SessionBinding \<Rightarrow> core_db \<Rightarrow> core_db res" where
  "insert_session_binding b t =
     (case insert_binding (binding_row b) t of
        Inl e \<Rightarrow> Inl e
      | Inr u \<Rightarrow> try_each (\<lambda>v m. insert_method (method_row (sb_binding_id b) m) v) u (sb_proof_methods b))"

fun validate_methods :: "core_db \<Rightarrow> string \<Rightarrow> ProofMethodRegistration list \<Rightarrow> unit res" where
  "validate_methods t p [] = Inr ()"
| "validate_methods t p (m # ms) =
     (if pm_source_instance_id m = [] \<or> pm_evidence_classes m = {}
        then Inl (ValueError ''proof method source and evidence must not be empty'')
      else if \<exists>c \<in> pm_evidence_classes m. \<not> provider_declares t p c
        then Inl (ValueError ''proof method evidence is not declared by provider'')
      else validate_methods t p ms)"

definition validate_session_binding :: "core_db \<Rightarrow> SessionBinding \<Rightarrow> unit res" where
  "validate_session_binding t b =
     (if sb_state b \<noteq> ACTIVE then Inl (ValueError ''new session binding must be active'')
      else if [] \<in> set [sb_binding_id b, sb_recipient_id b, sb_provider_id b,
                        sb_adapter_instance_id b, sb_harness b, sb_session_id b]
        then Inl (ValueError ''binding identity fields must not be empty'')
      else case parse_timestamp (sb_expires_at b) of Inl e \<Rightarrow> Inl e | Inr ex \<Rightarrow>
           case parse_timestamp (sb_established_at b) of Inl e \<Rightarrow> Inl e | Inr est \<Rightarrow>
      if ex \<le> est then Inl (ValueError ''binding expiry must follow establishment'')
      else if (case provider t (sb_provider_id b) of
                 None \<Rightarrow> True | Some p \<Rightarrow> pv_kind p \<noteq> SESSION_TRANSPORT)
        then Inl (ValueError ''binding provider must be a registered session transport'')
      else if sb_proof_methods b = []
        then Inl (ValueError ''binding must declare at least one proof method'')
      else if \<not> distinct (map pm_proof_method (sb_proof_methods b))
              \<or> [] \<in> set (map pm_proof_method (sb_proof_methods b))
        then Inl (ValueError ''binding proof methods must be unique and non-empty'')
      else validate_methods t (sb_provider_id b) (sb_proof_methods b))"

definition register_session_binding :: "SessionBinding \<Rightarrow> core_store \<Rightarrow> unit res \<times> core_store" where
  "register_session_binding b s =
     (case validate_session_binding (db s) b of
        Inl e \<Rightarrow> (Inl e, s)
      | Inr _ \<Rightarrow>
        (case with_connection (insert_session_binding b) s of
           (Inl IntegrityError, s') \<Rightarrow>
             (Inl (BindingConflictError
                (''active binding conflict for recipient '' @ sb_recipient_id b)), s')
         | r \<Rightarrow> r))"

definition supersede_body :: "string \<Rightarrow> SessionBinding \<Rightarrow> core_db \<Rightarrow> core_db res" where
  "supersede_body old b t =
     insert_session_binding b
       (t\<lparr>session_bindings :=
            update_where (\<lambda>r. sr_binding_id r = old) (\<lambda>r. r\<lparr>sr_state := SUPERSEDED\<rparr>)
              (session_bindings t)\<rparr>)"

definition supersede_session_binding ::
  "string \<Rightarrow> SessionBinding \<Rightarrow> core_store \<Rightarrow> unit res \<times> core_store" where
  "supersede_session_binding old b s =
     (case session_binding (db s) old of
        None \<Rightarrow> (Inl (BindingConflictError ''binding to supersede is not active''), s)
      | Some row \<Rightarrow>
        if sr_state row \<noteq> ACTIVE
          then (Inl (BindingConflictError ''binding to supersede is not active''), s)
        else if sr_recipient_id row \<noteq> sb_recipient_id b
          then (Inl (BindingConflictError ''replacement owns a different recipient''), s)
        else case validate_session_binding (db s) b of
          Inl e \<Rightarrow> (Inl e, s)
        | Inr _ \<Rightarrow> with_connection (supersede_body old b) s)"

definition revoke_session_binding :: "string \<Rightarrow> core_store \<Rightarrow> unit res \<times> core_store" where
  "revoke_session_binding i s =
     (let P = (\<lambda>r. sr_binding_id r = i \<and> sr_state r = ACTIVE);
          t = (db s)\<lparr>session_bindings :=
                update_where P (\<lambda>r. r\<lparr>sr_state := REVOKED\<rparr>) (session_bindings (db s))\<rparr>
      in if rowcount P (session_bindings (db s)) \<noteq> 1
         then (Inl (ValueError ''binding_not_active''), \<lparr>db = t, in_transaction = True\<rparr>)
         else (Inr (), \<lparr>db = t, in_transaction = False\<rparr>))"

definition bind_principal ::
  "string \<Rightarrow> string \<Rightarrow> string \<Rightarrow> core_store \<Rightarrow> unit res \<times> core_store" where
  "bind_principal p who recipient s =
     execute_commit (insert_principal
       \<lparr>pb_provider_id = p, pb_platform_principal_id = who, pb_recipient_id = recipient\<rparr>) s"

definition bind_platform_message ::
  "string \<Rightarrow> string \<Rightarrow> string \<Rightarrow> string \<Rightarrow> string \<Rightarrow> core_store \<Rightarrow> unit res \<times> core_store" where
  "bind_platform_message p message event delivery attempt s =
     execute_commit (insert_message
       \<lparr>mb_provider_id = p, mb_platform_message_id = message, mb_event_id = event,
        mb_delivery_id = delivery, mb_attempt_id = attempt\<rparr>) s"

definition mark_provider_degraded :: "string \<Rightarrow> core_store \<Rightarrow> core_store" where
  "mark_provider_degraded i s =
     \<lparr>db = (db s)\<lparr>providers :=
        update_where (\<lambda>p. pv_provider_id p = i) (\<lambda>p. p\<lparr>pv_health := ''degraded''\<rparr>) (providers (db s))\<rparr>,
      in_transaction = False\<rparr>"

definition record_rejection :: "Receipt \<Rightarrow> string \<Rightarrow> core_store \<Rightarrow> core_store" where
  "record_rejection r reason s =
     \<lparr>db = (db s)\<lparr>receipt_rejections := receipt_rejections (db s) @
        [\<lparr>rj_rejection_id = Suc (length (receipt_rejections (db s))),
          rj_receipt_id = rc_receipt_id r, rj_delivery_id = rc_delivery_id r,
          rj_provider_id = rc_evidence_provider_id r, rj_evidence_class = rc_evidence_class r,
          rj_proof_method = rc_proof_method r, rj_observed_at = rc_observed_at r,
          rj_reason = reason\<rparr>]\<rparr>,
      in_transaction = False\<rparr>"

definition receipt_row :: "Receipt \<Rightarrow> Delivery \<Rightarrow> string \<Rightarrow> Disposition option \<Rightarrow> ReceiptRow" where
  "receipt_row r d binding disposition =
     (case proof_storage_fields (rc_proof r) of (session, signature, chain, turn) \<Rightarrow>
       \<lparr>rr_receipt_id = rc_receipt_id r, rr_provider_id = rc_evidence_provider_id r,
        rr_source_event_id = rc_source_event_id r, rr_event_id = dl_event_id d,
        rr_delivery_id = dl_delivery_id d, rr_attempt_id = dl_attempt_id d,
        rr_binding_id = binding, rr_evidence_class = rc_evidence_class r,
        rr_proof_method = rc_proof_method r, rr_observed_at = rc_observed_at r,
        rr_disposition = disposition,
        rr_platform_principal_id = rc_platform_principal_id r,
        rr_platform_message_id = rc_platform_message_id r,
        rr_authored_by_provider = rc_authored_by_provider r,
        rr_infrastructure_event = rc_infrastructure_event r,
        rr_session_id = session, rr_marker_signature = signature,
        rr_source_event_chain = chain, rr_turn_id = turn\<rparr>)"

text \<open>The body of \<open>accept_receipt\<close>: insert the receipt (\<open>binding_id\<close> is \<open>NOT NULL\<close>), advance the
  delivery if its state is still the one that was validated, and append the audit row.\<close>

definition accept_receipt_body ::
  "Receipt \<Rightarrow> Delivery \<Rightarrow> DeliveryState \<Rightarrow> Disposition option \<Rightarrow> core_db \<Rightarrow> core_db res" where
  "accept_receipt_body r d next_state disposition t =
     (case dl_binding_id d of
        None \<Rightarrow> Inl IntegrityError
      | Some binding \<Rightarrow>
        (case insert_receipt (receipt_row r d binding disposition) t of
           Inl e \<Rightarrow> Inl e
         | Inr u \<Rightarrow>
           let P = (\<lambda>x. dl_delivery_id x = dl_delivery_id d \<and> dl_state x = dl_state d)
           in if rowcount P (deliveries u) \<noteq> 1 then Inl ConcurrentTransitionError
              else insert_audit
                \<lparr>au_audit_id = 0, au_receipt_id = rc_receipt_id r,
                 au_delivery_id = dl_delivery_id d, au_from_state = dl_state d,
                 au_to_state = next_state, au_disposition = disposition,
                 au_delivery_mode = dl_delivery_mode d,
                 au_session_entry =
                   (if dl_delivery_mode d = CHANNEL_NATIVE then ''not_applicable'' else ''applicable''),
                 au_evidence_class = rc_evidence_class r,
                 au_proof_method = rc_proof_method r\<rparr>
                (u\<lparr>deliveries := update_where P
                     (\<lambda>x. x\<lparr>dl_state := next_state, dl_disposition := disposition\<rparr>) (deliveries u)\<rparr>)))"

definition accept_receipt ::
  "Receipt \<Rightarrow> Delivery \<Rightarrow> DeliveryState \<Rightarrow> Disposition option \<Rightarrow> core_store \<Rightarrow> unit res \<times> core_store" where
  "accept_receipt r d next_state disposition s =
     with_connection (accept_receipt_body r d next_state disposition) s"

end
