(* ===== verification/Core_Store_Facts.thy ===== *)
theory Core_Store_Facts
  imports Core_Store
begin

text \<open>
  The invariant of the core store and its preservation by every operation of \<open>store.py\<close>: primary
  and unique keys, foreign keys, at most one active binding per recipient, one receipt per source
  event, and one audit row per accepted receipt. Every table with a declared key is an instance
  of the insert contract \<open>keyed_table\<close>.
\<close>

section \<open>The tables implement the insert contract\<close>

interpretation delivery_table: keyed_table deliveries deliveries_update dl_delivery_id insert_delivery
  by unfold_locales (auto simp: insert_delivery_def split: if_splits)

interpretation provider_table: keyed_table providers providers_update pv_provider_id insert_provider
  by unfold_locales (auto simp: insert_provider_def split: if_splits)

interpretation evidence_table: keyed_table provider_evidence provider_evidence_update "\<lambda>r. r" insert_evidence
  by unfold_locales (auto simp: insert_evidence_def split: if_splits)

interpretation principal_table: keyed_table principal_bindings principal_bindings_update principal_key insert_principal
  by unfold_locales (auto simp: insert_principal_def split: if_splits)

interpretation message_table: keyed_table platform_message_bindings platform_message_bindings_update message_key insert_message
  by unfold_locales (auto simp: insert_message_def split: if_splits)

interpretation receipt_table: keyed_table receipts receipts_update rr_receipt_id insert_receipt
  by unfold_locales (auto simp: insert_receipt_def split: if_splits)

interpretation binding_table: keyed_table session_bindings session_bindings_update sr_binding_id insert_binding
  by unfold_locales (auto simp: insert_binding_def split: if_splits)

interpretation method_table: keyed_table binding_proof_methods binding_proof_methods_update method_key insert_method
  by unfold_locales (auto simp: insert_method_def split: if_splits)

interpretation member_table: keyed_table room_members room_members_update member_key insert_member
  by unfold_locales (auto simp: insert_member_def split: if_splits)

section \<open>The store invariant\<close>

lemma image_update_where:
  assumes "\<And>r. key (f r) = key r"
  shows "key ` set (update_where P f rows) = key ` set rows"
  using update_where_map_key[of key f P rows] assms by (metis set_map)


definition keys_ok :: "core_db \<Rightarrow> bool" where
  "keys_ok t \<longleftrightarrow>
     distinct (map dl_delivery_id (deliveries t)) \<and>
     distinct (map pv_provider_id (providers t)) \<and>
     distinct (provider_evidence t) \<and>
     distinct (map principal_key (principal_bindings t)) \<and>
     distinct (map message_key (platform_message_bindings t)) \<and>
     distinct (map rr_receipt_id (receipts t)) \<and>
     distinct (map sr_binding_id (session_bindings t)) \<and>
     distinct (map method_key (binding_proof_methods t)) \<and>
     distinct (map member_key (room_members t)) \<and>
     distinct (map (\<lambda>r. (rm_room_id r, rm_roster_ordinal r)) (room_members t))"

text \<open>A foreign key: every value of the referring column occurs in the key column.\<close>

definition refers :: "('a \<Rightarrow> 'k) \<Rightarrow> 'a list \<Rightarrow> ('b \<Rightarrow> 'k) \<Rightarrow> 'b list \<Rightarrow> bool" where
  "refers f xs g ys \<longleftrightarrow> f ` set xs \<subseteq> g ` set ys"

lemma refers_simps [simp]:
  "refers f [] g ys"
  "refers f (xs @ [x]) g ys \<longleftrightarrow> refers f xs g ys \<and> f x \<in> g ` set ys"
  "refers f xs g ys \<Longrightarrow> refers f xs g (ys @ zs)"
  by (auto simp: refers_def)

lemma refers_update_where [simp]:
  "(\<And>r. f (h r) = f r) \<Longrightarrow> refers f (update_where P h xs) g ys = refers f xs g ys"
  "(\<And>r. g (k r) = g r) \<Longrightarrow> refers f xs g (update_where Q k ys) = refers f xs g ys"
  by (simp_all add: refers_def image_update_where)

definition refs_ok :: "core_db \<Rightarrow> bool" where
  "refs_ok t \<longleftrightarrow>
     refers fst (provider_evidence t) pv_provider_id (providers t) \<and>
     refers pb_provider_id (principal_bindings t) pv_provider_id (providers t) \<and>
     refers mb_provider_id (platform_message_bindings t) pv_provider_id (providers t) \<and>
     refers mb_delivery_id (platform_message_bindings t) dl_delivery_id (deliveries t) \<and>
     refers rr_provider_id (receipts t) pv_provider_id (providers t) \<and>
     refers rr_delivery_id (receipts t) dl_delivery_id (deliveries t) \<and>
     refers sr_provider_id (session_bindings t) pv_provider_id (providers t) \<and>
     refers pr_binding_id (binding_proof_methods t) sr_binding_id (session_bindings t) \<and>
     refers au_delivery_id (audit_log t) dl_delivery_id (deliveries t) \<and>
     refers rm_room_id (room_members t) (\<lambda>r. r) (rooms t)"

definition one_active :: "BindingRow list \<Rightarrow> bool" where
  "one_active rows \<longleftrightarrow>
     (\<forall>x \<in> set rows. \<forall>y \<in> set rows.
        sr_recipient_id x = sr_recipient_id y \<and> sr_state x = ACTIVE \<and> sr_state y = ACTIVE \<longrightarrow> x = y)"

definition sources_ok :: "ReceiptRow list \<Rightarrow> bool" where
  "sources_ok rows \<longleftrightarrow>
     (\<forall>x \<in> set rows. \<forall>y \<in> set rows.
        rr_provider_id x = rr_provider_id y \<and> rr_source_event_id x = rr_source_event_id y
          \<and> rr_source_event_id x \<noteq> None \<longrightarrow> x = y)"

definition logs_ok :: "AuditRow list \<Rightarrow> ReceiptRow list \<Rightarrow> RejectionRow list \<Rightarrow> bool" where
  "logs_ok audit accepted rejected \<longleftrightarrow>
     map au_receipt_id audit = map rr_receipt_id accepted \<and>
     map au_audit_id audit = [1..<Suc (length audit)] \<and>
     map rj_rejection_id rejected = [1..<Suc (length rejected)]"

definition wf_db :: "core_db \<Rightarrow> bool" where
  "wf_db t \<longleftrightarrow>
     keys_ok t \<and> refs_ok t \<and> one_active (session_bindings t) \<and> sources_ok (receipts t) \<and>
     logs_ok (audit_log t) (receipts t) (receipt_rejections t)"

lemmas wf_defs = wf_db_def keys_ok_def refs_ok_def

lemma wf_empty_db [simp]: "wf_db empty_db"
  by (simp add: wf_defs one_active_def sources_ok_def logs_ok_def empty_db_def)

text \<open>Statement lemmas: each \<open>INSERT\<close> keeps the invariant. The receipt insert is treated together
  with its audit row below.\<close>

lemma one_active_append:
  assumes "one_active rows" and "sr_state r = ACTIVE \<Longrightarrow>
    \<not> (\<exists>x \<in> set rows. sr_recipient_id x = sr_recipient_id r \<and> sr_state x = ACTIVE)"
  shows "one_active (rows @ [r])"
  using assms by (auto simp: one_active_def)

lemma sources_ok_append:
  assumes "sources_ok rows" and
    "\<not> (\<exists>x \<in> set rows. rr_source_event_id r \<noteq> None \<and> rr_provider_id x = rr_provider_id r
        \<and> rr_source_event_id x = rr_source_event_id r)"
  shows "sources_ok (rows @ [r])"
proof -
  have "x = y" if "x \<in> set (rows @ [r])" "y \<in> set (rows @ [r])" "rr_provider_id x = rr_provider_id y"
      "rr_source_event_id x = rr_source_event_id y" "rr_source_event_id x \<noteq> None" for x y
  proof (cases "x = r \<or> y = r")
    case True
    with that assms(2) show ?thesis by (auto simp del: not_None_eq)
  next
    case False
    with that assms(1) show ?thesis unfolding sources_ok_def by simp
  qed
  then show ?thesis unfolding sources_ok_def by blast
qed

lemma wf_insert_delivery: "wf_db t \<Longrightarrow> insert_delivery r t = Inr t' \<Longrightarrow> wf_db t'"
  by (auto simp: insert_delivery_def provider_known_def delivery_known_def wf_defs split: if_splits)

lemma wf_insert_provider: "wf_db t \<Longrightarrow> insert_provider r t = Inr t' \<Longrightarrow> wf_db t'"
  by (auto simp: insert_provider_def provider_known_def delivery_known_def wf_defs split: if_splits)

lemma wf_insert_evidence: "wf_db t \<Longrightarrow> insert_evidence r t = Inr t' \<Longrightarrow> wf_db t'"
  by (auto simp: insert_evidence_def provider_known_def delivery_known_def wf_defs split: if_splits)

lemma wf_insert_principal: "wf_db t \<Longrightarrow> insert_principal r t = Inr t' \<Longrightarrow> wf_db t'"
  by (auto simp: insert_principal_def provider_known_def delivery_known_def wf_defs split: if_splits)

lemma wf_insert_message: "wf_db t \<Longrightarrow> insert_message r t = Inr t' \<Longrightarrow> wf_db t'"
  by (auto simp: insert_message_def provider_known_def delivery_known_def wf_defs split: if_splits)

lemma wf_insert_method: "wf_db t \<Longrightarrow> insert_method r t = Inr t' \<Longrightarrow> wf_db t'"
  by (auto simp: insert_method_def provider_known_def delivery_known_def wf_defs split: if_splits)

lemma wf_insert_member:
  assumes "wf_db t" "insert_member r t = Inr t'"
  shows "wf_db t'"
proof -
  have "(rm_room_id r, rm_roster_ordinal r) \<notin> (\<lambda>r. (rm_room_id r, rm_roster_ordinal r)) ` set (room_members t)"
    and "t' = t\<lparr>room_members := room_members t @ [r]\<rparr>" "rm_room_id r \<in> set (rooms t)"
    and "member_key r \<notin> member_key ` set (room_members t)"
    using assms(2) by (auto simp: insert_member_def split: if_splits) 
  with assms(1) show ?thesis by (simp add: wf_defs)
qed

lemma wf_insert_binding: "wf_db t \<Longrightarrow> insert_binding r t = Inr t' \<Longrightarrow> wf_db t'"
  by (simp add: insert_binding_def provider_known_def wf_defs one_active_append split: if_splits)
    (elim conjE; hypsubst; simp add: one_active_append)

lemmas wf_inserts = wf_insert_delivery wf_insert_provider wf_insert_evidence wf_insert_principal
  wf_insert_message wf_insert_method wf_insert_member wf_insert_binding

section \<open>Every operation keeps the invariant\<close>

lemma execute_commit_keeps:
  assumes "\<And>t. stmt (db s) = Inr t \<Longrightarrow> I t" and "I (db s)"
  shows "I (db (snd (execute_commit stmt s)))"
  using assms by (auto simp: execute_commit_def split: sum.splits)

lemma with_connection_keeps:
  assumes "\<And>t. body (db s) = Inr t \<Longrightarrow> I t" and "I (db s)"
  shows "I (db (snd (with_connection body s)))"
  using assms by (auto simp: with_connection_def split: sum.splits)

lemma one_active_retire:
  assumes "one_active rows" "st \<noteq> ACTIVE"
  shows "one_active (update_where P (\<lambda>r. r\<lparr>sr_state := st\<rparr>) rows)"
proof -
  have old: "r \<in> set rows"
    if "r \<in> set (update_where P (\<lambda>r. r\<lparr>sr_state := st\<rparr>) rows)" "sr_state r = ACTIVE" for r
    using set_update_whereD[OF that(1)] that(2) assms(2) by (auto split: if_splits)
  with assms(1) show ?thesis unfolding one_active_def by blast
qed

lemma wf_update_deliveries:
  assumes "wf_db t" and "\<And>d. dl_delivery_id (f d) = dl_delivery_id d"
  shows "wf_db (t\<lparr>deliveries := update_where P f (deliveries t)\<rparr>)"
  using assms by (simp add: wf_defs update_where_map_key)

lemma wf_update_providers:
  assumes "wf_db t" and "\<And>p. pv_provider_id (f p) = pv_provider_id p"
  shows "wf_db (t\<lparr>providers := update_where P f (providers t)\<rparr>)"
  using assms by (simp add: wf_defs update_where_map_key)

lemma wf_retire_bindings:
  assumes "wf_db t" and "st \<noteq> ACTIVE"
  shows "wf_db (t\<lparr>session_bindings := update_where P (\<lambda>r. r\<lparr>sr_state := st\<rparr>) (session_bindings t)\<rparr>)"
  using assms by (simp add: wf_defs update_where_map_key one_active_retire)

lemmas try_each_wf = try_each_invariant[where I = wf_db]

lemma wf_add_delivery: "wf_db (db s) \<Longrightarrow> wf_db (db (snd (add_delivery d s)))"
  unfolding add_delivery_def by (rule execute_commit_keeps) (auto intro: wf_inserts)

lemma wf_bind_principal: "wf_db (db s) \<Longrightarrow> wf_db (db (snd (bind_principal p w r s)))"
  unfolding bind_principal_def by (rule execute_commit_keeps) (auto intro: wf_inserts)

lemma wf_bind_platform_message:
  "wf_db (db s) \<Longrightarrow> wf_db (db (snd (bind_platform_message p m e d a s)))"
  unfolding bind_platform_message_def by (rule execute_commit_keeps) (auto intro: wf_inserts)

lemma wf_set_dispatching: "wf_db (db s) \<Longrightarrow> wf_db (db (snd (set_dispatching i s)))"
  by (simp add: set_dispatching_def Let_def wf_update_deliveries)

lemma wf_mark_provider_degraded: "wf_db (db s) \<Longrightarrow> wf_db (db (mark_provider_degraded i s))"
  by (simp add: mark_provider_degraded_def wf_update_providers)

lemma wf_revoke_session_binding: "wf_db (db s) \<Longrightarrow> wf_db (db (snd (revoke_session_binding i s)))"
  by (simp add: revoke_session_binding_def Let_def wf_retire_bindings)

lemma wf_record_rejection: "wf_db (db s) \<Longrightarrow> wf_db (db (record_rejection r reason s))"
  by (simp add: record_rejection_def wf_defs logs_ok_def)

lemma wf_register_provider: "wf_db (db s) \<Longrightarrow> wf_db (db (snd (register_provider i k cs s)))"
  unfolding register_provider_def
proof (rule with_connection_keeps)
  fix t assume wf: "wf_db (db s)" and "register_provider_body i k cs (db s) = Inr t"
  then obtain u where "insert_provider \<lparr>pv_provider_id = i, pv_kind = k, pv_health = ''healthy''\<rparr> (db s) = Inr u"
    and t: "try_each (\<lambda>v c. insert_evidence (i, c) v) u cs = Inr t"
    by (auto simp: register_provider_body_def split: sum.splits)
  from this(1) wf have "wf_db u" by (blast intro: wf_inserts)
  then show "wf_db t" using try_each_wf[OF _ _ t] by (blast intro: wf_inserts)
qed

lemma wf_insert_session_binding: "wf_db t \<Longrightarrow> insert_session_binding b t = Inr t' \<Longrightarrow> wf_db t'"
  by (auto simp: insert_session_binding_def split: sum.splits
      elim!: try_each_wf[rotated 2] intro: wf_inserts)

lemma snd_register_session_binding:
  "snd (register_session_binding b s) =
     (if isl (validate_session_binding (db s) b) then s
      else snd (with_connection (insert_session_binding b) s))"
proof (cases "validate_session_binding (db s) b")
  case (Inr u)
  obtain r s' where w: "with_connection (insert_session_binding b) s = (r, s')" by fastforce
  show ?thesis
  proof (cases r)
    case (Inl e)
    then show ?thesis using Inr w by (cases e) (simp_all add: register_session_binding_def)
  qed (simp add: register_session_binding_def Inr w)
qed (simp add: register_session_binding_def)

lemma wf_register_session_binding:
  assumes "wf_db (db s)"
  shows "wf_db (db (snd (register_session_binding b s)))"
proof -
  have "wf_db (db (snd (with_connection (insert_session_binding b) s)))"
    using assms by (intro with_connection_keeps[where I = wf_db]) (auto intro: wf_insert_session_binding)
  with assms show ?thesis by (simp add: snd_register_session_binding)
qed

lemma wf_supersede_session_binding:
  assumes "wf_db (db s)"
  shows "wf_db (db (snd (supersede_session_binding old b s)))"
proof -
  have "wf_db (db (snd (with_connection (supersede_body old b) s)))"
    using assms by (intro with_connection_keeps[where I = wf_db])
      (auto simp: supersede_body_def intro: wf_insert_session_binding wf_retire_bindings)
  with assms show ?thesis
    by (auto simp: supersede_session_binding_def split: sum.splits option.splits)
qed

lemma wf_replace_room_roster:
  assumes "wf_db (db s)"
  shows "wf_db (db (snd (replace_room_roster room rs s)))"
proof -
  let ?t = "(db s)\<lparr>rooms := (if room \<in> set (rooms (db s)) then rooms (db s) else rooms (db s) @ [room]),
      room_members := filter (\<lambda>r. rm_room_id r \<noteq> room) (room_members (db s))\<rparr>"
  have "refers rm_room_id (filter (\<lambda>r. rm_room_id r \<noteq> room) (room_members (db s))) (\<lambda>r. r) (rooms (db s))"
    using assms by (auto simp: wf_defs refers_def)
  then have "wf_db ?t" using assms by (simp add: wf_defs distinct_map_filter)
  then have "wf_db (db (snd (with_connection (replace_roster_body room rs) s)))"
    using assms by (intro with_connection_keeps[where I = wf_db])
      (auto simp: replace_roster_body_def elim!: try_each_wf[rotated 2] intro: wf_inserts)
  with assms show ?thesis by (simp add: replace_room_roster_def)
qed

text \<open>The acceptance transaction: what it writes when it commits, and that it keeps the
  invariant.\<close>

lemma accept_receipt_body_Inr:
  assumes wf: "wf_db t" and ok: "accept_receipt_body r d nxt disp t = Inr t'"
  obtains b where "dl_binding_id d = Some b"
    "t' = t\<lparr>receipts := receipts t @ [receipt_row r d b disp],
           deliveries := update_where (\<lambda>x. dl_delivery_id x = dl_delivery_id d \<and> dl_state x = dl_state d)
             (\<lambda>x. x\<lparr>dl_state := nxt, dl_disposition := disp\<rparr>) (deliveries t),
           audit_log := audit_log t @
             [\<lparr>au_audit_id = Suc (length (audit_log t)), au_receipt_id = rc_receipt_id r,
               au_delivery_id = dl_delivery_id d, au_from_state = dl_state d, au_to_state = nxt,
               au_disposition = disp, au_delivery_mode = dl_delivery_mode d,
               au_session_entry =
                 (if dl_delivery_mode d = CHANNEL_NATIVE then ''not_applicable'' else ''applicable''),
               au_evidence_class = rc_evidence_class r, au_proof_method = rc_proof_method r\<rparr>]\<rparr>"
    "insert_receipt (receipt_row r d b disp) t =
       Inr (t\<lparr>receipts := receipts t @ [receipt_row r d b disp]\<rparr>)"
    "rowcount (\<lambda>x. dl_delivery_id x = dl_delivery_id d \<and> dl_state x = dl_state d) (deliveries t) = 1"
proof -
  from ok obtain b u where b: "dl_binding_id d = Some b"
      and u: "insert_receipt (receipt_row r d b disp) t = Inr u"
    by (auto simp: accept_receipt_body_def split: option.splits sum.splits)
  from u have ud: "u = t\<lparr>receipts := receipts t @ [receipt_row r d b disp]\<rparr>"
    by (simp add: insert_receipt_def split: if_splits)
  from ok have n: "rowcount (\<lambda>x. dl_delivery_id x = dl_delivery_id d \<and> dl_state x = dl_state d) (deliveries t) = 1"
    by (simp add: accept_receipt_body_def b u ud Let_def split: if_splits)
  show ?thesis
    using ok by (intro that[OF b _ u[unfolded ud] n])
      (simp add: accept_receipt_body_def b u ud n Let_def insert_audit_def split: if_splits)
qed

lemma receipt_row_simps [simp]:
  "rr_receipt_id (receipt_row r d b disp) = rc_receipt_id r"
  "rr_provider_id (receipt_row r d b disp) = rc_evidence_provider_id r"
  "rr_source_event_id (receipt_row r d b disp) = rc_source_event_id r"
  "rr_delivery_id (receipt_row r d b disp) = dl_delivery_id d"
  "rr_evidence_class (receipt_row r d b disp) = rc_evidence_class r"
  by (simp_all add: receipt_row_def split: prod.splits)

lemma wf_accept_receipt_body:
  assumes "wf_db t" "accept_receipt_body r d nxt disp t = Inr t'"
  shows "wf_db t'"
proof -
  from assms(2) obtain b u where b: "dl_binding_id d = Some b"
      and ins: "insert_receipt (receipt_row r d b disp) t = Inr u"
    by (auto simp: accept_receipt_body_def split: option.splits sum.splits)
  from ins have "rc_receipt_id r \<notin> rr_receipt_id ` set (receipts t)"
      "rc_evidence_provider_id r \<in> pv_provider_id ` set (providers t)"
      "dl_delivery_id d \<in> dl_delivery_id ` set (deliveries t)"
      "sources_ok (receipts t @ [receipt_row r d b disp])"
    using assms(1) sources_ok_append[of "receipts t" "receipt_row r d b disp"]
    by (auto simp: insert_receipt_def provider_known_def delivery_known_def wf_db_def
        simp del: not_None_eq split: if_splits)
  with assms(1) show ?thesis
    by - (rule accept_receipt_body_Inr[OF assms],
      simp add: b wf_defs update_where_map_key image_update_where logs_ok_def)
qed

lemma wf_accept_receipt: "wf_db (db s) \<Longrightarrow> wf_db (db (snd (accept_receipt r d nxt disp s)))"
  unfolding accept_receipt_def by (rule with_connection_keeps) (auto intro: wf_accept_receipt_body)

text \<open>When the validated delivery is still current and no key is taken, acceptance commits.\<close>

lemma rowcount_current:
  assumes "wf_db t" "get_delivery t i = Some d"
  shows "rowcount (\<lambda>x. dl_delivery_id x = dl_delivery_id d \<and> dl_state x = dl_state d) (deliveries t) = 1"
proof -
  have "d \<in> set (deliveries t)" "distinct (map dl_delivery_id (deliveries t))"
    using assms by (auto simp: get_delivery_def wf_defs dest: fetchone_SomeD)
  then show ?thesis by (simp add: rowcount_key fetchone_key)
qed

lemma accept_receipt_body_commits:
  assumes wf: "wf_db t" and d: "get_delivery t i = Some d" and b: "dl_binding_id d = Some b"
    and p: "provider t (rc_evidence_provider_id r) = Some prov"
    and fresh: "receipt_record t (rc_receipt_id r) = None"
    and src: "\<And>e. rc_source_event_id r = Some e \<Longrightarrow> \<not> source_seen t (rc_evidence_provider_id r) e"
  shows "\<exists>t'. accept_receipt_body r d nxt disp t = Inr t'"
proof -
  have dk: "dl_delivery_id d \<in> dl_delivery_id ` set (deliveries t)"
    using d by (auto simp: get_delivery_def dest: fetchone_SomeD)
  have pk: "rc_evidence_provider_id r \<in> pv_provider_id ` set (providers t)"
    using fetchone_SomeD[OF p[unfolded provider_def]] by force
  have rk: "rc_receipt_id r \<notin> rr_receipt_id ` set (receipts t)"
    using fresh by (auto simp: receipt_record_def fetchone_None_iff)
  have sk: "\<not> (\<exists>x \<in> set (receipts t). rc_source_event_id r \<noteq> None
        \<and> rr_provider_id x = rc_evidence_provider_id r \<and> rr_source_event_id x = rc_source_event_id r)"
    using src by (fastforce simp: source_seen_def fetchone_None_iff)
  have ak: "rc_receipt_id r \<notin> au_receipt_id ` set (audit_log t)"
    using wf rk by (metis logs_ok_def set_map wf_db_def)
  show ?thesis
    using dk pk rk sk ak rowcount_current[OF wf d]
    by (simp add: accept_receipt_body_def b insert_receipt_def provider_known_def delivery_known_def
        insert_audit_def image_update_where del: not_None_eq)
qed

section \<open>A failed operation changes no table\<close>

lemma execute_commit_Inl: "fst (execute_commit stmt s) = Inl e \<Longrightarrow> db (snd (execute_commit stmt s)) = db s"
  by (auto simp: execute_commit_def split: sum.splits)

lemma with_connection_Inl: "fst (with_connection b s) = Inl e \<Longrightarrow> db (snd (with_connection b s)) = db s"
  by (auto simp: with_connection_def split: sum.splits)

lemma set_dispatching_result:
  assumes "wf_db (db s)"
  shows "set_dispatching i s =
    (case get_delivery (db s) i of
       Some d \<Rightarrow> if dl_state d = QUEUED
         then (Inr (), \<lparr>db = (db s)\<lparr>deliveries := update_where (\<lambda>x. dl_delivery_id x = i)
                 (\<lambda>x. x\<lparr>dl_state := DISPATCHING\<rparr>) (deliveries (db s))\<rparr>, in_transaction = False\<rparr>)
         else (Inl (ValueError ''delivery_not_queued''), s\<lparr>in_transaction := True\<rparr>)
     | None \<Rightarrow> (Inl (ValueError ''delivery_not_queued''), s\<lparr>in_transaction := True\<rparr>))"
proof -
  let ?P = "\<lambda>d. dl_delivery_id d = i \<and> dl_state d = QUEUED"
  have dist: "distinct (map dl_delivery_id (deliveries (db s)))" using assms by (simp add: wf_defs)
  have rc: "rowcount ?P (deliveries (db s)) =
      (case get_delivery (db s) i of None \<Rightarrow> 0 | Some d \<Rightarrow> of_bool (dl_state d = QUEUED))"
    using rowcount_key[OF dist, of i "\<lambda>d. dl_state d = QUEUED"] by (simp add: get_delivery_def)
  have same: "update_where ?P f (deliveries (db s)) = update_where (\<lambda>x. dl_delivery_id x = i) f (deliveries (db s))"
    if "get_delivery (db s) i = Some d" "dl_state d = QUEUED" for d f
    using that dist by (auto simp: update_where_def get_delivery_def fetchone_key_iff
        dest!: fetchone_SomeD intro!: map_cong) (metis distinct_map inj_onD)
  show ?thesis
    by (auto simp: set_dispatching_def Let_def rc same update_where_id split: option.splits)
qed

section \<open>Registered bindings read back\<close>

text \<open>\<open>evidence_classes\<close> is stored as one comma-separated column; reading it back gives the set that
  was registered.\<close>

lemma split_on_nonempty [simp]: "split_on c w \<noteq> []"
  by (induction w) (auto split: list.splits)

lemma split_on_word: "c \<notin> set w \<Longrightarrow> split_on c w = [w]"
  by (induction w) auto

lemma split_on_sep: "c \<notin> set w \<Longrightarrow> split_on c (w @ c # r) = w # split_on c r"
  by (induction w) auto

lemma split_on_join:
  assumes "ws \<noteq> []" "\<forall>w \<in> set ws. c \<notin> set w"
  shows "split_on c (join [c] ws) = ws"
  using assms
proof (induction ws rule: list_nonempty_induct)
  case (single w)
  then show ?case by (simp add: split_on_word)
next
  case (cons w ws)
  then show ?case by (cases ws) (simp_all add: split_on_sep)
qed

lemma map_res_Inr_map: "(\<And>x. x \<in> set xs \<Longrightarrow> f x = Inr (g x)) \<Longrightarrow> map_res f xs = Inr (map g xs)"
  by (induction xs) auto

lemma finite_evidence [simp]: "finite (cs :: EvidenceClass set)"
  by (rule finite_subset[OF _ finite_set[of all_evidence]]) (auto simp: all_evidence_complete)

lemma evidence_text_parses:
  assumes "cs \<noteq> {}"
  shows "\<exists>xs. map_res evidence_of_value (split_on (CHR '','') (evidence_text cs)) = Inr xs \<and> set xs = cs"
proof -
  let ?ws = "sorted_list_of_set (evidence_value ` cs)"
  have ws: "set ?ws = evidence_value ` cs" by simp
  have "?ws \<noteq> []" using ws assms by (metis empty_set image_is_empty)
  moreover have "\<forall>w \<in> set ?ws. CHR '','' \<notin> set w" using evidence_value_no_comma by auto
  ultimately have split: "split_on (CHR '','') (evidence_text cs) = ?ws"
    unfolding evidence_text_def by (rule split_on_join)
  have "map_res evidence_of_value ?ws = Inr (map (inv evidence_value) ?ws)"
    using ws by (intro map_res_Inr_map) (auto simp: inv_f_f[OF inj_evidence_value])
  moreover have "set (map (inv evidence_value) ?ws) = cs"
    by (simp add: image_image inv_f_f[OF inj_evidence_value])
  ultimately show ?thesis using split by auto
qed

lemma insert_session_binding_Inr:
  assumes "insert_session_binding b t = Inr t'"
  shows "t' = t\<lparr>session_bindings := session_bindings t @ [binding_row b],
                binding_proof_methods := binding_proof_methods t @
                  map (method_row (sb_binding_id b)) (sb_proof_methods b)\<rparr>"
proof -
  from assms obtain u where u: "insert_binding (binding_row b) t = Inr u"
      "try_each (\<lambda>v m. insert_method (method_row (sb_binding_id b) m) v) u (sb_proof_methods b) = Inr t'"
    by (auto simp: insert_session_binding_def split: sum.splits)
  with binding_table.insert_Inr[OF u(1)] method_table.insert_many[OF u(2)] show ?thesis by simp
qed

text \<open>Every stored binding has a valid interval and every stored method a readable evidence set.\<close>

definition binding_row_ok :: "BindingRow \<Rightarrow> bool" where
  "binding_row_ok r \<longleftrightarrow> (\<exists>est ex. parse_timestamp (sr_established_at r) = Inr est \<and>
     parse_timestamp (sr_expires_at r) = Inr ex \<and> est < ex)"

definition method_row_ok :: "ProofMethodRow \<Rightarrow> bool" where
  "method_row_ok m \<longleftrightarrow> (\<exists>cs. cs \<noteq> {} \<and> pr_evidence_classes m = evidence_text cs)"

definition bindings_ok :: "core_db \<Rightarrow> bool" where
  "bindings_ok t \<longleftrightarrow>
     list_all binding_row_ok (session_bindings t) \<and> list_all method_row_ok (binding_proof_methods t)"

lemma bindings_ok_empty [simp]: "bindings_ok empty_db"
  by (simp add: bindings_ok_def empty_db_def)

lemma bindings_ok_same:
  "bindings_ok t \<Longrightarrow> session_bindings t' = session_bindings t \<Longrightarrow>
     binding_proof_methods t' = binding_proof_methods t \<Longrightarrow> bindings_ok t'"
  by (simp add: bindings_ok_def)

lemma validate_methods_nonempty:
  "validate_methods t p ms = Inr u \<Longrightarrow> m \<in> set ms \<Longrightarrow> pm_evidence_classes m \<noteq> {}"
  by (induction ms) (auto split: if_splits)

lemma validated_binding:
  assumes "validate_session_binding t b = Inr u"
  shows "sb_state b = ACTIVE" "binding_row_ok (binding_row b)"
    "m \<in> set (sb_proof_methods b) \<Longrightarrow> method_row_ok (method_row i m)"
    "distinct (map pm_proof_method (sb_proof_methods b))"
    "validate_methods t (sb_provider_id b) (sb_proof_methods b) = Inr u"
    "sb_proof_methods b \<noteq> []"
proof -
  show "sb_state b = ACTIVE" and "distinct (map pm_proof_method (sb_proof_methods b))"
    and meth: "validate_methods t (sb_provider_id b) (sb_proof_methods b) = Inr u"
    and "sb_proof_methods b \<noteq> []"
    using assms by (auto simp: validate_session_binding_def split: if_splits sum.splits)
  show "binding_row_ok (binding_row b)"
    using assms by (auto simp: validate_session_binding_def binding_row_ok_def binding_row_def
        not_le split: if_splits sum.splits)
  show "method_row_ok (method_row i m)" if "m \<in> set (sb_proof_methods b)"
    using validate_methods_nonempty[OF meth that] by (auto simp: method_row_ok_def method_row_def)
qed

lemma bindings_ok_insert:
  assumes "bindings_ok t" "validate_session_binding t0 b = Inr u" "insert_session_binding b t = Inr t'"
  shows "bindings_ok t'"
  using assms(1) validated_binding[OF assms(2)] insert_session_binding_Inr[OF assms(3)]
  by (auto simp: bindings_ok_def list_all_iff)

lemma binding_row_ok_state [simp]: "binding_row_ok (r\<lparr>sr_state := st\<rparr>) = binding_row_ok r"
  by (simp add: binding_row_ok_def)

lemma bindings_ok_retire:
  "bindings_ok t \<Longrightarrow>
     bindings_ok (t\<lparr>session_bindings := update_where P (\<lambda>r. r\<lparr>sr_state := st\<rparr>) (session_bindings t)\<rparr>)"
  by (auto simp: bindings_ok_def list_all_iff update_where_def)

lemma bindings_ok_register_session_binding:
  assumes "bindings_ok (db s)"
  shows "bindings_ok (db (snd (register_session_binding b s)))"
proof (cases "validate_session_binding (db s) b")
  case (Inr u)
  have "bindings_ok (db (snd (with_connection (insert_session_binding b) s)))"
    using assms by (intro with_connection_keeps[where I = bindings_ok]) (auto intro: bindings_ok_insert[OF _ Inr])
  with Inr show ?thesis by (simp add: snd_register_session_binding)
qed (simp add: snd_register_session_binding assms)

lemma bindings_ok_supersede_session_binding:
  assumes "bindings_ok (db s)"
  shows "bindings_ok (db (snd (supersede_session_binding old b s)))"
proof (cases "validate_session_binding (db s) b")
  case (Inr u)
  have "bindings_ok (db (snd (with_connection (supersede_body old b) s)))"
    using assms by (intro with_connection_keeps[where I = bindings_ok])
      (auto simp: supersede_body_def intro: bindings_ok_insert[OF _ Inr] bindings_ok_retire)
  with assms Inr show ?thesis by (auto simp: supersede_session_binding_def split: option.splits)
qed (auto simp: supersede_session_binding_def assms split: option.splits)

lemma bindings_ok_revoke_session_binding:
  "bindings_ok (db s) \<Longrightarrow> bindings_ok (db (snd (revoke_session_binding i s)))"
  by (simp add: revoke_session_binding_def Let_def bindings_ok_retire)

lemma binding_proof_method_total:
  assumes "bindings_ok t"
  shows "\<exists>v. binding_proof_method t i m = Inr v"
proof (cases "fetchone (\<lambda>r. pr_binding_id r = i \<and> pr_proof_method r = m) (binding_proof_methods t)")
  case (Some row)
  then have "method_row_ok row" using assms by (auto simp: bindings_ok_def list_all_iff dest: fetchone_SomeD)
  then obtain xs where "map_res evidence_of_value (split_on (CHR '','') (pr_evidence_classes row)) = Inr xs"
    unfolding method_row_ok_def using evidence_text_parses by metis
  with Some show ?thesis by (simp add: binding_proof_method_def)
qed (simp add: binding_proof_method_def)

lemma active_session_binding_for_total:
  assumes "bindings_ok t" "parse_timestamp ob = Inr v"
  shows "\<exists>b. active_session_binding_for t recipient (Some ob) = Inr b"
proof (cases "fetchone (\<lambda>r. sr_recipient_id r = recipient \<and> sr_state r = ACTIVE) (session_bindings t)")
  case (Some row)
  then have "binding_row_ok row" using assms by (auto simp: bindings_ok_def list_all_iff dest: fetchone_SomeD)
  with Some assms(2) show ?thesis by (auto simp: active_session_binding_for_def binding_row_ok_def)
qed (simp add: active_session_binding_for_def)

text \<open>A registration is readable as it was made, and a registered binding is the active one.\<close>

lemma fetchone_new_method:
  assumes "distinct (map method_key (rows @ map (method_row i) ms))" "m \<in> set ms"
  shows "fetchone (\<lambda>r. pr_binding_id r = i \<and> pr_proof_method r = pm_proof_method m) (rows @ map (method_row i) ms) =
    Some (method_row i m)"
proof -
  have "(\<lambda>r. pr_binding_id r = i \<and> pr_proof_method r = pm_proof_method m) =
      (\<lambda>r. method_key r = method_key (method_row i m))"
    by (auto simp: method_key_def method_row_def fun_eq_iff)
  moreover have "method_row i m \<in> set (rows @ map (method_row i) ms)" using assms(2) by simp
  ultimately show ?thesis using fetchone_key[OF assms(1)] by simp
qed

lemma registered_method_reads_back:
  assumes wf: "wf_db t" and v: "validate_session_binding t0 b = Inr u"
    and ins: "insert_session_binding b t = Inr t'" and m: "m \<in> set (sb_proof_methods b)"
  shows "binding_proof_method t' (sb_binding_id b) (pm_proof_method m) = Inr (Some m)"
proof -
  have t': "binding_proof_methods t' = binding_proof_methods t @ map (method_row (sb_binding_id b)) (sb_proof_methods b)"
    using insert_session_binding_Inr[OF ins] by simp
  have "wf_db t'" using wf ins by (rule wf_insert_session_binding)
  then have "distinct (map method_key (binding_proof_methods t'))" by (simp add: wf_defs)
  from fetchone_new_method[OF this[unfolded t'] m]
  have f: "fetchone (\<lambda>r. pr_binding_id r = sb_binding_id b \<and> pr_proof_method r = pm_proof_method m)
      (binding_proof_methods t') = Some (method_row (sb_binding_id b) m)"
    by (simp only: t')
  have "pm_evidence_classes m \<noteq> {}"
    using validated_binding(5)[OF v] m by (rule validate_methods_nonempty)
  from evidence_text_parses[OF this] show ?thesis
    by (auto simp: binding_proof_method_def f method_row_def)
qed

lemma active_binding_unique:
  assumes "wf_db t" "x \<in> set (session_bindings t)" "sr_state x = ACTIVE"
  shows "active_session_binding_for t (sr_recipient_id x) None = Inr (Some x)"
proof -
  obtain y where y: "fetchone (\<lambda>r. sr_recipient_id r = sr_recipient_id x \<and> sr_state r = ACTIVE)
      (session_bindings t) = Some y"
    using assms(2,3) by (cases "fetchone (\<lambda>r. sr_recipient_id r = sr_recipient_id x \<and> sr_state r = ACTIVE)
      (session_bindings t)") (auto simp: fetchone_None_iff)
  from fetchone_SomeD[OF y] have "y \<in> set (session_bindings t)" "sr_recipient_id y = sr_recipient_id x"
      "sr_state y = ACTIVE"
    by auto
  with assms have "y = x" unfolding wf_db_def one_active_def by blast
  with y show ?thesis by (simp add: active_session_binding_for_def)
qed

section \<open>Rosters read back\<close>

lemma map_roster_rows:
  "map rm_recipient_id (roster_rows room rs) = rs"
  "map rm_roster_ordinal (roster_rows room rs) = [0..<length rs]"
  by (simp_all add: roster_rows_def o_def case_prod_unfold map_snd_enumerate map_fst_enumerate
      flip: snd_def fst_def)

lemma roster_rows_room: "r \<in> set (roster_rows room rs) \<Longrightarrow> rm_room_id r = room"
  by (auto simp: roster_rows_def)

lemma insert_members_commit:
  assumes "room \<in> set (rooms t)" "distinct (map rm_recipient_id xs)" "distinct (map rm_roster_ordinal xs)"
    and "\<forall>r \<in> set xs. rm_room_id r = room"
    and "\<forall>r \<in> set xs. \<forall>x \<in> set (room_members t). rm_room_id x = room \<longrightarrow>
      rm_recipient_id x \<noteq> rm_recipient_id r \<and> rm_roster_ordinal x \<noteq> rm_roster_ordinal r"
  shows "\<exists>t'. try_each (\<lambda>u r. insert_member r u) t xs = Inr t'"
  using assms
proof (induction xs arbitrary: t)
  case (Cons r xs)
  have r: "rm_room_id r = room" using Cons.prems(4) by simp
  have clash: "rm_recipient_id x \<noteq> rm_recipient_id r \<and> rm_roster_ordinal x \<noteq> rm_roster_ordinal r"
    if "x \<in> set (room_members t)" "rm_room_id x = room" for x
    using Cons.prems(5) that by simp
  have "member_key r \<notin> member_key ` set (room_members t)"
  proof
    assume "member_key r \<in> member_key ` set (room_members t)"
    then obtain x where "x \<in> set (room_members t)" "member_key x = member_key r" by auto
    with clash[of x] r show False by (simp add: member_key_def)
  qed
  moreover have "\<not> (\<exists>x \<in> set (room_members t). rm_room_id x = rm_room_id r \<and>
      rm_roster_ordinal x = rm_roster_ordinal r)"
    using clash r by metis
  ultimately have "insert_member r t = Inr (t\<lparr>room_members := room_members t @ [r]\<rparr>)"
    using Cons.prems(1) r by (simp add: insert_member_def)
  moreover have "\<exists>t'. try_each (\<lambda>u r. insert_member r u) (t\<lparr>room_members := room_members t @ [r]\<rparr>) xs = Inr t'"
    using Cons.prems by (intro Cons.IH) auto
  ultimately show ?case by simp
qed simp

lemma replace_room_roster_commits:
  assumes "room \<noteq> []" "rs \<noteq> []" "[] \<notin> set rs" "distinct rs"
  shows "replace_room_roster room rs s = (Inr (), \<lparr>db = (db s)
    \<lparr>rooms := (if room \<in> set (rooms (db s)) then rooms (db s) else rooms (db s) @ [room]),
     room_members := filter (\<lambda>r. rm_room_id r \<noteq> room) (room_members (db s)) @ roster_rows room rs\<rparr>,
    in_transaction = False\<rparr>)"
proof -
  let ?t = "(db s)\<lparr>rooms := (if room \<in> set (rooms (db s)) then rooms (db s) else rooms (db s) @ [room]),
      room_members := filter (\<lambda>r. rm_room_id r \<noteq> room) (room_members (db s))\<rparr>"
  have "room \<in> set (rooms ?t)" by simp
  from insert_members_commit[OF this, of "roster_rows room rs"] assms(4)
  obtain t' where t': "try_each (\<lambda>u r. insert_member r u) ?t (roster_rows room rs) = Inr t'"
    by (auto simp: map_roster_rows roster_rows_room)
  from member_table.insert_many[where f = "\<lambda>r. r", OF t'] t' show ?thesis
    using assms by (simp add: replace_room_roster_def with_connection_def replace_roster_body_def)
qed

text \<open>Replacing the roster of a room with distinct, non-empty names always succeeds; the roster
  then reads back in the order given, and the roster of every other room is unchanged.\<close>

theorem replace_room_roster_reads_back:
  assumes "room \<noteq> []" "rs \<noteq> []" "[] \<notin> set rs" "distinct rs"
  shows "fst (replace_room_roster room rs s) = Inr () \<and>
    room_roster (db (snd (replace_room_roster room rs s))) other =
      (if other = room then rs else room_roster (db s) other)"
proof -
  have rows: "filter (\<lambda>r. rm_room_id r = other) (roster_rows room rs) =
      (if other = room then roster_rows room rs else [])"
    using roster_rows_room[of _ room rs] by (auto simp: filter_id_conv filter_empty_conv)
  have sorted: "sort_key rm_roster_ordinal (roster_rows room rs) = roster_rows room rs"
    by (rule sort_key_id_if_sorted) (simp add: map_roster_rows)
  have old: "filter (\<lambda>r. rm_room_id r = other) (filter (\<lambda>r. rm_room_id r \<noteq> room) (room_members (db s))) =
      (if other = room then [] else filter (\<lambda>r. rm_room_id r = other) (room_members (db s)))"
    by (auto simp: filter_empty_conv intro: filter_cong)
  show ?thesis
    unfolding replace_room_roster_commits[OF assms]
    by (simp add: room_roster_def rows sorted old map_roster_rows del: filter_filter)
qed

text \<open>An instance.\<close>

theorem replace_room_roster_reads_back_witness:
  "fst (replace_room_roster ''ops'' [''ana'', ''bo''] new_store) = Inr () \<and>
   room_roster (db (snd (replace_room_roster ''ops'' [''ana'', ''bo''] new_store))) ''ops'' = [''ana'', ''bo'']"
  using replace_room_roster_reads_back[of "''ops''" "[''ana'', ''bo'']" new_store "''ops''"] by simp

text \<open>C19: Registering a validated binding either conflicts, leaving every table unchanged, or makes
  it the recipient's active binding with each of its proof methods reading back exactly as registered.\<close>

theorem register_session_binding_reads_back:
  assumes wf: "wf_db (db s)" and v: "validate_session_binding (db s) b = Inr ()"
  shows "case register_session_binding b s of
      (Inl e, s') \<Rightarrow> e = BindingConflictError (''active binding conflict for recipient '' @ sb_recipient_id b)
        \<and> db s' = db s
    | (Inr _, s') \<Rightarrow> active_session_binding_for (db s') (sb_recipient_id b) None = Inr (Some (binding_row b))
        \<and> (\<forall>m \<in> set (sb_proof_methods b).
             binding_proof_method (db s') (sb_binding_id b) (pm_proof_method m) = Inr (Some m))"
proof (cases "insert_session_binding b (db s)")
  case (Inl e)
  have "try_each (\<lambda>v m. insert_method (method_row (sb_binding_id b) m) v) u ms = Inl e \<Longrightarrow> e = IntegrityError"
    for u ms by (induction ms arbitrary: u) (auto split: sum.splits dest: method_table.insert_Inl)
  with Inl have "e = IntegrityError"
    by (auto simp: insert_session_binding_def split: sum.splits dest: binding_table.insert_Inl)
  with Inl v show ?thesis by (simp add: register_session_binding_def with_connection_def)
next
  case (Inr t)
  have "binding_row b \<in> set (session_bindings t)" using insert_session_binding_Inr[OF Inr] by simp
  moreover have "sr_state (binding_row b) = ACTIVE" "sr_recipient_id (binding_row b) = sb_recipient_id b"
    using validated_binding(1)[OF v] by (simp_all add: binding_row_def)
  ultimately have "active_session_binding_for t (sb_recipient_id b) None = Inr (Some (binding_row b))"
    using active_binding_unique[OF wf_insert_session_binding[OF wf Inr], of "binding_row b"] by simp
  with Inr v registered_method_reads_back[OF wf v Inr] show ?thesis
    by (simp add: register_session_binding_def with_connection_def)
qed

text \<open>Concrete values for the witnesses: a session transport and a binding of one seat to it.\<close>

definition example_store :: core_store where
  "example_store = snd (register_provider ''cmux'' SESSION_TRANSPORT
     [TRANSPORT_SUBMIT_ACK, HARNESS_PROMPT_ACCEPTED, HARNESS_TURN_COMPLETED] new_store)"

definition example_method :: ProofMethodRegistration where
  "example_method =
     \<lparr>pm_proof_method = ''cmux-chain'', pm_source_kind = EVENT_BUS, pm_source_instance_id = ''host-1'',
      pm_correlation_rule = CMUX_HARNESS_CHAIN,
      pm_evidence_classes = {HARNESS_PROMPT_ACCEPTED, HARNESS_TURN_COMPLETED}\<rparr>"

definition example_binding :: "string \<Rightarrow> SessionBinding" where
  "example_binding i =
     \<lparr>sb_binding_id = i, sb_recipient_id = ''ana'', sb_provider_id = ''cmux'',
      sb_adapter_instance_id = ''adapter'', sb_harness = ''claude'', sb_session_id = ''session-1'',
      sb_established_at = ''2026-07-01T00:00:00Z'', sb_expires_at = ''2026-07-02T00:00:00Z'',
      sb_proof_methods = [example_method], sb_state = ACTIVE\<rparr>"

lemma wf_example_store: "wf_db (db example_store)"
  unfolding example_store_def by (rule wf_register_provider) (simp add: new_store_def)

lemma example_binding_valid: "validate_session_binding (db example_store) (example_binding ''b1'') = Inr ()"
  by code_simp

text \<open>Witness of C19.\<close>

theorem register_session_binding_reads_back_witness:
  "binding_proof_method (db (snd (register_session_binding (example_binding ''b1'') example_store)))
     ''b1'' ''cmux-chain'' = Inr (Some example_method)"
proof -
  have ok: "\<not> isl (fst (register_session_binding (example_binding ''b1'') example_store))"
    by code_simp
  have "example_method \<in> set (sb_proof_methods (example_binding ''b1''))" by (simp add: example_binding_def)
  with register_session_binding_reads_back[OF wf_example_store example_binding_valid] ok show ?thesis
    by (auto simp: example_binding_def example_method_def split: prod.splits sum.splits)
qed

text \<open>Superseding a binding is atomic: on an error no table changes; on success the old binding
  is superseded and the replacement is the recipient's active binding.\<close>

theorem supersede_session_binding_atomic:
  assumes wf: "wf_db (db s)"
  shows "case supersede_session_binding old b s of
      (Inl e, s') \<Rightarrow> db s' = db s
    | (Inr _, s') \<Rightarrow> map_option sr_state (session_binding (db s') old) = Some SUPERSEDED
        \<and> active_session_binding_for (db s') (sb_recipient_id b) None = Inr (Some (binding_row b))"
proof -
  let ?t = "(db s)\<lparr>session_bindings := update_where (\<lambda>r. sr_binding_id r = old)
      (\<lambda>r. r\<lparr>sr_state := SUPERSEDED\<rparr>) (session_bindings (db s))\<rparr>"
  have retired: "map_option sr_state (session_binding t old) = Some SUPERSEDED \<and>
      active_session_binding_for t (sb_recipient_id b) None = Inr (Some (binding_row b))"
    if old: "session_binding (db s) old = Some row" and v: "validate_session_binding (db s) b = Inr u"
      and ins: "insert_session_binding b ?t = Inr t" for row u t
  proof -
    have wft: "wf_db ?t" using wf by (simp add: wf_retire_bindings)
    have rows: "session_bindings t = session_bindings ?t @ [binding_row b]"
      using insert_session_binding_Inr[OF ins] by simp
    have "distinct (map sr_binding_id (session_bindings (db s)))" using wf by (simp add: wf_defs)
    from fetchone_update_where_key[OF this, of "\<lambda>r. r\<lparr>sr_state := SUPERSEDED\<rparr>" old old "\<lambda>_. True"] old
    have "session_binding t old = Some (row\<lparr>sr_state := SUPERSEDED\<rparr>)"
      by (simp add: session_binding_def rows fetchone_append)
    moreover have "binding_row b \<in> set (session_bindings t)" by (simp add: rows)
    ultimately show ?thesis
      using active_binding_unique[OF wf_insert_session_binding[OF wft ins], of "binding_row b"]
        validated_binding(1)[OF v]
      by (simp add: binding_row_def)
  qed
  show ?thesis
    by (auto simp: supersede_session_binding_def with_connection_def supersede_body_def
        split: option.splits sum.splits if_splits dest: retired)
qed

text \<open>An instance.\<close>

theorem supersede_session_binding_atomic_witness:
  "active_session_binding_for
     (db (snd (supersede_session_binding ''b1'' (example_binding ''b2'')
        (snd (register_session_binding (example_binding ''b1'') example_store))))) ''ana'' None =
     Inr (Some (binding_row (example_binding ''b2'')))"
proof -
  let ?s = "snd (register_session_binding (example_binding ''b1'') example_store)"
  have "wf_db (db ?s)" by (rule wf_register_session_binding[OF wf_example_store])
  moreover have "\<not> isl (fst (supersede_session_binding ''b1'' (example_binding ''b2'') ?s))" by code_simp
  ultimately show ?thesis
    using supersede_session_binding_atomic[of ?s "''b1''" "example_binding ''b2''"]
    by (auto simp: example_binding_def split: prod.splits sum.splits)
qed

end
