(* ===== verification/Core_Receipts.thy ===== *)
theory Core_Receipts
  imports Core_Store_Facts
begin

text \<open>
  \<open>core/yatagarasu_core/receipts.py\<close>: the receipt reducer. \<open>submit\<close> first reads the tables and reaches a
  decision (\<open>submit_check\<close>), then carries it out (\<open>carry_out\<close>). The source does the same in one method;
  the two halves are separate definitions because another connection to the same database may
  commit between them, which is what \<open>ConcurrentTransitionError\<close> and
  \<open>_recover_integrity_collision\<close> are for.
\<close>

section \<open>Decisions\<close>

definition PARTICIPANT_EVIDENCE :: "EvidenceClass list" where
  "PARTICIPANT_EVIDENCE = [PARTICIPANT_REPLY_AUTHORED, PARTICIPANT_REACTION_AUTHORED]"

definition SESSION_PROOF_EVIDENCE :: "EvidenceClass list" where
  "SESSION_PROOF_EVIDENCE = [HARNESS_PROMPT_ACCEPTED, HARNESS_TURN_STARTED, HARNESS_TURN_COMPLETED]"

text \<open>What \<open>submit\<close> is about to do: propagate an exception, answer without writing, reject with a
  reason, reject a contradiction (which also degrades the provider), or accept.\<close>

datatype decision =
    Raise py_exc
  | Answer ReceiptResult
  | Reject string
  | Contradict
  | Accept Delivery DeliveryState "Disposition option"

definition canonical_disposition :: "Receipt \<Rightarrow> Disposition option" where
  "canonical_disposition r =
     (if rc_disposition r \<noteq> None then rc_disposition r
      else if rc_evidence_class r = PARTICIPANT_REPLY_AUTHORED then Some ANSWERED
      else if rc_evidence_class r = HARNESS_TURN_COMPLETED then Some COMPLETED
      else None)"

definition same_receipt :: "ReceiptRow \<Rightarrow> Receipt \<Rightarrow> bool" where
  "same_receipt x r =
     (case proof_storage_fields (rc_proof r) of (session, signature, chain, turn) \<Rightarrow>
        rr_provider_id x = rc_evidence_provider_id r
        \<and> rr_source_event_id x = rc_source_event_id r
        \<and> rr_event_id x = rc_event_id r
        \<and> rr_delivery_id x = rc_delivery_id r
        \<and> rr_attempt_id x = rc_attempt_id r
        \<and> rr_binding_id x = rc_binding_id r
        \<and> rr_evidence_class x = rc_evidence_class r
        \<and> rr_proof_method x = rc_proof_method r
        \<and> rr_observed_at x = rc_observed_at r
        \<and> rr_disposition x = canonical_disposition r
        \<and> rr_platform_principal_id x = rc_platform_principal_id r
        \<and> rr_platform_message_id x = rc_platform_message_id r
        \<and> rr_authored_by_provider x = rc_authored_by_provider r
        \<and> rr_infrastructure_event x = rc_infrastructure_event r
        \<and> rr_session_id x = session
        \<and> rr_marker_signature x = signature
        \<and> rr_source_event_chain x = chain
        \<and> rr_turn_id x = turn)"

text \<open>\<open>_existing_receipt_result\<close>, up to the writes of its contradiction branch.\<close>

definition existing_check :: "Receipt \<Rightarrow> core_db \<Rightarrow> decision option" where
  "existing_check r t =
     (case receipt_record t (rc_receipt_id r) of
        None \<Rightarrow> None
      | Some x \<Rightarrow>
        if \<not> same_receipt x r then Some Contradict
        else (case get_delivery t (rc_delivery_id r) of
                None \<Rightarrow> Some (Answer \<lparr>rs_status = ''duplicate'', rs_reason = None, rs_state = None,
                                      rs_disposition = None\<rparr>)
              | Some d \<Rightarrow> Some (Answer \<lparr>rs_status = ''duplicate'', rs_reason = None,
                                  rs_state = Some (dl_state d), rs_disposition = dl_disposition d\<rparr>)))"

definition validate_keys :: "Receipt \<Rightarrow> Delivery \<Rightarrow> string option" where
  "validate_keys r d =
     (if rc_event_id r \<noteq> dl_event_id d then Some ''event_mismatch''
      else if rc_attempt_id r \<noteq> dl_attempt_id d then Some ''attempt_mismatch''
      else if Some (rc_binding_id r) \<noteq> dl_binding_id d then Some ''binding_mismatch''
      else None)"

definition validate_participant :: "core_db \<Rightarrow> Receipt \<Rightarrow> Delivery \<Rightarrow> ProviderKind \<Rightarrow> string option" where
  "validate_participant t r d kind =
     (if dl_delivery_mode d \<noteq> CHANNEL_NATIVE then Some ''evidence_class_wrong_delivery_mode''
      else if kind \<noteq> COMMS_VIEW then Some ''provider_kind_not_comms_view''
      else if dl_state d \<noteq> TRANSPORT_SUBMITTED then Some ''invalid_transition''
      else if rc_authored_by_provider r \<or> rc_infrastructure_event r
        then Some ''self_echo_or_infrastructure_event''
      else if \<not> truthy (rc_source_event_id r) then Some ''source_event_id_required''
      else if source_seen t (rc_evidence_provider_id r) (the (rc_source_event_id r))
        then Some ''source_event_replayed''
      else if \<not> truthy (rc_platform_principal_id r)
              \<or> \<not> principal_matches t (rc_evidence_provider_id r) (the (rc_platform_principal_id r))
                    (dl_recipient_id d)
        then Some ''principal_mismatch''
      else if \<not> truthy (rc_platform_message_id r)
              \<or> \<not> message_binding_matches t (rc_evidence_provider_id r)
                    (the (rc_platform_message_id r)) d
        then Some ''platform_message_binding_mismatch''
      else None)"

text \<open>\<open>_transition\<close>: a rejection reason, or the next state with its disposition.\<close>

definition transition ::
  "core_db \<Rightarrow> Receipt \<Rightarrow> Delivery \<Rightarrow> ProviderKind \<Rightarrow> string + (DeliveryState \<times> Disposition option)" where
  "transition t r d kind =
     (case rc_evidence_class r of
        TRANSPORT_SUBMIT_ACK \<Rightarrow>
          if dl_state d \<noteq> DISPATCHING then Inl ''invalid_transition''
          else if rc_disposition r \<noteq> None then Inl ''disposition_not_allowed''
          else if dl_delivery_mode d = CHANNEL_NATIVE then
            (if kind \<noteq> COMMS_VIEW then Inl ''provider_kind_not_comms_view''
             else if \<not> truthy (rc_platform_message_id r)
                     \<or> \<not> message_binding_matches t (rc_evidence_provider_id r)
                           (the (rc_platform_message_id r)) d
               then Inl ''platform_message_binding_mismatch''
             else Inr (TRANSPORT_SUBMITTED, None))
          else if kind \<noteq> SESSION_TRANSPORT then Inl ''provider_kind_not_session_transport''
          else Inr (TRANSPORT_SUBMITTED, None)
      | HARNESS_TURN_COMPLETED \<Rightarrow>
          if dl_delivery_mode d \<noteq> SESSION_BOUND then Inl ''evidence_class_wrong_delivery_mode''
          else if kind \<noteq> SESSION_TRANSPORT then Inl ''provider_kind_not_session_transport''
          else if dl_state d \<noteq> IN_SESSION then Inl ''invalid_transition''
          else if rc_disposition r \<notin> {None, Some COMPLETED} then Inl ''disposition_overclaim''
          else Inr (PROCESSED, Some COMPLETED)
      | PARTICIPANT_REPLY_AUTHORED \<Rightarrow>
          if rc_disposition r \<notin> {None, Some ANSWERED} then Inl ''disposition_overclaim''
          else Inr (PROCESSED, Some ANSWERED)
      | PARTICIPANT_REACTION_AUTHORED \<Rightarrow>
          if rc_disposition r \<notin> {Some ACKNOWLEDGED, Some HELD} then Inl ''reaction_disposition_invalid''
          else Inr (PROCESSED, rc_disposition r)
      | c \<Rightarrow>
          if c = HARNESS_PROMPT_ACCEPTED \<or> c = HARNESS_TURN_STARTED then
            (if dl_delivery_mode d \<noteq> SESSION_BOUND then Inl ''evidence_class_wrong_delivery_mode''
             else if kind \<noteq> SESSION_TRANSPORT then Inl ''provider_kind_not_session_transport''
             else if dl_state d \<noteq> TRANSPORT_SUBMITTED then Inl ''invalid_transition''
             else if rc_disposition r \<noteq> None then Inl ''disposition_not_allowed''
             else Inr (IN_SESSION, None))
          else Inl ''unsupported_evidence_class'')"

text \<open>\<open>_validate_session_receipt\<close>. The three timestamps are parsed in one \<open>try\<close> whose handler
  catches \<open>ValueError\<close>, the only exception class \<open>parse_timestamp\<close> raises.\<close>

definition validate_session_receipt ::
  "MarkerAuthority option \<Rightarrow> core_db \<Rightarrow> Receipt \<Rightarrow> Delivery \<Rightarrow> string option res" where
  "validate_session_receipt authority t r d =
     (case rc_proof r of None \<Rightarrow> Inr (Some ''session_proof_required'') | Some proof \<Rightarrow>
      case authority of None \<Rightarrow> Inr (Some ''marker_authority_unavailable'') | Some auth \<Rightarrow>
      case session_binding t (rc_binding_id r) of
        None \<Rightarrow> Inr (Some ''binding_not_registered'')
      | Some b \<Rightarrow>
        if sr_state b \<noteq> ACTIVE then Inr (Some ''binding_not_active'')
        else if sr_provider_id b \<noteq> rc_evidence_provider_id r
          then Inr (Some ''provider_not_authorized_for_binding'')
        else if sr_recipient_id b \<noteq> dl_recipient_id d
          then Inr (Some ''binding_does_not_own_recipient'')
        else (case (parse_timestamp (rc_observed_at r), parse_timestamp (sr_established_at b),
                    parse_timestamp (sr_expires_at b)) of
          (Inr observed, Inr established, Inr expires) \<Rightarrow>
            if observed < established \<or> observed \<ge> expires
              then Inr (Some ''binding_expired_or_not_yet_active'')
            else if pf_session_id proof \<noteq> sr_session_id b
              then Inr (Some ''authoritative_session_mismatch'')
            else (case binding_proof_method t (rc_binding_id r) (rc_proof_method r) of
                Inl e \<Rightarrow> Inl e
              | Inr None \<Rightarrow> Inr (Some ''proof_method_not_registered_for_binding'')
              | Inr (Some registration) \<Rightarrow>
                (case validate_session_proof proof d (rc_evidence_class r) registration auth
                        (rc_observed_at r) of
                   Inl e \<Rightarrow> Inl e
                 | Inr (Some reason) \<Rightarrow> Inr (Some reason)
                 | Inr None \<Rightarrow>
                   if rc_evidence_class r = HARNESS_TURN_COMPLETED
                      \<and> session_entry_chain t (dl_delivery_id d)
                          \<noteq> Some (source_chain_json (butlast (pf_source_events proof)))
                     then Inr (Some ''turn_end_does_not_close_accepted_prompt'')
                   else if \<not> truthy (rc_source_event_id r)
                      \<or> the (rc_source_event_id r) \<noteq> se_source_event_id (last (pf_source_events proof))
                     then Inr (Some ''receipt_source_event_mismatch'')
                   else if source_seen t (rc_evidence_provider_id r) (the (rc_source_event_id r))
                     then Inr (Some ''source_event_replayed'')
                   else Inr None))
        | _ \<Rightarrow> Inr (Some ''binding_timestamp_invalid'')))"

text \<open>The tail of \<open>submit\<close> once transition and provider are known.\<close>

definition proof_check ::
  "MarkerAuthority option \<Rightarrow> core_db \<Rightarrow> Receipt \<Rightarrow> Delivery \<Rightarrow> DeliveryState \<Rightarrow> Disposition option \<Rightarrow> decision" where
  "proof_check authority t r d next_state disposition =
     (if rc_evidence_class r \<in> set SESSION_PROOF_EVIDENCE
      then (case validate_session_receipt authority t r d of
              Inl e \<Rightarrow> Raise e
            | Inr (Some reason) \<Rightarrow> Reject reason
            | Inr None \<Rightarrow> Accept d next_state disposition)
      else Accept d next_state disposition)"

definition submit_check :: "MarkerAuthority option \<Rightarrow> Receipt \<Rightarrow> core_db \<Rightarrow> decision" where
  "submit_check authority r t =
     (if rc_proof_method r = [] \<or> rc_observed_at r = [] then Reject ''audit_fields_required''
      else case existing_check r t of Some dec \<Rightarrow> dec | None \<Rightarrow>
      case get_delivery t (rc_delivery_id r) of None \<Rightarrow> Reject ''delivery_not_found'' | Some d \<Rightarrow>
      case validate_keys r d of Some reason \<Rightarrow> Reject reason | None \<Rightarrow>
      case provider t (rc_evidence_provider_id r) of None \<Rightarrow> Reject ''provider_not_registered'' | Some p \<Rightarrow>
      if \<not> provider_declares t (rc_evidence_provider_id r) (rc_evidence_class r)
        then Reject ''evidence_class_not_declared''
      else case (if rc_evidence_class r \<in> set PARTICIPANT_EVIDENCE
                 then validate_participant t r d (pv_kind p)
                 else if dl_delivery_mode d = CHANNEL_NATIVE \<and> rc_evidence_class r \<noteq> TRANSPORT_SUBMIT_ACK
                 then Some ''evidence_class_wrong_delivery_mode''
                 else None) of Some reason \<Rightarrow> Reject reason | None \<Rightarrow>
      case transition t r d (pv_kind p) of
        Inl reason \<Rightarrow> Reject reason
      | Inr (next_state, disposition) \<Rightarrow> proof_check authority t r d next_state disposition)"

section \<open>Effects\<close>

definition reject :: "string \<Rightarrow> Receipt \<Rightarrow> core_store \<Rightarrow> ReceiptResult res \<times> core_store" where
  "reject reason r s =
     (Inr \<lparr>rs_status = ''rejected'', rs_reason = Some reason, rs_state = None, rs_disposition = None\<rparr>,
      record_rejection r reason s)"

fun settle :: "decision \<Rightarrow> Receipt \<Rightarrow> core_store \<Rightarrow> ReceiptResult res \<times> core_store" where
  "settle (Raise e) r s = (Inl e, s)"
| "settle (Answer res) r s = (Inr res, s)"
| "settle (Reject reason) r s = reject reason r s"
| "settle Contradict r s =
     reject ''receipt_id_contradiction'' r (mark_provider_degraded (rc_evidence_provider_id r) s)"
| "settle (Accept d n c) r s = (Inl Unmodelled, s)"

definition existing_receipt_result ::
  "Receipt \<Rightarrow> core_store \<Rightarrow> (ReceiptResult res \<times> core_store) option" where
  "existing_receipt_result r s = map_option (\<lambda>dec. settle dec r s) (existing_check r (db s))"

definition recover_integrity_collision :: "Receipt \<Rightarrow> core_store \<Rightarrow> ReceiptResult res \<times> core_store" where
  "recover_integrity_collision r s =
     (case existing_receipt_result r s of
        Some answer \<Rightarrow> answer
      | None \<Rightarrow>
        if truthy (rc_source_event_id r)
           \<and> source_seen (db s) (rc_evidence_provider_id r) (the (rc_source_event_id r))
          then reject ''source_event_replayed'' r s
        else if get_delivery (db s) (rc_delivery_id r) = None then reject ''delivery_not_found'' r s
        else if provider (db s) (rc_evidence_provider_id r) = None
          then reject ''provider_not_registered'' r s
        else reject ''storage_integrity_error'' r s)"

definition carry_out :: "decision \<Rightarrow> Receipt \<Rightarrow> core_store \<Rightarrow> ReceiptResult res \<times> core_store" where
  "carry_out dec r s =
     (case dec of
        Accept d next_state disposition \<Rightarrow>
          (case accept_receipt r d next_state disposition s of
             (Inl ConcurrentTransitionError, s') \<Rightarrow> reject ''delivery_state_changed'' r s'
           | (Inl IntegrityError, s') \<Rightarrow> recover_integrity_collision r s'
           | (Inl e, s') \<Rightarrow> (Inl e, s')
           | (Inr _, s') \<Rightarrow>
             (Inr \<lparr>rs_status = ''accepted'', rs_reason = None, rs_state = Some next_state,
                   rs_disposition = disposition\<rparr>, s'))
      | _ \<Rightarrow> settle dec r s)"

definition submit ::
  "MarkerAuthority option \<Rightarrow> Receipt \<Rightarrow> core_store \<Rightarrow> ReceiptResult res \<times> core_store" where
  "submit authority r s = carry_out (submit_check authority r (db s)) r s"

end
