(* ===== verification/Core_Receipts_Facts.thy ===== *)
theory Core_Receipts_Facts
  imports Core_Receipts
begin

text \<open>
  What the receipt reducer promises. \<open>legal\<close> is the state machine of a delivery, \<open>admissible\<close> the
  declarative acceptance condition; the lemmas relate both to \<open>submit_check\<close> and \<open>submit\<close>.
\<close>

section \<open>The delivery state machine\<close>

inductive legal ::
  "DeliveryMode \<Rightarrow> EvidenceClass \<Rightarrow> DeliveryState \<Rightarrow> DeliveryState \<Rightarrow> Disposition option \<Rightarrow> bool" where
  submitted: "legal m TRANSPORT_SUBMIT_ACK DISPATCHING TRANSPORT_SUBMITTED None"
| entered: "c \<in> {HARNESS_PROMPT_ACCEPTED, HARNESS_TURN_STARTED} \<Longrightarrow>
    legal SESSION_BOUND c TRANSPORT_SUBMITTED IN_SESSION None"
| completed: "legal SESSION_BOUND HARNESS_TURN_COMPLETED IN_SESSION PROCESSED (Some COMPLETED)"
| replied: "legal CHANNEL_NATIVE PARTICIPANT_REPLY_AUTHORED TRANSPORT_SUBMITTED PROCESSED (Some ANSWERED)"
| reacted: "x \<in> {ACKNOWLEDGED, HELD} \<Longrightarrow>
    legal CHANNEL_NATIVE PARTICIPANT_REACTION_AUTHORED TRANSPORT_SUBMITTED PROCESSED (Some x)"

inductive_cases legal_ackE: "legal m TRANSPORT_SUBMIT_ACK a b c"
inductive_cases legal_completedE: "legal m HARNESS_TURN_COMPLETED a b c"
inductive_simps legal_simps:
  "legal m TRANSPORT_SUBMIT_ACK a b c"
  "legal m HARNESS_PROMPT_ACCEPTED a b c"
  "legal m HARNESS_TURN_STARTED a b c"
  "legal m HARNESS_TURN_COMPLETED a b c"
  "legal m SESSION_REPLY_AUTHORED a b c"
  "legal m SESSION_REACTION_AUTHORED a b c"
  "legal m SESSION_DISPOSITION_AUTHORED a b c"
  "legal m PARTICIPANT_REPLY_AUTHORED a b c"
  "legal m PARTICIPANT_REACTION_AUTHORED a b c"

lemma legal_forward: "legal m e a b c \<Longrightarrow> a < b"
  by (induction rule: legal.induct) (simp_all add: state_order)

lemma legal_never_queued: "legal m e a b c \<Longrightarrow> a \<noteq> QUEUED \<and> b \<noteq> QUEUED \<and> b \<noteq> DISPATCHING"
  by (induction rule: legal.induct) simp_all

section \<open>The acceptance condition\<close>

definition session_evidence :: "MarkerAuthority option \<Rightarrow> core_db \<Rightarrow> Receipt \<Rightarrow> Delivery \<Rightarrow> bool" where
  "session_evidence authority t r d \<longleftrightarrow>
     (\<exists>proof auth b reg names observed established expires.
        rc_proof r = Some proof \<and> authority = Some auth \<and>
        session_binding t (rc_binding_id r) = Some b \<and> sr_state b = ACTIVE \<and>
        sr_provider_id b = rc_evidence_provider_id r \<and> sr_recipient_id b = dl_recipient_id d \<and>
        sr_session_id b = pf_session_id proof \<and>
        parse_timestamp (rc_observed_at r) = Inr observed \<and>
        parse_timestamp (sr_established_at b) = Inr established \<and>
        parse_timestamp (sr_expires_at b) = Inr expires \<and>
        established \<le> observed \<and> observed < expires \<and>
        binding_proof_method t (rc_binding_id r) (rc_proof_method r) = Inr (Some reg) \<and>
        rc_evidence_class r \<in> pm_evidence_classes reg \<and> pm_source_kind reg = EVENT_BUS \<and>
        valid_marker auth (pf_marker proof) d (rc_observed_at r) \<and>
        expected_names (rc_evidence_class r) = Some names \<and> sound_chain proof d reg names \<and>
        (rc_evidence_class r = HARNESS_TURN_COMPLETED \<longrightarrow>
           session_entry_chain t (dl_delivery_id d) =
             Some (source_chain_json (butlast (pf_source_events proof)))) \<and>
        rc_source_event_id r = Some (se_source_event_id (last (pf_source_events proof))) \<and>
        se_source_event_id (last (pf_source_events proof)) \<noteq> [] \<and>
        \<not> source_seen t (rc_evidence_provider_id r) (se_source_event_id (last (pf_source_events proof))))"

definition participant_evidence :: "core_db \<Rightarrow> Receipt \<Rightarrow> Delivery \<Rightarrow> bool" where
  "participant_evidence t r d \<longleftrightarrow>
     \<not> rc_authored_by_provider r \<and> \<not> rc_infrastructure_event r \<and>
     (\<exists>source who. rc_source_event_id r = Some source \<and> source \<noteq> [] \<and>
        \<not> source_seen t (rc_evidence_provider_id r) source \<and>
        rc_platform_principal_id r = Some who \<and> who \<noteq> [] \<and>
        principal_matches t (rc_evidence_provider_id r) who (dl_recipient_id d))"

definition message_bound :: "core_db \<Rightarrow> Receipt \<Rightarrow> Delivery \<Rightarrow> bool" where
  "message_bound t r d \<longleftrightarrow>
     (\<exists>m. rc_platform_message_id r = Some m \<and> m \<noteq> [] \<and>
        message_binding_matches t (rc_evidence_provider_id r) m d)"

definition admissible ::
  "MarkerAuthority option \<Rightarrow> core_db \<Rightarrow> Receipt \<Rightarrow> Delivery \<Rightarrow> DeliveryState \<Rightarrow> Disposition option \<Rightarrow> bool" where
  "admissible authority t r d nxt disp \<longleftrightarrow>
     rc_proof_method r \<noteq> [] \<and> rc_observed_at r \<noteq> [] \<and>
     receipt_record t (rc_receipt_id r) = None \<and>
     get_delivery t (rc_delivery_id r) = Some d \<and>
     rc_event_id r = dl_event_id d \<and> rc_attempt_id r = dl_attempt_id d \<and>
     Some (rc_binding_id r) = dl_binding_id d \<and>
     (\<exists>p. provider t (rc_evidence_provider_id r) = Some p \<and>
          pv_kind p = (if dl_delivery_mode d = CHANNEL_NATIVE then COMMS_VIEW else SESSION_TRANSPORT)) \<and>
     provider_declares t (rc_evidence_provider_id r) (rc_evidence_class r) \<and>
     legal (dl_delivery_mode d) (rc_evidence_class r) (dl_state d) nxt disp \<and>
     canonical_disposition r = disp \<and>
     (dl_delivery_mode d = CHANNEL_NATIVE \<longrightarrow> message_bound t r d) \<and>
     (rc_evidence_class r \<in> set PARTICIPANT_EVIDENCE \<longrightarrow> participant_evidence t r d) \<and>
     (rc_evidence_class r \<in> set SESSION_PROOF_EVIDENCE \<longrightarrow> session_evidence authority t r d)"

lemma validate_session_receipt_None_iff:
  "validate_session_receipt authority t r d = Inr None \<longleftrightarrow> session_evidence authority t r d"
proof (cases "rc_proof r = None \<or> authority = None \<or> session_binding t (rc_binding_id r) = None")
  case True
  then show ?thesis
    by (auto simp: validate_session_receipt_def session_evidence_def split: option.split)
next
  case False
  then obtain pf auth b where 1: "rc_proof r = Some pf" "authority = Some auth"
      "session_binding t (rc_binding_id r) = Some b"
    by auto
  let ?ok = "sr_state b = ACTIVE \<and> sr_provider_id b = rc_evidence_provider_id r \<and>
    sr_recipient_id b = dl_recipient_id d \<and> pf_session_id pf = sr_session_id b"
  let ?reg = "\<exists>reg. binding_proof_method t (rc_binding_id r) (rc_proof_method r) = Inr (Some reg) \<and>
      validate_session_proof pf d (rc_evidence_class r) reg auth (rc_observed_at r) = Inr None"
  show ?thesis
  proof (cases "?ok \<and> ?reg")
    case True
    then obtain reg where reg: "binding_proof_method t (rc_binding_id r) (rc_proof_method r) = Inr (Some reg)"
        "validate_session_proof pf d (rc_evidence_class r) reg auth (rc_observed_at r) = Inr None"
      by auto
    with True reg(2)[unfolded validate_session_proof_None_iff] show ?thesis
      by (auto simp: validate_session_receipt_def session_evidence_def 1 split: sum.split)
  next
    case False
    then have "\<not> session_evidence authority t r d"
      by (auto simp: session_evidence_def 1 validate_session_proof_None_iff)
    moreover have "validate_session_receipt authority t r d \<noteq> Inr None"
    proof (cases ?ok)
      case True
      with False have "\<not> ?reg" by simp
      then show ?thesis
        by (auto simp: validate_session_receipt_def 1 split: sum.splits option.splits)
    next
      case False
      then show ?thesis
        by (auto simp: validate_session_receipt_def 1 split: sum.splits)
    qed
    ultimately show ?thesis by simp
  qed
qed

lemma not_channel_native: "(dl_delivery_mode d \<noteq> CHANNEL_NATIVE) = (dl_delivery_mode d = SESSION_BOUND)"
  by (cases "dl_delivery_mode d") simp_all

lemma message_bound_iff:
  "message_bound t r d \<longleftrightarrow> truthy (rc_platform_message_id r) \<and>
     message_binding_matches t (rc_evidence_provider_id r) (the (rc_platform_message_id r)) d"
  by (cases "rc_platform_message_id r") (auto simp: message_bound_def)

lemma participant_evidence_iff:
  "participant_evidence t r d \<longleftrightarrow>
     \<not> rc_authored_by_provider r \<and> \<not> rc_infrastructure_event r \<and> truthy (rc_source_event_id r) \<and>
     \<not> source_seen t (rc_evidence_provider_id r) (the (rc_source_event_id r)) \<and>
     truthy (rc_platform_principal_id r) \<and>
     principal_matches t (rc_evidence_provider_id r) (the (rc_platform_principal_id r)) (dl_recipient_id d)"
  by (cases "rc_source_event_id r"; cases "rc_platform_principal_id r") (auto simp: participant_evidence_def)

lemma validate_participant_None_iff:
  "validate_participant t r d kind = None \<longleftrightarrow>
     dl_delivery_mode d = CHANNEL_NATIVE \<and> kind = COMMS_VIEW \<and> dl_state d = TRANSPORT_SUBMITTED \<and>
     participant_evidence t r d \<and> message_bound t r d"
  by (auto simp: validate_participant_def participant_evidence_iff message_bound_iff)

text \<open>The guards before the proof check are exactly the state machine plus the mode's evidence.\<close>

lemma guards_iff:
  "(if rc_evidence_class r \<in> set PARTICIPANT_EVIDENCE then validate_participant t r d kind
    else if dl_delivery_mode d = CHANNEL_NATIVE \<and> rc_evidence_class r \<noteq> TRANSPORT_SUBMIT_ACK
      then Some ''evidence_class_wrong_delivery_mode'' else None) = None \<and>
   transition t r d kind = Inr (nxt, disp) \<longleftrightarrow>
   legal (dl_delivery_mode d) (rc_evidence_class r) (dl_state d) nxt disp \<and>
   kind = (if dl_delivery_mode d = CHANNEL_NATIVE then COMMS_VIEW else SESSION_TRANSPORT) \<and>
   canonical_disposition r = disp \<and>
   (dl_delivery_mode d = CHANNEL_NATIVE \<longrightarrow> message_bound t r d) \<and>
   (rc_evidence_class r \<in> set PARTICIPANT_EVIDENCE \<longrightarrow> participant_evidence t r d)"
  by (cases "rc_evidence_class r")
    (auto simp: PARTICIPANT_EVIDENCE_def validate_participant_None_iff transition_def
      legal_simps canonical_disposition_def message_bound_iff not_channel_native split: if_splits)

lemma submit_check_Accept_iff:
  "submit_check authority r t = Accept d nxt disp \<longleftrightarrow> admissible authority t r d nxt disp"
proof (cases "rc_proof_method r = [] \<or> rc_observed_at r = [] \<or> receipt_record t (rc_receipt_id r) \<noteq> None
    \<or> get_delivery t (rc_delivery_id r) = None \<or> provider t (rc_evidence_provider_id r) = None")
  case True
  then have "\<not> admissible authority t r d nxt disp" by (auto simp: admissible_def)
  moreover have "submit_check authority r t \<noteq> Accept d nxt disp"
  proof (cases "existing_check r t")
    case None
    then have "receipt_record t (rc_receipt_id r) = None"
      by (auto simp: existing_check_def split: option.splits if_splits)
    with True None show ?thesis by (auto simp: submit_check_def split: option.split)
  next
    case (Some dec)
    then have "dec \<noteq> Accept d nxt disp" by (auto simp: existing_check_def split: option.splits if_splits)
    with Some show ?thesis by (simp add: submit_check_def)
  qed
  ultimately show ?thesis by simp
next
  case False
  then obtain e p where 1: "get_delivery t (rc_delivery_id r) = Some e" "receipt_record t (rc_receipt_id r) = None"
      "provider t (rc_evidence_provider_id r) = Some p" "rc_proof_method r \<noteq> []" "rc_observed_at r \<noteq> []"
    by auto
  have keys: "validate_keys r e = None \<longleftrightarrow> rc_event_id r = dl_event_id e \<and>
      rc_attempt_id r = dl_attempt_id e \<and> Some (rc_binding_id r) = dl_binding_id e"
    by (auto simp: validate_keys_def)
  have pc: "proof_check authority t r e n c = Accept d nxt disp \<longleftrightarrow> e = d \<and> n = nxt \<and> c = disp \<and>
      (rc_evidence_class r \<in> set SESSION_PROOF_EVIDENCE \<longrightarrow> session_evidence authority t r e)" for n c
    using validate_session_receipt_None_iff[of authority t r e]
    by (auto simp: proof_check_def split: sum.splits option.splits)
  define g where "g = (if rc_evidence_class r \<in> set PARTICIPANT_EVIDENCE then validate_participant t r e (pv_kind p)
    else if dl_delivery_mode e = CHANNEL_NATIVE \<and> rc_evidence_class r \<noteq> TRANSPORT_SUBMIT_ACK
      then Some ''evidence_class_wrong_delivery_mode'' else None)"
  have "submit_check authority r t = (case validate_keys r e of Some x \<Rightarrow> Reject x | None \<Rightarrow>
      if \<not> provider_declares t (rc_evidence_provider_id r) (rc_evidence_class r)
        then Reject ''evidence_class_not_declared''
      else case g of Some x \<Rightarrow> Reject x | None \<Rightarrow>
      case transition t r e (pv_kind p) of Inl x \<Rightarrow> Reject x
      | Inr (n, c) \<Rightarrow> proof_check authority t r e n c)"
    unfolding submit_check_def existing_check_def g_def using 1 by (cases "validate_keys r e") simp_all
  then have "submit_check authority r t = Accept d nxt disp \<longleftrightarrow>
      validate_keys r e = None \<and>
      provider_declares t (rc_evidence_provider_id r) (rc_evidence_class r) \<and>
      (g = None \<and> transition t r e (pv_kind p) = Inr (nxt, disp)) \<and> e = d \<and>
      (rc_evidence_class r \<in> set SESSION_PROOF_EVIDENCE \<longrightarrow> session_evidence authority t r e)"
    by (auto simp: pc split: option.split sum.split)
  also have "\<dots> \<longleftrightarrow> admissible authority t r d nxt disp"
    unfolding admissible_def keys g_def guards_iff by (auto simp: 1)
  finally show ?thesis .
qed

section \<open>Outcomes of a submission\<close>

definition accepted_result :: "DeliveryState \<Rightarrow> Disposition option \<Rightarrow> ReceiptResult" where
  "accepted_result n c = \<lparr>rs_status = ''accepted'', rs_reason = None, rs_state = Some n, rs_disposition = c\<rparr>"

definition rejected_result :: "string \<Rightarrow> ReceiptResult" where
  "rejected_result reason =
     \<lparr>rs_status = ''rejected'', rs_reason = Some reason, rs_state = None, rs_disposition = None\<rparr>"

text \<open>A submission that is not accepted raises, answers \<open>duplicate\<close>, or rejects; only a rejection
  writes, and only a rejection row and, for a contradiction, the provider's health.\<close>

definition refused :: "Receipt \<Rightarrow> ReceiptResult res \<Rightarrow> core_store \<Rightarrow> core_store \<Rightarrow> bool" where
  "refused r res s s' \<longleftrightarrow>
     (\<exists>e. res = Inl e \<and> db s' = db s) \<or>
     (\<exists>x. res = Inr x \<and> rs_status x = ''duplicate'' \<and> db s' = db s) \<or>
     (\<exists>reason. res = Inr (rejected_result reason) \<and> db s' = db (record_rejection r reason s)) \<or>
     (res = Inr (rejected_result ''receipt_id_contradiction'') \<and>
      db s' = db (record_rejection r ''receipt_id_contradiction''
                    (mark_provider_degraded (rc_evidence_provider_id r) s)))"

lemma refused_status: "refused r (Inr x) s s' \<Longrightarrow> rs_status x \<noteq> ''accepted''"
  by (auto simp: refused_def rejected_result_def)

lemma reject_refused:
  assumes "db s' = db s"
  shows "refused r (fst (reject reason r s')) s (snd (reject reason r s'))"
proof -
  have "reject reason r s' = (Inr (rejected_result reason), record_rejection r reason s')"
    by (simp add: reject_def rejected_result_def)
  moreover have "db (record_rejection r reason s') = db (record_rejection r reason s)"
    using assms by (simp add: record_rejection_def)
  ultimately show ?thesis by (auto simp: refused_def)
qed

lemma existing_check_refused:
  assumes "existing_check r t = Some dec" "db s' = db s"
  shows "refused r (fst (settle dec r s')) s (snd (settle dec r s'))"
proof -
  from assms(1) consider "dec = Contradict" | x where "dec = Answer x" "rs_status x = ''duplicate''"
    by (auto simp: existing_check_def split: option.splits if_splits)
  then show ?thesis
    using assms(2) by cases (auto simp: refused_def reject_def rejected_result_def
        record_rejection_def mark_provider_degraded_def)
qed

lemma recover_refused:
  assumes "db s' = db s"
  shows "refused r (fst (recover_integrity_collision r s')) s (snd (recover_integrity_collision r s'))"
  using assms reject_refused[OF assms] existing_check_refused[OF _ assms]
  by (auto simp: recover_integrity_collision_def existing_receipt_result_def split: option.splits)

lemma accept_receipt_body_errors:
  "accept_receipt_body r d n c t = Inl e \<Longrightarrow> e = IntegrityError \<or> e = ConcurrentTransitionError"
  by (auto simp: accept_receipt_body_def insert_receipt_def insert_audit_def Let_def
      split: option.splits sum.splits if_splits)

definition accepted ::
  "Receipt \<Rightarrow> Delivery \<Rightarrow> DeliveryState \<Rightarrow> Disposition option \<Rightarrow> ReceiptResult res \<Rightarrow> core_store \<Rightarrow> core_store \<Rightarrow> bool"
  where
  "accepted r d n c res s s' \<longleftrightarrow>
     res = Inr (accepted_result n c) \<and> in_transaction s' = False \<and>
     accept_receipt_body r d n c (db s) = Inr (db s')"

lemma carry_out_Accept:
  "(let (res, s') = carry_out (Accept d n c) r s
    in accepted r d n c res s s' \<or> refused r res s s')"
proof (cases "accept_receipt_body r d n c (db s)")
  case (Inr t)
  then show ?thesis
    by (simp add: carry_out_def accept_receipt_def with_connection_def accepted_def accepted_result_def)
next
  case (Inl e)
  let ?s = "s\<lparr>in_transaction := False\<rparr>"
  have "db ?s = db s" by simp
  from accept_receipt_body_errors[OF Inl] reject_refused[OF this, of r "''delivery_state_changed''"]
    recover_refused[OF this, of r] show ?thesis
    by (auto simp: carry_out_def accept_receipt_def with_connection_def Inl Let_def split: prod.splits)
qed

definition fresh_decision :: "decision \<Rightarrow> bool" where
  "fresh_decision dec = (case dec of Answer _ \<Rightarrow> False | Contradict \<Rightarrow> False | _ \<Rightarrow> True)"

lemma fresh_decision_simps [simp]:
  "fresh_decision (Raise e)" "fresh_decision (Reject x)" "fresh_decision (Accept d n c)"
  by (simp_all add: fresh_decision_def)

lemma fresh_proof_check [simp]: "fresh_decision (proof_check authority t r d n c)"
  by (simp add: proof_check_def split: sum.split option.split)

lemma fresh_submit_check: "existing_check r t = None \<Longrightarrow> fresh_decision (submit_check authority r t)"
  by (simp add: submit_check_def split: option.split sum.split)

lemma submit_check_other:
  obtains (existing) dec where "submit_check authority r t = dec" "existing_check r t = Some dec"
  | (raised) e where "submit_check authority r t = Raise e"
  | (rejected) reason where "submit_check authority r t = Reject reason"
  | (admitted) d n c where "submit_check authority r t = Accept d n c"
proof (cases "existing_check r t")
  case (Some dec)
  then have "submit_check authority r t =
      (if rc_proof_method r = [] \<or> rc_observed_at r = [] then Reject ''audit_fields_required'' else dec)"
    by (simp add: submit_check_def)
  with Some show ?thesis
    using existing rejected by (cases "rc_proof_method r = [] \<or> rc_observed_at r = []") simp_all
next
  case None
  from fresh_submit_check[OF this, of authority] show ?thesis
    using raised rejected admitted
    by (cases "submit_check authority r t") (auto simp: fresh_decision_def)
qed

text \<open>Whatever the tables were when the decision was taken (\<open>t\<close>), carrying it out on the store as
  it is now either commits the acceptance or refuses.\<close>

lemma carry_out_outcome:
  assumes "carry_out (submit_check authority r t) r s = (res, s')"
  shows "(\<exists>d n c. admissible authority t r d n c \<and> accepted r d n c res s s') \<or> refused r res s s'"
proof (cases rule: submit_check_other[of authority r t])
  case (existing dec)
  then show ?thesis
    using assms existing_check_refused[OF existing(2), of s s]
    by (cases dec) (auto simp: carry_out_def existing_check_def split: option.splits if_splits)
next
  case (raised e)
  then show ?thesis using assms by (auto simp: carry_out_def refused_def)
next
  case (rejected reason)
  then show ?thesis using assms reject_refused[of s s r reason] by (auto simp: carry_out_def)
next
  case (admitted d n c)
  with assms carry_out_Accept[of d n c r s] have "accepted r d n c res s s' \<or> refused r res s s'"
    by simp
  with admitted show ?thesis by (auto simp: submit_check_Accept_iff)
qed

section \<open>What a submission does to the tables\<close>

text \<open>Nothing but rejection rows and provider health.\<close>

definition log_only :: "core_db \<Rightarrow> core_db \<Rightarrow> bool" where
  "log_only t t' \<longleftrightarrow>
     t' = t\<lparr>providers := providers t', receipt_rejections := receipt_rejections t'\<rparr> \<and>
     map pv_provider_id (providers t') = map pv_provider_id (providers t) \<and>
     map pv_kind (providers t') = map pv_kind (providers t) \<and>
     take (length (receipt_rejections t)) (receipt_rejections t') = receipt_rejections t"

lemma log_only_refl [simp]: "log_only t t"
  by (simp add: log_only_def)

lemma log_only_record: "log_only (db s) (db (record_rejection r x s))"
  by (simp add: log_only_def record_rejection_def)

lemma log_only_degrade: "log_only (db s) (db (record_rejection r x (mark_provider_degraded i s)))"
  by (simp add: log_only_def record_rejection_def mark_provider_degraded_def update_where_map_key)

lemma refused_frame: "refused r res s s' \<Longrightarrow> log_only (db s) (db s')"
  unfolding refused_def by (elim disjE exE conjE) (simp_all add: log_only_record log_only_degrade)

lemma log_only_queries:
  assumes "log_only t t'"
  shows "deliveries t' = deliveries t" "receipts t' = receipts t" "audit_log t' = audit_log t"
    "session_bindings t' = session_bindings t" "binding_proof_methods t' = binding_proof_methods t"
    "provider_evidence t' = provider_evidence t" "rooms t' = rooms t" "room_members t' = room_members t"
    "broadcasts t' = broadcasts t" "broadcast_recipients t' = broadcast_recipients t"
    "broadcast_audits t' = broadcast_audits t" "canonical_events t' = canonical_events t"
proof -
  from assms obtain ps rj where "t' = t\<lparr>providers := ps, receipt_rejections := rj\<rparr>"
    unfolding log_only_def by blast
  then show "deliveries t' = deliveries t" "receipts t' = receipts t" "audit_log t' = audit_log t"
    "session_bindings t' = session_bindings t" "binding_proof_methods t' = binding_proof_methods t"
    "provider_evidence t' = provider_evidence t" "rooms t' = rooms t" "room_members t' = room_members t"
    "broadcasts t' = broadcasts t" "broadcast_recipients t' = broadcast_recipients t"
    "broadcast_audits t' = broadcast_audits t" "canonical_events t' = canonical_events t"
    by simp_all
qed

lemma wf_refused: "wf_db (db s) \<Longrightarrow> refused r res s s' \<Longrightarrow> wf_db (db s')"
  unfolding refused_def
  by (elim disjE exE conjE) (simp_all add: wf_record_rejection wf_mark_provider_degraded)

lemma wf_carry_out:
  assumes "wf_db (db s)" "carry_out (submit_check authority r t) r s = (res, s')"
  shows "wf_db (db s')"
  using carry_out_outcome[OF assms(2)] assms(1) wf_refused wf_accept_receipt_body
  by (auto simp: accepted_def)

lemma wf_submit: "wf_db (db s) \<Longrightarrow> wf_db (db (snd (submit authority r s)))"
  unfolding submit_def by (erule wf_carry_out) (rule prod.collapse[symmetric])

text \<open>The delivery an acceptance advances, and every other one.\<close>

lemma accepted_deliveries:
  assumes wf: "wf_db (db s)" and acc: "accepted r d n c res s s'"
  shows "get_delivery (db s) (dl_delivery_id d) = Some e \<Longrightarrow> dl_state e = dl_state d"
    and "get_delivery (db s') i =
      (if i = dl_delivery_id d
       then map_option (\<lambda>e. e\<lparr>dl_state := n, dl_disposition := c\<rparr>) (get_delivery (db s) i)
       else get_delivery (db s) i)"
proof -
  have dist: "distinct (map dl_delivery_id (deliveries (db s)))" using wf by (simp add: wf_defs)
  from acc have body: "accept_receipt_body r d n c (db s) = Inr (db s')" by (simp add: accepted_def)
  have rc: "rowcount (\<lambda>x. dl_delivery_id x = dl_delivery_id d \<and> dl_state x = dl_state d) (deliveries (db s)) = 1"
    by (rule accept_receipt_body_Inr[OF wf body]) assumption
  have del: "deliveries (db s') = update_where (\<lambda>x. dl_delivery_id x = dl_delivery_id d \<and> dl_state x = dl_state d)
      (\<lambda>x. x\<lparr>dl_state := n, dl_disposition := c\<rparr>) (deliveries (db s))"
    by (rule accept_receipt_body_Inr[OF wf body]) simp
  have "(case get_delivery (db s) (dl_delivery_id d) of None \<Rightarrow> 0 | Some e \<Rightarrow> of_bool (dl_state e = dl_state d)) = (1::nat)"
    unfolding get_delivery_def rowcount_key[OF dist, symmetric] by (rule rc)
  then show st: "dl_state e = dl_state d" if "get_delivery (db s) (dl_delivery_id d) = Some e" for e
    using that by (cases "dl_state e = dl_state d") simp_all
  have up: "get_delivery (db s') i = map_option
      (\<lambda>e. if i = dl_delivery_id d \<and> dl_state e = dl_state d then e\<lparr>dl_state := n, dl_disposition := c\<rparr> else e)
      (get_delivery (db s) i)"
    unfolding get_delivery_def del by (rule fetchone_update_where_key[OF dist]) simp
  show "get_delivery (db s') i =
      (if i = dl_delivery_id d
       then map_option (\<lambda>e. e\<lparr>dl_state := n, dl_disposition := c\<rparr>) (get_delivery (db s) i)
       else get_delivery (db s) i)"
  proof (cases "get_delivery (db s) i")
    case (Some e)
    with st[of e] show ?thesis unfolding up by (cases "i = dl_delivery_id d") simp_all
  qed (auto simp: up)
qed

text \<open>One acceptance writes one receipt row and one audit row.\<close>

lemma accepted_rows:
  assumes wf: "wf_db (db s)" and acc: "accepted r d n c res s s'"
  shows "\<exists>b. dl_binding_id d = Some b \<and> receipts (db s') = receipts (db s) @ [receipt_row r d b c]"
    and "\<exists>a. audit_log (db s') = audit_log (db s) @ [a] \<and> au_receipt_id a = rc_receipt_id r \<and>
      au_delivery_id a = dl_delivery_id d \<and> au_from_state a = dl_state d \<and> au_to_state a = n \<and>
      au_disposition a = c \<and> au_evidence_class a = rc_evidence_class r \<and>
      au_delivery_mode a = dl_delivery_mode d"
    and "session_bindings (db s') = session_bindings (db s)" "providers (db s') = providers (db s)"
      "receipt_rejections (db s') = receipt_rejections (db s)"
proof -
  from acc have body: "accept_receipt_body r d n c (db s) = Inr (db s')" by (simp add: accepted_def)
  show "\<exists>b. dl_binding_id d = Some b \<and> receipts (db s') = receipts (db s) @ [receipt_row r d b c]"
    "\<exists>a. audit_log (db s') = audit_log (db s) @ [a] \<and> au_receipt_id a = rc_receipt_id r \<and>
      au_delivery_id a = dl_delivery_id d \<and> au_from_state a = dl_state d \<and> au_to_state a = n \<and>
      au_disposition a = c \<and> au_evidence_class a = rc_evidence_class r \<and>
      au_delivery_mode a = dl_delivery_mode d"
    "session_bindings (db s') = session_bindings (db s)" "providers (db s') = providers (db s)"
    "receipt_rejections (db s') = receipt_rejections (db s)"
    by (rule accept_receipt_body_Inr[OF wf body], simp)+
qed

lemma submit_outcome:
  obtains (accept) d n c where "admissible authority (db s) r d n c"
    "accepted r d n c (fst (submit authority r s)) s (snd (submit authority r s))"
  | (refuse) "refused r (fst (submit authority r s)) s (snd (submit authority r s))"
  using carry_out_outcome[of authority r "db s" s] unfolding submit_def by (metis prod.collapse)

lemma submit_accept_commits:
  assumes wf: "wf_db (db s)" and ok: "admissible authority (db s) r d n c"
    and src: "\<And>e. rc_source_event_id r = Some e \<Longrightarrow> \<not> source_seen (db s) (rc_evidence_provider_id r) e"
  shows "accepted r d n c (fst (submit authority r s)) s (snd (submit authority r s))"
proof -
  from ok have d: "get_delivery (db s) (rc_delivery_id r) = Some d" "dl_binding_id d = Some (rc_binding_id r)"
      "receipt_record (db s) (rc_receipt_id r) = None"
    unfolding admissible_def by metis+
  from ok obtain p where p: "provider (db s) (rc_evidence_provider_id r) = Some p"
    unfolding admissible_def by blast
  from accept_receipt_body_commits[OF wf d(1,2) p d(3) src] obtain t where
    t: "accept_receipt_body r d n c (db s) = Inr t" by blast
  from ok have "submit_check authority r (db s) = Accept d n c" by (simp add: submit_check_Accept_iff)
  then show ?thesis
    by (simp add: submit_def carry_out_def accept_receipt_def with_connection_def t accepted_def accepted_result_def)
qed

lemma accepted_source_fresh:
  assumes "accepted r d n c res s s'" "rc_source_event_id r = Some e"
  shows "\<not> source_seen (db s) (rc_evidence_provider_id r) e"
proof
  assume "source_seen (db s) (rc_evidence_provider_id r) e"
  then obtain x where "x \<in> set (receipts (db s))" "rr_provider_id x = rc_evidence_provider_id r"
      "rr_source_event_id x = Some e"
    by (auto simp: source_seen_def dest: fetchone_SomeD)
  with assms show False
    by (auto simp: accepted_def accept_receipt_body_def insert_receipt_def split: option.splits if_splits)
qed

end
