(* ===== verification/Core_Reducer.thy ===== *)
theory Core_Reducer
  imports Core_Receipts_Facts
begin

text \<open>
  The guarantees of \<open>ReceiptReducer.submit\<close>: when it accepts, what a refusal leaves behind,
  idempotence, contradiction, replay, racing submissions, and which exceptions can escape.
\<close>

section \<open>Concrete values\<close>

definition example_delivery :: Delivery where
  "example_delivery =
     \<lparr>dl_event_id = ''e1'', dl_delivery_id = ''d1'', dl_attempt_id = ''a1'', dl_binding_id = Some ''b1'',
      dl_recipient_id = ''ana'', dl_delivery_mode = SESSION_BOUND, dl_state = DISPATCHING,
      dl_disposition = None\<rparr>"

definition example_ready :: core_store where
  "example_ready = snd (add_delivery example_delivery
     (snd (register_session_binding (example_binding ''b1'') example_store)))"

definition example_receipt :: "string \<Rightarrow> string option \<Rightarrow> Receipt" where
  "example_receipt i source =
     \<lparr>rc_receipt_id = i, rc_event_id = ''e1'', rc_delivery_id = ''d1'', rc_attempt_id = ''a1'',
      rc_binding_id = ''b1'', rc_evidence_provider_id = ''cmux'',
      rc_evidence_class = TRANSPORT_SUBMIT_ACK, rc_proof_method = ''cmux-chain'',
      rc_observed_at = ''2026-07-01T00:00:01Z'', rc_source_event_id = source,
      rc_platform_principal_id = None, rc_platform_message_id = None, rc_disposition = None,
      rc_authored_by_provider = False, rc_infrastructure_event = False, rc_proof = None\<rparr>"

lemma wf_example_ready: "wf_db (db example_ready)"
  unfolding example_ready_def
  by (rule wf_add_delivery, rule wf_register_session_binding, rule wf_example_store)

lemma bindings_ok_example_ready: "bindings_ok (db example_ready)"
proof -
  have "bindings_ok (db example_store)"
  proof -
    have "session_bindings (db example_store) = []" "binding_proof_methods (db example_store) = []"
      by code_simp+
    then show ?thesis by (simp add: bindings_ok_def)
  qed
  then have "bindings_ok (db (snd (register_session_binding (example_binding ''b1'') example_store)))"
    by (rule bindings_ok_register_session_binding)
  moreover have "bindings_ok u \<Longrightarrow> insert_delivery d u = Inr u' \<Longrightarrow> bindings_ok u'" for d u u'
    by (auto simp: insert_delivery_def bindings_ok_def split: if_splits)
  ultimately show ?thesis
    unfolding example_ready_def add_delivery_def
    by (intro execute_commit_keeps[where I = bindings_ok]) auto
qed

section \<open>Acceptance\<close>

text \<open>C1: \<open>submit\<close> accepts exactly when the declarative condition holds: the receipt's keys are the
  delivery's, the provider is of the right kind and declares the class, the step is one of the
  state machine, the evidence its class demands is sound, and its source event is new.\<close>

theorem submit_accepts_iff:
  assumes "wf_db (db s)"
  shows "fst (submit authority r s) = Inr (accepted_result n c) \<longleftrightarrow>
    (\<exists>d. admissible authority (db s) r d n c) \<and>
    (\<forall>e. rc_source_event_id r = Some e \<longrightarrow> \<not> source_seen (db s) (rc_evidence_provider_id r) e)"
proof
  assume acc: "fst (submit authority r s) = Inr (accepted_result n c)"
  show "(\<exists>d. admissible authority (db s) r d n c) \<and>
    (\<forall>e. rc_source_event_id r = Some e \<longrightarrow> \<not> source_seen (db s) (rc_evidence_provider_id r) e)"
  proof (cases rule: submit_outcome[of authority s r])
    case (accept d n' c')
    from accept(2) acc have "n' = n" "c' = c" by (auto simp: accepted_def accepted_result_def)
    with accept accepted_source_fresh[OF accept(2)] show ?thesis by blast
  next
    case refuse
    with acc have "rs_status (accepted_result n c) \<noteq> ''accepted''" using refused_status by metis
    then show ?thesis by (simp add: accepted_result_def)
  qed
next
  assume "(\<exists>d. admissible authority (db s) r d n c) \<and>
    (\<forall>e. rc_source_event_id r = Some e \<longrightarrow> \<not> source_seen (db s) (rc_evidence_provider_id r) e)"
  then show "fst (submit authority r s) = Inr (accepted_result n c)"
    using submit_accept_commits[OF assms] by (auto simp: accepted_def)
qed

text \<open>Witness of C1.\<close>

theorem submit_accepts_iff_witness:
  "\<exists>d. admissible None (db example_ready) (example_receipt ''r1'' None) d TRANSPORT_SUBMITTED None"
proof -
  have "fst (submit None (example_receipt ''r1'' None) example_ready) =
      Inr (accepted_result TRANSPORT_SUBMITTED None)"
    by code_simp
  with submit_accepts_iff[OF wf_example_ready] show ?thesis by blast
qed

text \<open>C14: A submission that is not accepted changes nothing but the rejection log and, for a
  contradiction, the provider's health: no delivery, receipt, binding or audit row.\<close>

theorem submit_refusal_only_logs:
  assumes "\<And>n c. fst (submit authority r s) \<noteq> Inr (accepted_result n c)"
  shows "log_only (db s) (db (snd (submit authority r s)))"
  using assms by (cases rule: submit_outcome[of authority s r]) (auto simp: accepted_def refused_frame)

text \<open>Witness of C14.\<close>

theorem submit_refusal_only_logs_witness:
  "log_only (db example_store) (db (snd (submit None (example_receipt ''r1'' None) example_store)))"
proof -
  have "fst (submit None (example_receipt ''r1'' None) example_store) =
      Inr (rejected_result ''delivery_not_found'')"
    by code_simp
  then show ?thesis
    by (intro submit_refusal_only_logs) (simp add: rejected_result_def accepted_result_def)
qed

section \<open>Idempotence, contradiction, replay\<close>

lemma same_receipt_row:
  assumes "admissible authority t r d n c" "dl_binding_id d = Some b"
  shows "same_receipt (receipt_row r d b c) r"
proof -
  have "get_delivery t (rc_delivery_id r) = Some d" using assms by (simp add: admissible_def)
  then have "dl_delivery_id d = rc_delivery_id r" by (auto simp: get_delivery_def dest: fetchone_SomeD)
  with assms show ?thesis
    by (auto simp: same_receipt_def receipt_row_def admissible_def split: prod.splits)
qed

lemma accepted_record:
  assumes "wf_db (db s)" "admissible authority t r d n c" "accepted r d n c res s s'"
  shows "\<exists>x. receipt_record (db s') (rc_receipt_id r) = Some x \<and> same_receipt x r"
proof -
  obtain b where b: "dl_binding_id d = Some b" "receipts (db s') = receipts (db s) @ [receipt_row r d b c]"
    using accepted_rows(1)[OF assms(1,3)] by blast
  have "wf_db (db s')" using assms(1,3) wf_accept_receipt_body by (auto simp: accepted_def)
  then have "distinct (map rr_receipt_id (receipts (db s')))" by (simp add: wf_defs)
  moreover have "receipt_row r d b c \<in> set (receipts (db s'))" by (simp add: b)
  ultimately have "receipt_record (db s') (rc_receipt_id r) = Some (receipt_row r d b c)"
    using fetchone_key[of rr_receipt_id "receipts (db s')" "receipt_row r d b c"]
    by (simp add: receipt_record_def)
  with same_receipt_row[OF assms(2) b(1)] show ?thesis by blast
qed

lemma accepted_is_current:
  assumes "wf_db (db s)" "admissible authority (db s) r d n c" "accepted r d n c res s s'"
  shows "get_delivery (db s') (rc_delivery_id r) = Some (d\<lparr>dl_state := n, dl_disposition := c\<rparr>)"
proof -
  have d: "get_delivery (db s) (rc_delivery_id r) = Some d" using assms by (simp add: admissible_def)
  then have "dl_delivery_id d = rc_delivery_id r" by (auto simp: get_delivery_def dest: fetchone_SomeD)
  with accepted_deliveries(2)[OF assms(1,3), of "rc_delivery_id r"] d show ?thesis by simp
qed

text \<open>C8: Resubmitting an accepted receipt answers \<open>duplicate\<close> with the state and disposition it
  established, and changes nothing.\<close>

theorem submit_idempotent:
  assumes wf: "wf_db (db s)" and acc: "fst (submit authority r s) = Inr (accepted_result n c)"
  shows "submit authority r (snd (submit authority r s)) =
    (Inr \<lparr>rs_status = ''duplicate'', rs_reason = None, rs_state = Some n, rs_disposition = c\<rparr>,
     snd (submit authority r s))"
proof (cases rule: submit_outcome[of authority s r])
  case (accept d n' c')
  let ?s = "snd (submit authority r s)"
  from accept(2) acc have eq: "n' = n" "c' = c" by (auto simp: accepted_def accepted_result_def)
  from accepted_record[OF wf accept] obtain x where
    "receipt_record (db ?s) (rc_receipt_id r) = Some x" "same_receipt x r" by blast
  moreover have "rc_proof_method r \<noteq> []" "rc_observed_at r \<noteq> []"
    using accept(1) by (simp_all add: admissible_def)
  ultimately show ?thesis
    using accepted_is_current[OF wf accept]
    by (simp add: submit_def[of authority r ?s] carry_out_def submit_check_def existing_check_def eq)
next
  case refuse
  with acc refused_status show ?thesis by (fastforce simp: accepted_result_def)
qed

text \<open>Witness of C8.\<close>

theorem submit_idempotent_witness:
  "fst (submit None (example_receipt ''r1'' None) (snd (submit None (example_receipt ''r1'' None) example_ready))) =
    Inr \<lparr>rs_status = ''duplicate'', rs_reason = None, rs_state = Some TRANSPORT_SUBMITTED, rs_disposition = None\<rparr>"
proof -
  have "fst (submit None (example_receipt ''r1'' None) example_ready) =
      Inr (accepted_result TRANSPORT_SUBMITTED None)"
    by code_simp
  from submit_idempotent[OF wf_example_ready this] show ?thesis by simp
qed

text \<open>A receipt id that was accepted for a different claim is rejected as a contradiction, the
  provider that submitted it is degraded, and no delivery, receipt or audit row changes.\<close>

theorem submit_contradiction:
  assumes "rc_proof_method r \<noteq> []" "rc_observed_at r \<noteq> []"
    and "receipt_record (db s) (rc_receipt_id r) = Some x" "\<not> same_receipt x r"
  shows "fst (submit authority r s) = Inr (rejected_result ''receipt_id_contradiction'') \<and>
    provider (db (snd (submit authority r s))) (rc_evidence_provider_id r) =
      map_option (\<lambda>p. p\<lparr>pv_health := ''degraded''\<rparr>) (provider (db s) (rc_evidence_provider_id r)) \<and>
    log_only (db s) (db (snd (submit authority r s)))"
proof -
  let ?s = "record_rejection r ''receipt_id_contradiction'' (mark_provider_degraded (rc_evidence_provider_id r) s)"
  have run: "submit authority r s = (Inr (rejected_result ''receipt_id_contradiction''), ?s)"
    using assms by (simp add: submit_def submit_check_def existing_check_def carry_out_def reject_def
        rejected_result_def)
  have "fetchone (\<lambda>p. pv_provider_id p = i) (update_where (\<lambda>p. pv_provider_id p = i)
      (\<lambda>p. p\<lparr>pv_health := ''degraded''\<rparr>) rows) =
      map_option (\<lambda>p. p\<lparr>pv_health := ''degraded''\<rparr>) (fetchone (\<lambda>p. pv_provider_id p = i) rows)" for i rows
    by (induction rows) (auto simp: update_where_def)
  then show ?thesis
    by (simp add: run provider_def log_only_degrade)
      (simp add: record_rejection_def mark_provider_degraded_def)
qed

text \<open>An instance.\<close>

theorem submit_contradiction_witness:
  "fst (submit None (example_receipt ''r1'' (Some ''other''))
     (snd (submit None (example_receipt ''r1'' None) example_ready))) =
   Inr (rejected_result ''receipt_id_contradiction'')"
proof -
  let ?s = "snd (submit None (example_receipt ''r1'' None) example_ready)"
    and ?r = "example_receipt ''r1'' (Some ''other'')"
  have "\<not> (case receipt_record (db ?s) (rc_receipt_id ?r) of None \<Rightarrow> True | Some x \<Rightarrow> same_receipt x ?r)"
    by code_simp
  then obtain x where "receipt_record (db ?s) (rc_receipt_id ?r) = Some x" "\<not> same_receipt x ?r"
    by (auto split: option.splits)
  with submit_contradiction[of ?r ?s x None] show ?thesis by (simp add: example_receipt_def)
qed

section \<open>Racing submissions\<close>

text \<open>C5: Of two submissions for one delivery that were both checked against the same tables, at
  most one is accepted, in whatever order they commit.\<close>

theorem racing_submissions_one_winner:
  assumes wf: "wf_db (db s)" and same: "rc_delivery_id r = rc_delivery_id q"
    and first: "carry_out (submit_check authority r t) r s = (Inr (accepted_result n c), s')"
  shows "fst (carry_out (submit_check authority q t) q s') \<noteq> Inr (accepted_result n' c')"
proof
  obtain res s'' where out: "carry_out (submit_check authority q t) q s' = (res, s'')" by fastforce
  assume "fst (carry_out (submit_check authority q t) q s') = Inr (accepted_result n' c')"
  with out have res: "res = Inr (accepted_result n' c')" by simp
  have not_refused: "\<not> refused u (Inr (accepted_result a b)) v w" for u a b v w
    using refused_status by (fastforce simp: accepted_result_def)
  from carry_out_outcome[OF first] not_refused obtain d n1 c1 where
    d: "admissible authority t r d n1 c1" "accepted r d n1 c1 (Inr (accepted_result n c)) s s'" by blast
  from carry_out_outcome[OF out] not_refused res obtain e n2 c2 where
    e: "admissible authority t q e n2 c2" "accepted q e n2 c2 res s' s''" by blast
  have get: "get_delivery t (rc_delivery_id r) = Some d" "e = d"
    using d(1) e(1) same by (simp_all add: admissible_def)
  then have id: "dl_delivery_id d = rc_delivery_id r" by (auto simp: get_delivery_def dest: fetchone_SomeD)
  have "dl_delivery_id d \<in> dl_delivery_id ` set (deliveries (db s))"
    using d(2) by (auto simp: accepted_def accept_receipt_body_def insert_receipt_def delivery_known_def
        split: option.splits if_splits)
  then obtain y where y: "get_delivery (db s) (dl_delivery_id d) = Some y"
    by (cases "get_delivery (db s) (dl_delivery_id d)") (auto simp: get_delivery_def fetchone_None_iff)
  with accepted_deliveries(2)[OF wf d(2), of "dl_delivery_id d"]
  have now: "get_delivery (db s') (dl_delivery_id d) = Some (y\<lparr>dl_state := n1, dl_disposition := c1\<rparr>)" by simp
  have "wf_db (db s')" using wf d(2) wf_accept_receipt_body by (auto simp: accepted_def)
  from accepted_deliveries(1)[OF this e(2)] now get(2) have "n1 = dl_state d" by fastforce
  moreover have "dl_state d < n1" using d(1) legal_forward by (auto simp: admissible_def)
  ultimately show False by simp
qed

text \<open>Witness of C5.\<close>

theorem racing_submissions_one_winner_witness:
  "fst (carry_out (submit_check None (example_receipt ''r2'' None) (db example_ready)) (example_receipt ''r2'' None)
     (snd (submit None (example_receipt ''r1'' None) example_ready))) \<noteq>
   Inr (accepted_result TRANSPORT_SUBMITTED None)"
proof -
  let ?r = "example_receipt ''r1'' None"
  have "fst (submit None ?r example_ready) = Inr (accepted_result TRANSPORT_SUBMITTED None)" by code_simp
  then have "carry_out (submit_check None ?r (db example_ready)) ?r example_ready =
      (Inr (accepted_result TRANSPORT_SUBMITTED None), snd (submit None ?r example_ready))"
    by (simp add: submit_def prod_eq_iff)
  from racing_submissions_one_winner[OF wf_example_ready _ this, of "example_receipt ''r2'' None"] show ?thesis
    by (simp add: example_receipt_def)
qed

section \<open>Exceptions\<close>

lemma recover_no_exception: "\<exists>x. fst (recover_integrity_collision r s) = Inr x"
  by (auto simp: recover_integrity_collision_def existing_receipt_result_def existing_check_def reject_def
      split: option.splits if_splits)

lemma submit_raises:
  assumes "fst (submit authority r s) = Inl e"
  shows "submit_check authority r (db s) = Raise e"
proof (cases "submit_check authority r (db s)")
  case (Accept d n c)
  show ?thesis
  proof (cases "accept_receipt_body r d n c (db s)")
    case (Inl x)
    with accept_receipt_body_errors[OF Inl] assms Accept recover_no_exception[of r "s\<lparr>in_transaction := False\<rparr>"]
    show ?thesis
      by (auto simp: submit_def carry_out_def accept_receipt_def with_connection_def reject_def)
  next
    case (Inr t)
    with assms Accept show ?thesis
      by (simp add: submit_def carry_out_def accept_receipt_def with_connection_def)
  qed
qed (use assms in \<open>auto simp: submit_def carry_out_def reject_def\<close>)

lemma validate_session_proof_raises:
  assumes "validate_session_proof p d cls reg auth t = Inl e"
  shows "\<not> is_ascii (mk_signature (pf_marker p))" and "\<exists>m. e = TypeError m"
  using assms by (auto simp: validate_session_proof_def validate_def compare_digest_def
      split: if_splits sum.splits option.splits bool.splits)

lemma submit_check_Raise:
  assumes "submit_check authority r t = Raise e"
  shows "\<exists>d. validate_session_receipt authority t r d = Inl e"
proof -
  have ex: "existing_check r t \<noteq> Some (Raise e)"
    by (auto simp: existing_check_def split: option.splits if_splits)
  have pc: "proof_check authority t r d n c = Raise e \<Longrightarrow> validate_session_receipt authority t r d = Inl e" for d n c
    by (auto simp: proof_check_def split: sum.splits option.splits if_splits)
  from assms ex obtain d n c where "proof_check authority t r d n c = Raise e"
    unfolding submit_check_def by (auto split: option.splits sum.splits if_splits)
  with pc show ?thesis by blast
qed

lemma submit_failure_writes_nothing:
  assumes "bindings_ok (db s)" "fst (submit authority r s) = Inl e"
  shows "snd (submit authority r s) = s"
  using submit_raises[OF assms(2)] by (simp add: submit_def carry_out_def)

text \<open>C15: With bindings registered through the store, the only exception that leaves \<open>submit\<close> is the
  \<open>TypeError\<close> of \<open>hmac.compare_digest\<close> for a marker whose signature is not ASCII; nothing is written.\<close>

theorem submit_exceptions:
  assumes "bindings_ok (db s)" and "fst (submit authority r s) = Inl e"
  shows "(\<exists>m. e = TypeError m) \<and> snd (submit authority r s) = s \<and>
    (\<exists>p. rc_proof r = Some p \<and> \<not> is_ascii (mk_signature (pf_marker p)))"
proof -
  note raised = submit_raises[OF assms(2)]
  from submit_check_Raise[OF raised] obtain d where
    d: "validate_session_receipt authority (db s) r d = Inl e" by blast
  obtain v where "binding_proof_method (db s) (rc_binding_id r) (rc_proof_method r) = Inr v"
    using binding_proof_method_total[OF assms(1)] by blast
  with d obtain p auth reg where p: "rc_proof r = Some p"
      "validate_session_proof p d (rc_evidence_class r) reg auth (rc_observed_at r) = Inl e"
    by (auto simp: validate_session_receipt_def split: option.splits sum.splits if_splits)
  from validate_session_proof_raises[OF p(2)] p(1) raised show ?thesis
    by (auto simp: submit_def carry_out_def)
qed

text \<open>A receipt whose marker carries a signature with a non-ASCII character.\<close>

definition example_marker :: "string \<Rightarrow> DeliveryMarker" where
  "example_marker signature =
     \<lparr>mk_schema_version = 1, mk_event_id = ''e1'', mk_delivery_id = ''d1'', mk_attempt_id = ''a1'',
      mk_binding_id = ''b1'', mk_authority_scope = ''conversation'',
      mk_issued_at = ''2026-07-01T00:00:00Z'', mk_expires_at = ''2026-07-01T00:01:00Z'',
      mk_signature = signature\<rparr>"

definition example_entry :: Receipt where
  "example_entry = (example_receipt ''r2'' (Some ''ev3''))
     \<lparr>rc_evidence_class := HARNESS_PROMPT_ACCEPTED,
      rc_proof := Some \<lparr>pf_session_id = ''session-1'', pf_marker = example_marker [CHR 0xE9],
        pf_source_events = [], pf_turn_id = None\<rparr>\<rparr>"

definition example_authority :: MarkerAuthority where
  "example_authority = \<lparr>ma_signing_key = [1], ma_max_lifetime = 300000000\<rparr>"

definition example_submitted :: core_store where
  "example_submitted = snd (submit None (example_receipt ''r1'' None) example_ready)"

lemma bindings_ok_accepted:
  assumes "wf_db (db s)" "bindings_ok (db s)"
  shows "bindings_ok (db (snd (submit authority r s)))"
proof (cases rule: submit_outcome[of authority s r])
  case (accept d n c)
  then have body: "accept_receipt_body r d n c (db s) = Inr (db (snd (submit authority r s)))"
    by (simp add: accepted_def)
  show ?thesis
    by (rule accept_receipt_body_Inr[OF assms(1) body]) (use assms(2) in \<open>simp add: bindings_ok_def\<close>)
next
  case refuse
  from log_only_queries(4,5)[OF refused_frame[OF refuse]] assms(2) show ?thesis
    by (simp add: bindings_ok_def)
qed

lemma example_entry_raises: "isl (fst (submit (Some example_authority) example_entry example_submitted))"
proof -
  let ?t = "db example_submitted"
  let ?d = "example_delivery\<lparr>dl_state := TRANSPORT_SUBMITTED\<rparr>"
  have get: "get_delivery ?t ''d1'' = Some ?d" "receipt_record ?t ''r2'' = None"
    "provider ?t ''cmux'' = Some \<lparr>pv_provider_id = ''cmux'', pv_kind = SESSION_TRANSPORT, pv_health = ''healthy''\<rparr>"
    "provider_declares ?t ''cmux'' HARNESS_PROMPT_ACCEPTED"
    by code_simp+
  have bind: "session_binding ?t ''b1'' = Some (binding_row (example_binding ''b1''))"
    "binding_proof_method ?t ''b1'' ''cmux-chain'' = Inr (Some example_method)"
    by code_simp+
  have "(case (parse_timestamp ''2026-07-01T00:00:01Z'', parse_timestamp ''2026-07-01T00:00:00Z'',
      parse_timestamp ''2026-07-02T00:00:00Z'') of (Inr o', Inr e, Inr x) \<Rightarrow> e \<le> o' \<and> o' < x | _ \<Rightarrow> False)"
    by code_simp
  then obtain ob est ex where time: "parse_timestamp ''2026-07-01T00:00:01Z'' = Inr ob"
      "parse_timestamp ''2026-07-01T00:00:00Z'' = Inr est" "parse_timestamp ''2026-07-02T00:00:00Z'' = Inr ex"
      "est \<le> ob" "ob < ex"
    by (auto split: sum.splits)
  have "\<exists>e. validate example_authority (example_marker [CHR 0xE9]) ?d ''2026-07-01T00:00:01Z'' = Inl e"
    unfolding validate_raises_iff
    by (simp add: marker_fields_match_def example_marker_def example_delivery_def
        MARKER_SCHEMA_VERSION_def AUTHORITY_SCOPE_def is_ascii_def)
  then obtain e where "validate example_authority (example_marker [CHR 0xE9]) ?d ''2026-07-01T00:00:01Z'' = Inl e" ..
  then have "validate_session_receipt (Some example_authority) ?t example_entry ?d = Inl e"
    using bind time
    by (simp add: validate_session_receipt_def validate_session_proof_def example_entry_def example_receipt_def
        binding_row_def example_binding_def example_delivery_def example_method_def)
  then have "submit_check (Some example_authority) example_entry ?t = Raise e"
    using get by (simp add: submit_check_def existing_check_def validate_keys_def proof_check_def transition_def
        example_entry_def example_receipt_def example_delivery_def PARTICIPANT_EVIDENCE_def SESSION_PROOF_EVIDENCE_def)
  then show ?thesis by (simp add: submit_def carry_out_def)
qed

text \<open>Witness of C15.\<close>

theorem submit_exceptions_witness:
  "\<exists>m. fst (submit (Some example_authority) example_entry example_submitted) = Inl (TypeError m)"
proof -
  obtain e where e: "fst (submit (Some example_authority) example_entry example_submitted) = Inl e"
    using example_entry_raises by (auto simp: isl_def)
  have "bindings_ok (db example_submitted)"
    unfolding example_submitted_def by (rule bindings_ok_accepted[OF wf_example_ready bindings_ok_example_ready])
  from submit_exceptions[OF this e] e show ?thesis by auto
qed

end
