(* ===== verification/Core_Broadcasts.thy ===== *)
theory Core_Broadcasts
  imports Core_Store_Facts
begin

text \<open>
  \<open>core/yatagarasu_core/broadcasts.py\<close>: atomic expansion of one room message into one delivery per
  roster seat, and the reconstruction of its outcome from the frozen snapshot. The identifier
  factory is a parameter: \<open>ids n kind\<close> is what its call number \<open>n\<close> within the broadcast returns.
\<close>

section \<open>Statements\<close>

definition insert_event :: "EventRow \<Rightarrow> core_db \<Rightarrow> core_db res" where
  "insert_event r t =
     (if ce_event_id r \<in> set (map ce_event_id (canonical_events t)) \<or> ce_room_id r \<notin> set (rooms t)
         \<or> ce_authority_scope r \<noteq> ''conversation''
      then Inl IntegrityError
      else Inr (t\<lparr>canonical_events := canonical_events t @ [r]\<rparr>))"

definition insert_broadcast :: "BroadcastRow \<Rightarrow> core_db \<Rightarrow> core_db res" where
  "insert_broadcast r t =
     (if bc_broadcast_id r \<in> set (map bc_broadcast_id (broadcasts t))
         \<or> bc_event_id r \<in> set (map bc_event_id (broadcasts t))
         \<or> bc_event_id r \<notin> set (map ce_event_id (canonical_events t))
         \<or> bc_room_id r \<notin> set (rooms t)
      then Inl IntegrityError
      else Inr (t\<lparr>broadcasts := broadcasts t @ [r]\<rparr>))"

definition recipient_key :: "RecipientRow \<Rightarrow> string \<times> string" where
  "recipient_key r = (bp_broadcast_id r, bp_recipient_id r)"

definition insert_recipient :: "RecipientRow \<Rightarrow> core_db \<Rightarrow> core_db res" where
  "insert_recipient r t =
     (if recipient_key r \<in> set (map recipient_key (broadcast_recipients t))
         \<or> (bp_broadcast_id r, bp_roster_ordinal r)
             \<in> set (map (\<lambda>x. (bp_broadcast_id x, bp_roster_ordinal x)) (broadcast_recipients t))
         \<or> bp_delivery_id r \<in> set (map bp_delivery_id (broadcast_recipients t))
         \<or> bp_broadcast_id r \<notin> set (map bc_broadcast_id (broadcasts t))
         \<or> \<not> delivery_known t (bp_delivery_id r)
      then Inl IntegrityError
      else Inr (t\<lparr>broadcast_recipients := broadcast_recipients t @ [r]\<rparr>))"

definition insert_broadcast_audit :: "BroadcastAuditRow \<Rightarrow> core_db \<Rightarrow> core_db res" where
  "insert_broadcast_audit r t =
     (if ba_broadcast_id r \<in> set (map ba_broadcast_id (broadcast_audits t))
         \<or> ba_broadcast_id r \<notin> set (map bc_broadcast_id (broadcasts t))
      then Inl IntegrityError
      else Inr (t\<lparr>broadcast_audits := broadcast_audits t @ [r]\<rparr>))"

section \<open>Expansion\<close>

record seat =
  st_recipient :: string
  st_delivery :: string
  st_attempt :: string
  st_binding :: "string option"

text \<open>The identifiers and the binding of the seat at position \<open>k\<close> of the roster.\<close>

definition plan_seat ::
  "(nat \<Rightarrow> string \<Rightarrow> string) \<Rightarrow> string \<Rightarrow> core_db \<Rightarrow> nat \<times> string \<Rightarrow> seat res" where
  "plan_seat ids accepted_at t kr =
     (case kr of (k, recipient) \<Rightarrow>
      case active_session_binding_for t recipient (Some accepted_at) of
        Inl e \<Rightarrow> Inl e
      | Inr b \<Rightarrow> Inr \<lparr>st_recipient = recipient,
                       st_delivery = ids (2 + 2 * k) ''delivery'',
                       st_attempt = ids (3 + 2 * k) ''attempt'',
                       st_binding = map_option sr_binding_id b\<rparr>)"

definition seat_delivery :: "string \<Rightarrow> seat \<Rightarrow> Delivery" where
  "seat_delivery event x =
     \<lparr>dl_event_id = event, dl_delivery_id = st_delivery x, dl_attempt_id = st_attempt x,
      dl_binding_id = st_binding x, dl_recipient_id = st_recipient x,
      dl_delivery_mode = SESSION_BOUND, dl_state = QUEUED, dl_disposition = None\<rparr>"

definition seat_row :: "string \<Rightarrow> nat \<Rightarrow> seat \<Rightarrow> RecipientRow" where
  "seat_row broadcast k x =
     \<lparr>bp_broadcast_id = broadcast, bp_recipient_id = st_recipient x, bp_roster_ordinal = k,
      bp_binding_id = st_binding x, bp_delivery_id = st_delivery x\<rparr>"

definition insert_seat :: "string \<Rightarrow> string \<Rightarrow> core_db \<Rightarrow> nat \<times> seat \<Rightarrow> core_db res" where
  "insert_seat broadcast event t kx =
     (case insert_delivery (seat_delivery event (snd kx)) t of
        Inl e \<Rightarrow> Inl e
      | Inr u \<Rightarrow> insert_recipient (seat_row broadcast (fst kx) (snd kx)) u)"

definition expansion ::
  "string \<Rightarrow> string \<Rightarrow> string \<Rightarrow> string \<Rightarrow> string \<Rightarrow> string \<Rightarrow> seat list \<Rightarrow> core_db \<Rightarrow> core_db res" where
  "expansion broadcast event actor room content accepted_at seats t =
     (case insert_event
        \<lparr>ce_event_id = event, ce_actor_id = actor, ce_room_id = room, ce_content = content,
         ce_accepted_at = accepted_at, ce_authority_scope = AUTHORITY_SCOPE\<rparr> t of
        Inl e \<Rightarrow> Inl e
      | Inr t1 \<Rightarrow>
     (case insert_broadcast
        \<lparr>bc_broadcast_id = broadcast, bc_event_id = event, bc_room_id = room,
         bc_roster_snapshot_size = length seats\<rparr> t1 of
        Inl e \<Rightarrow> Inl e
      | Inr t2 \<Rightarrow>
     (case try_each (insert_seat broadcast event) t2 (enumerate 0 seats) of
        Inl e \<Rightarrow> Inl e
      | Inr t3 \<Rightarrow> insert_broadcast_audit
        \<lparr>ba_broadcast_id = broadcast, ba_event_id = event, ba_roster_snapshot_size = length seats\<rparr> t3)))"

definition broadcast_body ::
  "(nat \<Rightarrow> string \<Rightarrow> string) \<Rightarrow> string \<Rightarrow> string \<Rightarrow> string \<Rightarrow> string \<Rightarrow> core_db \<Rightarrow> core_db res" where
  "broadcast_body ids actor room content accepted_at t =
     (let roster = filter (\<lambda>r. r \<noteq> actor) (room_roster t room)
      in if roster = [] then Inl (ValueError ''broadcast roster is empty'')
         else case map_res (plan_seat ids accepted_at t) (enumerate 0 roster) of
           Inl e \<Rightarrow> Inl e
         | Inr seats \<Rightarrow>
           if card (set (map st_delivery seats)) \<noteq> length seats
             then Inl (BroadcastConflictError ''delivery ID collision during fan-out'')
           else expansion (ids 0 ''broadcast'') (ids 1 ''event'') actor room content accepted_at seats t)"

section \<open>Outcome\<close>

definition outcome :: "core_db \<Rightarrow> RecipientRow \<Rightarrow> Delivery \<Rightarrow> BroadcastOutcome" where
  "outcome t r d =
     (let binding_state = (case bp_binding_id r of None \<Rightarrow> None
            | Some b \<Rightarrow> map_option sr_state (session_binding t b));
          load_bearing = (dl_state d = QUEUED \<or> dl_state d = DISPATCHING)
      in \<lparr>bo_recipient_id = bp_recipient_id r, bo_delivery_id = bp_delivery_id r,
          bo_binding_id = bp_binding_id r, bo_state = dl_state d,
          bo_disposition = dl_disposition d,
          bo_unavailable_reason =
            (if load_bearing \<and> bp_binding_id r = None then Some ''binding-absent''
             else if load_bearing \<and> binding_state \<noteq> Some ACTIVE
               then Some ''binding-revoked-or-superseded''
             else None)\<rparr>)"

text \<open>The join of the snapshot with \<open>deliveries\<close>, in roster order.\<close>

definition outcomes :: "core_db \<Rightarrow> string \<Rightarrow> BroadcastOutcome list" where
  "outcomes t i =
     List.map_filter (\<lambda>r. map_option (outcome t r) (get_delivery t (bp_delivery_id r)))
       (sort_key bp_roster_ordinal (filter (\<lambda>r. bp_broadcast_id r = i) (broadcast_recipients t)))"

definition delivered_states :: "DeliveryState list" where
  "delivered_states = [TRANSPORT_SUBMITTED, IN_SESSION, PROCESSED]"

definition result :: "core_db \<Rightarrow> string \<Rightarrow> BroadcastResult res" where
  "result t i =
     (case fetchone (\<lambda>r. bc_broadcast_id r = i) (broadcasts t) of
        None \<Rightarrow> Inl (KeyError i)
      | Some header \<Rightarrow>
        if length (outcomes t i) \<noteq> bc_roster_snapshot_size header
           \<or> (case broadcast_audit t i of None \<Rightarrow> True
              | Some a \<Rightarrow> ba_event_id a \<noteq> bc_event_id header
                  \<or> ba_roster_snapshot_size a \<noteq> bc_roster_snapshot_size header)
        then Inl (BroadcastConflictError ''broadcast snapshot is inconsistent'')
        else Inr \<lparr>br_broadcast_id = i, br_event_id = bc_event_id header,
                  br_room_id = bc_room_id header,
                  br_roster_snapshot_size = bc_roster_snapshot_size header,
                  br_outcomes = outcomes t i,
                  br_all_delivered = (outcomes t i \<noteq> [] \<and>
                    list_all (\<lambda>x. bo_state x \<in> set delivered_states) (outcomes t i))\<rparr>)"

text \<open>\<open>BEGIN IMMEDIATE\<close> raises when the connection already has a transaction open; \<open>with
  self.connection\<close> then rolls that one back.\<close>

definition broadcast ::
  "(nat \<Rightarrow> string \<Rightarrow> string) \<Rightarrow> string \<Rightarrow> string \<Rightarrow> string \<Rightarrow> string \<Rightarrow> core_store
     \<Rightarrow> BroadcastResult res \<times> core_store" where
  "broadcast ids actor room content accepted_at s =
     (if actor = [] \<or> room = [] \<or> content = []
        then (Inl (ValueError ''actor, room, and content must not be empty''), s)
      else case parse_timestamp accepted_at of
        Inl e \<Rightarrow> (Inl e, s)
      | Inr _ \<Rightarrow>
        if in_transaction s
          then (Inl (OperationalError ''cannot start a transaction within a transaction''),
                s\<lparr>in_transaction := False\<rparr>)
        else case with_connection (broadcast_body ids actor room content accepted_at) s of
          (Inl IntegrityError, s') \<Rightarrow>
            (Inl (BroadcastConflictError ''broadcast expansion was rolled back''), s')
        | (Inl e, s') \<Rightarrow> (Inl e, s')
        | (Inr _, s') \<Rightarrow> (result (db s') (ids 0 ''broadcast''), s'))"

end
