(* ===== verification/Core_Broadcasts_Facts.thy ===== *)
theory Core_Broadcasts_Facts
  imports Core_Broadcasts
begin

text \<open>
  Correctness of the broadcast kernel: what a committed expansion writes, the snapshot invariant
  \<open>broadcasts_ok\<close>, and that \<open>result\<close> reads back exactly the frozen roster. The four tables of a
  broadcast are instances of the insert contract.
\<close>

interpretation event_table: keyed_table canonical_events canonical_events_update ce_event_id insert_event
  by unfold_locales (auto simp: insert_event_def split: if_splits)

interpretation broadcast_table: keyed_table broadcasts broadcasts_update bc_broadcast_id insert_broadcast
  by unfold_locales (auto simp: insert_broadcast_def split: if_splits)

interpretation recipient_table: keyed_table broadcast_recipients broadcast_recipients_update recipient_key insert_recipient
  by unfold_locales (auto simp: insert_recipient_def split: if_splits)

interpretation broadcast_audit_table: keyed_table broadcast_audits broadcast_audits_update ba_broadcast_id insert_broadcast_audit
  by unfold_locales (auto simp: insert_broadcast_audit_def split: if_splits)

section \<open>What an expansion writes\<close>

definition seat_rows :: "string \<Rightarrow> nat \<Rightarrow> seat list \<Rightarrow> RecipientRow list" where
  "seat_rows b k seats = map (\<lambda>kx. seat_row b (fst kx) (snd kx)) (enumerate k seats)"

lemma seat_rows_simps [simp]:
  "seat_rows b k [] = []"
  "seat_rows b k (x # xs) = seat_row b k x # seat_rows b (Suc k) xs"
  by (simp_all add: seat_rows_def)

lemma map_seat_rows [simp]:
  "map bp_broadcast_id (seat_rows b k seats) = replicate (length seats) b"
  "map bp_roster_ordinal (seat_rows b k seats) = [k..<k + length seats]"
  "map bp_delivery_id (seat_rows b k seats) = map st_delivery seats"
  "map bp_recipient_id (seat_rows b k seats) = map st_recipient seats"
  by (induction seats arbitrary: k) (simp_all add: seat_row_def upt_rec)

lemma seat_delivery_id [simp]: "dl_delivery_id (seat_delivery e x) = st_delivery x"
  by (simp add: seat_delivery_def)

lemma insert_seats:
  assumes "try_each (insert_seat b e) t (enumerate k seats) = Inr t'"
  shows "t' = t\<lparr>deliveries := deliveries t @ map (seat_delivery e) seats,
                broadcast_recipients := broadcast_recipients t @ seat_rows b k seats\<rparr>"
  using assms
proof (induction seats arbitrary: t k)
  case Nil
  then show ?case by simp
next
  case (Cons x seats)
  from Cons.prems obtain u where u: "insert_seat b e t (k, x) = Inr u"
      "try_each (insert_seat b e) u (enumerate (Suc k) seats) = Inr t'"
    by (auto split: sum.splits)
  then have "u = t\<lparr>deliveries := deliveries t @ [seat_delivery e x],
      broadcast_recipients := broadcast_recipients t @ [seat_row b k x]\<rparr>"
    by (auto simp: insert_seat_def insert_delivery_def insert_recipient_def split: sum.splits if_splits)
  with Cons.IH[OF u(2)] show ?case by simp
qed

lemma wf_insert_seats:
  assumes "wf_db t" "try_each (insert_seat b e) t xs = Inr t'"
  shows "wf_db t'"
proof (rule try_each_wf[OF _ assms])
  fix s x s' assume "wf_db s" "insert_seat b e s x = Inr s'"
  then show "wf_db s'"
    by (auto simp: insert_seat_def insert_recipient_def wf_defs split: sum.splits if_splits
        dest!: wf_insert_delivery[rotated])
qed

lemma expansion_Inr:
  assumes "expansion b e actor room content when seats t = Inr t'"
  shows "t' = t\<lparr>canonical_events := canonical_events t @
             [\<lparr>ce_event_id = e, ce_actor_id = actor, ce_room_id = room, ce_content = content,
               ce_accepted_at = when, ce_authority_scope = AUTHORITY_SCOPE\<rparr>],
           broadcasts := broadcasts t @
             [\<lparr>bc_broadcast_id = b, bc_event_id = e, bc_room_id = room,
               bc_roster_snapshot_size = length seats\<rparr>],
           deliveries := deliveries t @ map (seat_delivery e) seats,
           broadcast_recipients := broadcast_recipients t @ seat_rows b 0 seats,
           broadcast_audits := broadcast_audits t @
             [\<lparr>ba_broadcast_id = b, ba_event_id = e, ba_roster_snapshot_size = length seats\<rparr>]\<rparr>"
    and "b \<notin> bc_broadcast_id ` set (broadcasts t)"
proof -
  from assms obtain t1 t2 t3 where 1: "insert_event
        \<lparr>ce_event_id = e, ce_actor_id = actor, ce_room_id = room, ce_content = content,
         ce_accepted_at = when, ce_authority_scope = AUTHORITY_SCOPE\<rparr> t = Inr t1"
    and 2: "insert_broadcast \<lparr>bc_broadcast_id = b, bc_event_id = e, bc_room_id = room,
         bc_roster_snapshot_size = length seats\<rparr> t1 = Inr t2"
    and 3: "try_each (insert_seat b e) t2 (enumerate 0 seats) = Inr t3"
    and 4: "insert_broadcast_audit
        \<lparr>ba_broadcast_id = b, ba_event_id = e, ba_roster_snapshot_size = length seats\<rparr> t3 = Inr t'"
    by (auto simp: expansion_def split: sum.splits)
  show "b \<notin> bc_broadcast_id ` set (broadcasts t)"
    using 1 2 by (auto simp: insert_event_def insert_broadcast_def split: if_splits)
  show "t' = t\<lparr>canonical_events := canonical_events t @
             [\<lparr>ce_event_id = e, ce_actor_id = actor, ce_room_id = room, ce_content = content,
               ce_accepted_at = when, ce_authority_scope = AUTHORITY_SCOPE\<rparr>],
           broadcasts := broadcasts t @
             [\<lparr>bc_broadcast_id = b, bc_event_id = e, bc_room_id = room,
               bc_roster_snapshot_size = length seats\<rparr>],
           deliveries := deliveries t @ map (seat_delivery e) seats,
           broadcast_recipients := broadcast_recipients t @ seat_rows b 0 seats,
           broadcast_audits := broadcast_audits t @
             [\<lparr>ba_broadcast_id = b, ba_event_id = e, ba_roster_snapshot_size = length seats\<rparr>]\<rparr>"
    using 1 2 4 insert_seats[OF 3]
    by (simp add: insert_event_def insert_broadcast_def insert_broadcast_audit_def split: if_splits)
      (elim conjE; hypsubst; simp)
qed

lemma wf_expansion:
  assumes "wf_db t" "expansion b e actor room content when seats t = Inr t'"
  shows "wf_db t'"
proof -
  from assms(2) obtain t1 t2 t3 where
    1: "insert_event \<lparr>ce_event_id = e, ce_actor_id = actor, ce_room_id = room, ce_content = content,
         ce_accepted_at = when, ce_authority_scope = AUTHORITY_SCOPE\<rparr> t = Inr t1"
    and 2: "insert_broadcast \<lparr>bc_broadcast_id = b, bc_event_id = e, bc_room_id = room,
         bc_roster_snapshot_size = length seats\<rparr> t1 = Inr t2"
    and 3: "try_each (insert_seat b e) t2 (enumerate 0 seats) = Inr t3"
    and 4: "insert_broadcast_audit
        \<lparr>ba_broadcast_id = b, ba_event_id = e, ba_roster_snapshot_size = length seats\<rparr> t3 = Inr t'"
    by (auto simp: expansion_def split: sum.splits)
  have "wf_db t1" using 1 assms(1) by (auto simp: insert_event_def wf_defs split: if_splits)
  then have "wf_db t2" using 2 by (auto simp: insert_broadcast_def wf_defs split: if_splits)
  then have "wf_db t3" using 3 by (rule wf_insert_seats)
  then show ?thesis using 4 by (auto simp: insert_broadcast_audit_def wf_defs split: if_splits)
qed

section \<open>The snapshot invariant\<close>

definition snapshot :: "core_db \<Rightarrow> string \<Rightarrow> RecipientRow list" where
  "snapshot t i = filter (\<lambda>r. bp_broadcast_id r = i) (broadcast_recipients t)"

definition snapshot_ok :: "core_db \<Rightarrow> BroadcastRow \<Rightarrow> bool" where
  "snapshot_ok t h \<longleftrightarrow>
     map bp_roster_ordinal (snapshot t (bc_broadcast_id h)) = [0..<bc_roster_snapshot_size h] \<and>
     broadcast_audit t (bc_broadcast_id h) =
       Some \<lparr>ba_broadcast_id = bc_broadcast_id h, ba_event_id = bc_event_id h,
             ba_roster_snapshot_size = bc_roster_snapshot_size h\<rparr>"

definition broadcasts_ok :: "core_db \<Rightarrow> bool" where
  "broadcasts_ok t \<longleftrightarrow>
     distinct (map bc_broadcast_id (broadcasts t)) \<and>
     refers bc_event_id (broadcasts t) ce_event_id (canonical_events t) \<and>
     refers bp_broadcast_id (broadcast_recipients t) bc_broadcast_id (broadcasts t) \<and>
     refers ba_broadcast_id (broadcast_audits t) bc_broadcast_id (broadcasts t) \<and>
     refers bp_delivery_id (broadcast_recipients t) dl_delivery_id (deliveries t) \<and>
     (\<forall>h \<in> set (broadcasts t). snapshot_ok t h)"

lemma broadcasts_ok_empty [simp]: "broadcasts_ok empty_db"
  by (simp add: broadcasts_ok_def empty_db_def)

text \<open>An operation that leaves the broadcast tables alone and deletes no delivery keeps it.\<close>

definition same_broadcasts :: "core_db \<Rightarrow> core_db \<Rightarrow> bool" where
  "same_broadcasts t t' \<longleftrightarrow>
     broadcasts t' = broadcasts t \<and> broadcast_recipients t' = broadcast_recipients t \<and>
     broadcast_audits t' = broadcast_audits t \<and> canonical_events t' = canonical_events t \<and>
     dl_delivery_id ` set (deliveries t) \<subseteq> dl_delivery_id ` set (deliveries t')"

lemma same_broadcasts_refl [simp]: "same_broadcasts t t"
  by (simp add: same_broadcasts_def)

lemma same_broadcasts_trans: "same_broadcasts t u \<Longrightarrow> same_broadcasts u v \<Longrightarrow> same_broadcasts t v"
  by (auto simp: same_broadcasts_def)

lemma broadcasts_ok_same:
  assumes "broadcasts_ok t" "same_broadcasts t t'"
  shows "broadcasts_ok t'"
proof -
  have "snapshot_ok t' h = snapshot_ok t h" for h
    using assms(2) by (simp add: snapshot_ok_def snapshot_def broadcast_audit_def same_broadcasts_def)
  moreover have "refers bp_delivery_id (broadcast_recipients t) dl_delivery_id (deliveries t')"
    using assms unfolding broadcasts_ok_def same_broadcasts_def refers_def by (meson subset_trans)
  ultimately show ?thesis using assms by (simp add: broadcasts_ok_def same_broadcasts_def)
qed

lemma filter_seat_rows:
  "filter (\<lambda>r. bp_broadcast_id r = i) (seat_rows b k seats) = (if i = b then seat_rows b k seats else [])"
  by (induction seats arbitrary: k) (auto simp: seat_row_def)

lemma refers_append: "refers f (xs @ ys) g zs \<longleftrightarrow> refers f xs g zs \<and> refers f ys g zs"
  by (auto simp: refers_def)

lemma refers_seat_rows:
  "refers bp_broadcast_id (seat_rows b k seats) g (rows @ [h])" if "g h = b"
  using map_seat_rows(1)[of b k seats] that
  by (auto simp: refers_def simp flip: set_map split: if_splits)

lemma refers_seat_deliveries:
  "refers bp_delivery_id (seat_rows b k seats) dl_delivery_id (rows @ map (seat_delivery e) seats)"
proof -
  have "bp_delivery_id ` set (seat_rows b k seats) = st_delivery ` set seats"
    using arg_cong[OF map_seat_rows(3), of set b k seats] by (simp only: set_map)
  then show ?thesis by (simp add: refers_def image_Un image_image)
qed

lemma broadcasts_ok_expansion:
  assumes ok: "broadcasts_ok t" and ex: "expansion b e actor room content when seats t = Inr t'"
  shows "broadcasts_ok t'"
proof -
  note t' = expansion_Inr(1)[OF ex] and fresh = expansion_Inr(2)[OF ex]
  have no_rows: "snapshot t b = []"
    using ok fresh by (auto simp: broadcasts_ok_def refers_def snapshot_def filter_empty_conv)
  have no_audit: "broadcast_audit t b = None"
  proof -
    have "b \<notin> ba_broadcast_id ` set (broadcast_audits t)"
      using ok fresh unfolding broadcasts_ok_def refers_def by blast
    then show ?thesis by (auto simp: broadcast_audit_def fetchone_None_iff)
  qed
  have snap: "snapshot t' i = (if i = b then seat_rows b 0 seats else snapshot t i)" for i
    using no_rows by (auto simp: snapshot_def t' filter_seat_rows)
  have aud: "broadcast_audit t' i = (if i = b
      then Some \<lparr>ba_broadcast_id = b, ba_event_id = e, ba_roster_snapshot_size = length seats\<rparr>
      else broadcast_audit t i)" for i
    using no_audit by (auto simp: broadcast_audit_def t' fetchone_append split: option.splits)
  have old: "snapshot_ok t' h" if "h \<in> set (broadcasts t)" for h
    using that ok fresh by (auto simp: snapshot_ok_def snap aud broadcasts_ok_def)
  have new: "snapshot_ok t' \<lparr>bc_broadcast_id = b, bc_event_id = e, bc_room_id = room,
      bc_roster_snapshot_size = length seats\<rparr>"
    by (simp add: snapshot_ok_def snap aud)
  have bcs: "set (broadcasts t') = insert \<lparr>bc_broadcast_id = b, bc_event_id = e, bc_room_id = room,
      bc_roster_snapshot_size = length seats\<rparr> (set (broadcasts t))"
    by (simp add: t')
  have "distinct (map bc_broadcast_id (broadcasts t'))"
    using ok fresh by (simp add: broadcasts_ok_def t')
  moreover have "refers bc_event_id (broadcasts t') ce_event_id (canonical_events t')"
    using ok by (simp add: broadcasts_ok_def t')
  moreover have "refers bp_broadcast_id (broadcast_recipients t') bc_broadcast_id (broadcasts t')"
    using ok by (simp add: broadcasts_ok_def t' refers_append refers_seat_rows)
  moreover have "refers ba_broadcast_id (broadcast_audits t') bc_broadcast_id (broadcasts t')"
    using ok unfolding broadcasts_ok_def by (simp add: t')
  moreover have "refers bp_delivery_id (broadcast_recipients t') dl_delivery_id (deliveries t')"
    using ok by (simp add: broadcasts_ok_def t' refers_append refers_seat_deliveries)
  ultimately show ?thesis using old new unfolding broadcasts_ok_def bcs by blast
qed

section \<open>Reading the snapshot back\<close>

lemma sorted_snapshot:
  assumes "snapshot_ok t h"
  shows "sort_key bp_roster_ordinal (snapshot t (bc_broadcast_id h)) = snapshot t (bc_broadcast_id h)"
  using assms by (intro sort_key_id_if_sorted) (simp add: snapshot_ok_def)

lemma map_filter_total:
  assumes "\<And>x. x \<in> set xs \<Longrightarrow> \<exists>y. f x = Some y"
  shows "List.map_filter f xs = map (\<lambda>x. the (f x)) xs"
  using assms by (induction xs) (fastforce simp: List.map_filter_simps)+

lemma outcomes_snapshot:
  assumes ok: "broadcasts_ok t" and h: "h \<in> set (broadcasts t)"
  shows "outcomes t (bc_broadcast_id h) =
    map (\<lambda>r. outcome t r (the (get_delivery t (bp_delivery_id r)))) (snapshot t (bc_broadcast_id h))"
proof -
  have "\<exists>d. get_delivery t (bp_delivery_id r) = Some d" if "r \<in> set (broadcast_recipients t)" for r
  proof -
    have "bp_delivery_id r \<in> dl_delivery_id ` set (deliveries t)"
      using ok that unfolding broadcasts_ok_def refers_def by blast
    then show ?thesis
      by (cases "get_delivery t (bp_delivery_id r)") (auto simp: get_delivery_def fetchone_None_iff)
  qed
  then have found: "\<exists>d. get_delivery t (bp_delivery_id r) = Some d"
    if "r \<in> set (snapshot t (bc_broadcast_id h))" for r
    using that by (simp add: snapshot_def)
  have "snapshot_ok t h" using ok h by (simp add: broadcasts_ok_def)
  from sorted_snapshot[OF this] have "outcomes t (bc_broadcast_id h) =
      List.map_filter (\<lambda>r. map_option (outcome t r) (get_delivery t (bp_delivery_id r)))
        (snapshot t (bc_broadcast_id h))"
    by (simp add: outcomes_def snapshot_def)
  also have "\<dots> = map (\<lambda>r. the (map_option (outcome t r) (get_delivery t (bp_delivery_id r))))
      (snapshot t (bc_broadcast_id h))"
    using found by (intro map_filter_total) (metis option.simps(9))
  also have "\<dots> = map (\<lambda>r. outcome t r (the (get_delivery t (bp_delivery_id r)))) (snapshot t (bc_broadcast_id h))"
    using found by (intro map_cong) (auto dest!: found)
  finally show ?thesis .
qed

text \<open>Every recorded broadcast can be read back: \<open>result\<close> never reports an inconsistent snapshot.\<close>

lemma result_total:
  assumes ok: "broadcasts_ok t" and h: "h \<in> set (broadcasts t)"
  shows "result t (bc_broadcast_id h) = Inr
    \<lparr>br_broadcast_id = bc_broadcast_id h, br_event_id = bc_event_id h, br_room_id = bc_room_id h,
     br_roster_snapshot_size = bc_roster_snapshot_size h, br_outcomes = outcomes t (bc_broadcast_id h),
     br_all_delivered = (outcomes t (bc_broadcast_id h) \<noteq> [] \<and>
       list_all (\<lambda>x. bo_state x \<in> set delivered_states) (outcomes t (bc_broadcast_id h)))\<rparr>"
proof -
  have snap: "snapshot_ok t h" "distinct (map bc_broadcast_id (broadcasts t))"
    using ok h by (simp_all add: broadcasts_ok_def)
  have "length (snapshot t (bc_broadcast_id h)) = bc_roster_snapshot_size h"
    using snap(1) unfolding snapshot_ok_def by (metis diff_zero length_map length_upt)
  then have len: "length (outcomes t (bc_broadcast_id h)) = bc_roster_snapshot_size h"
    by (simp add: outcomes_snapshot[OF ok h])
  have "fetchone (\<lambda>r. bc_broadcast_id r = bc_broadcast_id h) (broadcasts t) = Some h"
    using snap(2) h by (rule fetchone_key)
  with snap(1) len show ?thesis by (simp add: result_def snapshot_ok_def)
qed

section \<open>The broadcast operation\<close>

lemma map_res_Inr: "map_res f xs = Inr ys \<Longrightarrow> list_all2 (\<lambda>x y. f x = Inr y) xs ys"
  by (induction xs arbitrary: ys) (auto split: sum.splits)

lemma planned_recipients:
  assumes "map_res (plan_seat ids when t) (enumerate k roster) = Inr seats"
  shows "map st_recipient seats = roster"
  using assms
proof (induction roster arbitrary: k seats)
  case (Cons r roster)
  then show ?case by (auto simp: plan_seat_def split: sum.splits)
qed simp

lemma broadcast_body_Inr:
  assumes "broadcast_body ids actor room content when t = Inr t'"
  obtains seats where
    "map_res (plan_seat ids when t) (enumerate 0 (filter (\<lambda>r. r \<noteq> actor) (room_roster t room))) = Inr seats"
    "seats \<noteq> []" "distinct (map st_delivery seats)"
    "map st_recipient seats = filter (\<lambda>r. r \<noteq> actor) (room_roster t room)"
    "expansion (ids 0 ''broadcast'') (ids 1 ''event'') actor room content when seats t = Inr t'"
proof -
  let ?roster = "filter (\<lambda>r. r \<noteq> actor) (room_roster t room)"
  from assms have ne: "?roster \<noteq> []"
    by (auto simp: broadcast_body_def Let_def split: if_splits)
  with assms obtain seats where seats: "map_res (plan_seat ids when t) (enumerate 0 ?roster) = Inr seats"
      and card: "card (set (map st_delivery seats)) = length seats"
      and ex: "expansion (ids 0 ''broadcast'') (ids 1 ''event'') actor room content when seats t = Inr t'"
    by (auto simp: broadcast_body_def Let_def split: sum.splits if_splits)
  have "distinct (map st_delivery seats)" using card by (intro card_distinct) simp
  moreover have "map st_recipient seats = ?roster" by (rule planned_recipients[OF seats])
  moreover from this ne have "seats \<noteq> []" by auto
  ultimately show ?thesis using that seats ex by blast
qed

text \<open>Either the whole expansion commits and its result is returned, or no table changes.\<close>

lemma broadcast_outcome:
  assumes "broadcast ids actor room content when s = (res, s')"
  shows "(\<exists>e. res = Inl e \<and> db s' = db s) \<or>
    (broadcast_body ids actor room content when (db s) = Inr (db s') \<and>
     res = result (db s') (ids 0 ''broadcast'') \<and> \<not> in_transaction s \<and> \<not> in_transaction s')"
proof (cases "broadcast_body ids actor room content when (db s)")
  case (Inl e)
  with assms show ?thesis
    by (cases e) (auto simp: broadcast_def with_connection_def split: if_splits sum.splits)
next
  case (Inr t)
  with assms show ?thesis
    by (auto simp: broadcast_def with_connection_def split: if_splits sum.splits)
qed

lemma broadcast_keeps:
  assumes "broadcast ids actor room content when s = (res, s')"
  shows "wf_db (db s) \<Longrightarrow> wf_db (db s')" "broadcasts_ok (db s) \<Longrightarrow> broadcasts_ok (db s')"
    "bindings_ok (db s) \<Longrightarrow> bindings_ok (db s')"
proof -
  have "wf_db t \<longrightarrow> wf_db t'" "broadcasts_ok t \<longrightarrow> broadcasts_ok t'" "bindings_ok t \<longrightarrow> bindings_ok t'"
    if "broadcast_body ids actor room content when t = Inr t'" for t t'
    using that wf_expansion broadcasts_ok_expansion
    by (auto elim!: broadcast_body_Inr dest: expansion_Inr(1) simp: bindings_ok_def)
  with broadcast_outcome[OF assms] show "wf_db (db s) \<Longrightarrow> wf_db (db s')"
    "broadcasts_ok (db s) \<Longrightarrow> broadcasts_ok (db s')" "bindings_ok (db s) \<Longrightarrow> bindings_ok (db s')"
    by auto
qed

lemma snapshot_expansion:
  assumes ok: "broadcasts_ok t" and ex: "expansion b e actor room content when seats t = Inr t'"
  shows "snapshot t' b = seat_rows b 0 seats"
proof -
  have "snapshot t b = []"
    using ok expansion_Inr(2)[OF ex] by (auto simp: broadcasts_ok_def refers_def snapshot_def filter_empty_conv)
  then show ?thesis by (simp add: snapshot_def expansion_Inr(1)[OF ex] filter_seat_rows)
qed

lemma get_delivery_new:
  assumes wf: "wf_db t'" and ex: "expansion b e actor room content when seats t = Inr t'" and x: "x \<in> set seats"
  shows "get_delivery t' (st_delivery x) = Some (seat_delivery e x)"
proof -
  have "distinct (map dl_delivery_id (deliveries t'))" using wf by (simp add: wf_defs)
  moreover have "seat_delivery e x \<in> set (deliveries t')" using x by (simp add: expansion_Inr(1)[OF ex])
  ultimately show ?thesis using fetchone_key[of dl_delivery_id "deliveries t'" "seat_delivery e x"]
    by (simp add: get_delivery_def)
qed

lemma outcome_simps [simp]:
  "bo_recipient_id (outcome t r d) = bp_recipient_id r"
  "bo_delivery_id (outcome t r d) = bp_delivery_id r"
  "bo_binding_id (outcome t r d) = bp_binding_id r"
  "bo_state (outcome t r d) = dl_state d"
  "bo_disposition (outcome t r d) = dl_disposition d"
  by (simp_all add: outcome_def Let_def)

lemma set_seat_rows: "r \<in> set (seat_rows b k seats) \<Longrightarrow> \<exists>j. \<exists>x \<in> set seats. r = seat_row b j x"
  by (induction seats arbitrary: k) (auto, blast)

lemma expansion_result:
  assumes wf: "wf_db t" and ok: "broadcasts_ok t"
    and ex: "expansion b e actor room content when seats t = Inr t'" and ne: "seats \<noteq> []"
  shows "\<exists>r. result t' b = Inr r \<and> br_event_id r = e \<and> br_room_id r = room \<and>
     br_roster_snapshot_size r = length seats \<and>
     map bo_recipient_id (br_outcomes r) = map st_recipient seats \<and>
     (\<forall>x \<in> set (br_outcomes r). bo_state x = QUEUED \<and> bo_disposition x = None) \<and>
     \<not> br_all_delivered r"
proof -
  let ?h = "\<lparr>bc_broadcast_id = b, bc_event_id = e, bc_room_id = room, bc_roster_snapshot_size = length seats\<rparr>"
  have ok': "broadcasts_ok t'" and wf': "wf_db t'"
    using broadcasts_ok_expansion[OF ok ex] wf_expansion[OF wf ex] by auto
  have h: "?h \<in> set (broadcasts t')" by (simp add: expansion_Inr(1)[OF ex])
  have snap: "snapshot t' b = seat_rows b 0 seats" by (rule snapshot_expansion[OF ok ex])
  have out: "outcomes t' b = map (\<lambda>r. outcome t' r (the (get_delivery t' (bp_delivery_id r)))) (seat_rows b 0 seats)"
    using outcomes_snapshot[OF ok' h] by (simp add: snap)
  have queued: "bo_state x = QUEUED \<and> bo_disposition x = None" if "x \<in> set (outcomes t' b)" for x
    using that get_delivery_new[OF wf' ex]
    by (auto simp: out seat_row_def seat_delivery_def dest!: set_seat_rows)
  have recips: "map bo_recipient_id (outcomes t' b) = map st_recipient seats"
    unfolding out map_map o_def outcome_simps using map_seat_rows(4)[of b 0 seats] by simp
  then have "outcomes t' b \<noteq> []" using ne by auto
  then have "\<not> list_all (\<lambda>x. bo_state x \<in> set delivered_states) (outcomes t' b)"
    using queued by (cases "outcomes t' b") (auto simp: delivered_states_def)
  with result_total[OF ok' h] queued recips show ?thesis by simp
qed

text \<open>C16: A broadcast that returns has frozen the room's roster without the actor: one outcome per
  seat in roster order, every delivery queued, and the broadcast not reported as delivered.\<close>

theorem broadcast_fans_out:
  assumes "wf_db (db s)" "broadcasts_ok (db s)"
    and "broadcast ids actor room content when s = (Inr r, s')"
  shows "map bo_recipient_id (br_outcomes r) = filter (\<lambda>x. x \<noteq> actor) (room_roster (db s) room) \<and>
    br_roster_snapshot_size r = length (filter (\<lambda>x. x \<noteq> actor) (room_roster (db s) room)) \<and>
    (\<forall>x \<in> set (br_outcomes r). bo_state x = QUEUED \<and> bo_disposition x = None) \<and>
    \<not> br_all_delivered r"
proof -
  from broadcast_outcome[OF assms(3)]
  have body: "broadcast_body ids actor room content when (db s) = Inr (db s')"
    and r: "result (db s') (ids 0 ''broadcast'') = Inr r"
    by auto
  from body show ?thesis
  proof (rule broadcast_body_Inr)
    fix seats
    assume "seats \<noteq> []" "map st_recipient seats = filter (\<lambda>r. r \<noteq> actor) (room_roster (db s) room)"
      "expansion (ids 0 ''broadcast'') (ids 1 ''event'') actor room content when seats (db s) = Inr (db s')"
    note seats = this
    have "length seats = length (filter (\<lambda>r. r \<noteq> actor) (room_roster (db s) room))"
      by (simp flip: seats(2))
    with expansion_result[OF assms(1,2) seats(3,1)] r show ?thesis by (simp add: seats(2))
  qed
qed

lemma broadcast_raise_clean:
  assumes "wf_db (db s)" "broadcasts_ok (db s)"
    and "broadcast ids actor room content when s = (Inl e, s')"
  shows "db s' = db s"
proof (rule ccontr)
  assume "db s' \<noteq> db s"
  with broadcast_outcome[OF assms(3)]
  have body: "broadcast_body ids actor room content when (db s) = Inr (db s')"
    and r: "result (db s') (ids 0 ''broadcast'') = Inl e"
    by auto
  from body show False
    by (rule broadcast_body_Inr) (use expansion_result[OF assms(1,2)] r in force)
qed

section \<open>A broadcast with fresh identifiers commits\<close>

lemma planned_deliveries:
  assumes "map_res (plan_seat ids when t) (enumerate k roster) = Inr seats"
  shows "map st_delivery seats = map (\<lambda>j. ids (2 + 2 * j) ''delivery'') [k..<k + length roster]"
  using assms
proof (induction roster arbitrary: k seats)
  case (Cons r roster)
  from Cons.prems obtain x xs where x: "plan_seat ids when t (k, r) = Inr x" "seats = x # xs"
      and xs: "map_res (plan_seat ids when t) (enumerate (Suc k) roster) = Inr xs"
    by (auto split: sum.splits)
  have "st_delivery x = ids (2 + 2 * k) ''delivery''"
    using x(1) by (auto simp: plan_seat_def split: sum.splits)
  moreover have "[k..<k + length (r # roster)] = k # [Suc k..<Suc k + length roster]"
    using upt_conv_Cons[of k "k + length (r # roster)"] by simp
  ultimately show ?case using Cons.IH[OF xs] by (simp add: x(2))
qed simp

lemma plan_total:
  assumes "bindings_ok t" "parse_timestamp when = Inr v"
  shows "\<exists>seats. map_res (plan_seat ids when t) xs = Inr seats"
proof (induction xs)
  case (Cons x xs)
  obtain k r where x: "x = (k, r)" by (cases x)
  obtain b where "active_session_binding_for t r (Some when) = Inr b"
    using active_session_binding_for_total[OF assms] by blast
  with Cons show ?case by (auto simp: plan_seat_def x)
qed simp

lemma insert_seats_commit:
  assumes "b \<in> set (map bc_broadcast_id (broadcasts t))"
    and "distinct (map st_delivery seats)" "distinct (map st_recipient seats)"
    and "\<forall>x \<in> set seats. st_delivery x \<notin> set (map dl_delivery_id (deliveries t))"
    and "set (map bp_delivery_id (broadcast_recipients t)) \<subseteq> set (map dl_delivery_id (deliveries t))"
    and "\<forall>r \<in> set (broadcast_recipients t). bp_broadcast_id r = b \<longrightarrow>
      bp_roster_ordinal r < k \<and> bp_recipient_id r \<notin> set (map st_recipient seats)"
  shows "\<exists>t'. try_each (insert_seat b e) t (enumerate k seats) = Inr t'"
  using assms
proof (induction seats arbitrary: t k)
  case (Cons x seats)
  let ?u = "t\<lparr>deliveries := deliveries t @ [seat_delivery e x]\<rparr>"
  let ?v = "?u\<lparr>broadcast_recipients := broadcast_recipients t @ [seat_row b k x]\<rparr>"
  have 1: "insert_delivery (seat_delivery e x) t = Inr ?u"
    using Cons.prems(4) by (simp add: insert_delivery_def)
  have row: "bp_broadcast_id r = b \<Longrightarrow> bp_roster_ordinal r < k \<and> bp_recipient_id r \<noteq> st_recipient x"
    if "r \<in> set (broadcast_recipients t)" for r
    using Cons.prems(6) that by auto
  have "recipient_key (seat_row b k x) \<notin> set (map recipient_key (broadcast_recipients t))"
    "(b, k) \<notin> set (map (\<lambda>x. (bp_broadcast_id x, bp_roster_ordinal x)) (broadcast_recipients t))"
    using row by (force simp: recipient_key_def seat_row_def)+
  moreover have "st_delivery x \<notin> set (map bp_delivery_id (broadcast_recipients t))"
    using Cons.prems(4,5) by auto
  ultimately have 2: "insert_recipient (seat_row b k x) ?u = Inr ?v"
    using Cons.prems(1) by (simp add: insert_recipient_def seat_row_def delivery_known_def)
  have "\<exists>t'. try_each (insert_seat b e) ?v (enumerate (Suc k) seats) = Inr t'"
  proof (rule Cons.IH)
    show "\<forall>r \<in> set (broadcast_recipients ?v). bp_broadcast_id r = b \<longrightarrow>
        bp_roster_ordinal r < Suc k \<and> bp_recipient_id r \<notin> set (map st_recipient seats)"
      using Cons.prems(3,6) by (auto simp: seat_row_def less_Suc_eq)
    show "\<forall>y \<in> set seats. st_delivery y \<notin> set (map dl_delivery_id (deliveries ?v))"
      using Cons.prems(2,4) by (auto simp: image_iff)
  qed (use Cons.prems in \<open>auto simp: seat_row_def\<close>)
  moreover have "insert_seat b e t (k, x) = Inr ?v" using 1 2 by (simp add: insert_seat_def)
  ultimately show ?case by simp
qed simp

lemma room_roster_distinct: "wf_db t \<Longrightarrow> distinct (room_roster t room)"
proof -
  assume "wf_db t"
  then have "distinct (map member_key (filter (\<lambda>r. rm_room_id r = room) (room_members t)))"
    by (simp add: wf_defs distinct_map_filter)
  then have "distinct (map rm_recipient_id (filter (\<lambda>r. rm_room_id r = room) (room_members t)))"
    unfolding distinct_map by (auto simp: inj_on_def member_key_def)
  then show ?thesis by (simp add: room_roster_def distinct_map)
qed

lemma room_roster_room:
  assumes "wf_db t" "room_roster t room \<noteq> []"
  shows "room \<in> set (rooms t)"
proof -
  have "set (filter (\<lambda>r. rm_room_id r = room) (room_members t)) \<noteq> {}"
    using assms(2) unfolding room_roster_def by (metis list.map_disc_iff set_empty set_sort)
  moreover have "refers rm_room_id (room_members t) (\<lambda>r. r) (rooms t)" using assms(1) by (simp add: wf_defs)
  ultimately show ?thesis by (auto simp: refers_def)
qed

lemma refers_fresh: "refers f xs g ys \<Longrightarrow> k \<notin> g ` set ys \<Longrightarrow> k \<notin> f ` set xs"
  by (auto simp: refers_def)

lemma expansion_commits:
  assumes wf: "wf_db t" and ok: "broadcasts_ok t" and room: "room \<in> set (rooms t)"
    and b: "b \<notin> bc_broadcast_id ` set (broadcasts t)" and e: "e \<notin> ce_event_id ` set (canonical_events t)"
    and d: "distinct (map st_delivery seats)" "distinct (map st_recipient seats)"
      "\<forall>x \<in> set seats. st_delivery x \<notin> dl_delivery_id ` set (deliveries t)"
  shows "\<exists>t'. expansion b e actor room content when seats t = Inr t'"
proof -
  let ?ev = "\<lparr>ce_event_id = e, ce_actor_id = actor, ce_room_id = room, ce_content = content,
      ce_accepted_at = when, ce_authority_scope = AUTHORITY_SCOPE\<rparr>"
  let ?h = "\<lparr>bc_broadcast_id = b, bc_event_id = e, bc_room_id = room, bc_roster_snapshot_size = length seats\<rparr>"
  let ?t1 = "t\<lparr>canonical_events := canonical_events t @ [?ev]\<rparr>"
  let ?t2 = "?t1\<lparr>broadcasts := broadcasts t @ [?h]\<rparr>"
  have be: "e \<notin> bc_event_id ` set (broadcasts t)"
    using ok e refers_fresh unfolding broadcasts_ok_def by metis
  have br: "b \<notin> bp_broadcast_id ` set (broadcast_recipients t)"
    "b \<notin> ba_broadcast_id ` set (broadcast_audits t)"
    using ok b refers_fresh unfolding broadcasts_ok_def by metis+
  have 1: "insert_event ?ev t = Inr ?t1" using e room by (simp add: insert_event_def AUTHORITY_SCOPE_def)
  have 2: "insert_broadcast ?h ?t1 = Inr ?t2" using b be room by (simp add: insert_broadcast_def)
  have "\<exists>t'. try_each (insert_seat b e) ?t2 (enumerate 0 seats) = Inr t'"
    using d br(1) ok by (intro insert_seats_commit) (auto simp: broadcasts_ok_def refers_def)
  then obtain t3 where 3: "try_each (insert_seat b e) ?t2 (enumerate 0 seats) = Inr t3" by blast
  from insert_seats[OF 3] br(2) have "\<exists>t'. insert_broadcast_audit
      \<lparr>ba_broadcast_id = b, ba_event_id = e, ba_roster_snapshot_size = length seats\<rparr> t3 = Inr t'"
    by (simp add: insert_broadcast_audit_def)
  with 1 2 3 show ?thesis by (simp add: expansion_def)
qed

text \<open>C17: With well-formed arguments, no transaction left open, a roster seat besides the actor and
  unused identifiers, a broadcast returns a result.\<close>

theorem broadcast_commits:
  assumes "wf_db (db s)" "broadcasts_ok (db s)" "bindings_ok (db s)" "\<not> in_transaction s"
    and "actor \<noteq> []" "room \<noteq> []" "content \<noteq> []" "parse_timestamp when = Inr v"
    and "filter (\<lambda>x. x \<noteq> actor) (room_roster (db s) room) \<noteq> []"
    and "ids 0 ''broadcast'' \<notin> bc_broadcast_id ` set (broadcasts (db s))"
    and "ids 1 ''event'' \<notin> ce_event_id ` set (canonical_events (db s))"
    and "inj (\<lambda>j. ids (2 + 2 * j) ''delivery'')"
    and "\<And>j. ids (2 + 2 * j) ''delivery'' \<notin> dl_delivery_id ` set (deliveries (db s))"
  shows "\<exists>r. fst (broadcast ids actor room content when s) = Inr r \<and> br_broadcast_id r = ids 0 ''broadcast''"
proof -
  let ?roster = "filter (\<lambda>x. x \<noteq> actor) (room_roster (db s) room)"
  obtain seats where seats: "map_res (plan_seat ids when (db s)) (enumerate 0 ?roster) = Inr seats"
    using plan_total[OF assms(3,8)] by blast
  note dels = planned_deliveries[OF seats] and recs = planned_recipients[OF seats]
  have dist: "distinct (map st_delivery seats)"
    unfolding dels distinct_map using inj_on_subset[OF assms(12) subset_UNIV] by simp
  have fresh: "\<forall>x \<in> set seats. st_delivery x \<notin> dl_delivery_id ` set (deliveries (db s))"
  proof
    fix x assume "x \<in> set seats"
    then have "st_delivery x \<in> set (map st_delivery seats)" by simp
    then obtain j where "st_delivery x = ids (2 + 2 * j) ''delivery''" unfolding dels by auto
    with assms(13) show "st_delivery x \<notin> dl_delivery_id ` set (deliveries (db s))" by simp
  qed
  have "room \<in> set (rooms (db s))"
    by (rule room_roster_room[OF assms(1)]) (use assms(9) in auto)
  moreover have "distinct (map st_recipient seats)"
    unfolding recs using room_roster_distinct[OF assms(1), of room] by simp
  ultimately obtain t where ex: "expansion (ids 0 ''broadcast'') (ids 1 ''event'') actor room content when seats (db s) = Inr t"
    using expansion_commits[OF assms(1,2) _ assms(10,11) dist _ fresh] by blast
  have ne: "seats \<noteq> []" using recs assms(9) by auto
  have "broadcast_body ids actor room content when (db s) = Inr t"
    using assms(9) seats ex dist by (simp add: broadcast_body_def distinct_card[OF dist, simplified])
  with assms(4-8) have "fst (broadcast ids actor room content when s) = result t (ids 0 ''broadcast'')"
    by (simp add: broadcast_def with_connection_def)
  with expansion_result[OF assms(1,2) ex ne] show ?thesis
    by (auto simp: result_def split: option.splits if_splits)
qed

text \<open>A broadcast to one seat, for the witnesses.\<close>

definition example_room :: core_store where
  "example_room = snd (replace_room_roster ''ops'' [''ana'', ''bo''] example_store)"

definition example_ids :: "nat \<Rightarrow> string \<Rightarrow> string" where
  "example_ids n kind = kind @ replicate n (CHR ''x'')"

lemma example_room_ok:
  "wf_db (db example_room)" "broadcasts_ok (db example_room)" "bindings_ok (db example_room)"
proof -
  show "wf_db (db example_room)"
    unfolding example_room_def by (rule wf_replace_room_roster[OF wf_example_store])
  have "broadcasts (db example_room) = []" "broadcast_recipients (db example_room) = []"
    "broadcast_audits (db example_room) = []" "session_bindings (db example_room) = []"
    "binding_proof_methods (db example_room) = []"
    by code_simp+
  then show "broadcasts_ok (db example_room)" "bindings_ok (db example_room)"
    by (simp_all add: broadcasts_ok_def bindings_ok_def)
qed

text \<open>Witness of C16.\<close>

theorem broadcast_fans_out_witness:
  "case fst (broadcast example_ids ''bo'' ''ops'' ''hello'' ''2026-07-01T00:00:00Z'' example_room) of
     Inr r \<Rightarrow> map bo_recipient_id (br_outcomes r) = [''ana''] | Inl _ \<Rightarrow> False"
proof -
  let ?b = "broadcast example_ids ''bo'' ''ops'' ''hello'' ''2026-07-01T00:00:00Z'' example_room"
  have "\<not> isl (fst ?b)" by code_simp
  then obtain r where r: "fst ?b = Inr r" by (cases "fst ?b") auto
  then have "?b = (Inr r, snd ?b)" by (metis prod.collapse)
  from broadcast_fans_out[OF example_room_ok(1,2) this]
  have "map bo_recipient_id (br_outcomes r) = filter (\<lambda>x. x \<noteq> ''bo'') (room_roster (db example_room) ''ops'')"
    by simp
  also have "\<dots> = [''ana'']" by code_simp
  finally show ?thesis by (simp add: r)
qed

text \<open>Witness of C17.\<close>

theorem broadcast_commits_witness:
  "\<exists>r. fst (broadcast example_ids ''bo'' ''ops'' ''hello'' ''2026-07-01T00:00:00Z'' example_room) = Inr r \<and>
     br_broadcast_id r = ''broadcast''"
proof -
  have "\<not> isl (parse_timestamp ''2026-07-01T00:00:00Z'')" by code_simp
  then obtain v where t: "parse_timestamp ''2026-07-01T00:00:00Z'' = Inr v"
    by (cases "parse_timestamp ''2026-07-01T00:00:00Z''") auto
  have "deliveries (db example_room) = []" "broadcasts (db example_room) = []"
    "canonical_events (db example_room) = []" "\<not> in_transaction example_room"
    "filter (\<lambda>x. x \<noteq> ''bo'') (room_roster (db example_room) ''ops'') \<noteq> []"
    by code_simp+
  moreover have "inj (\<lambda>j. example_ids (2 + 2 * j) ''delivery'')"
    by (rule injI) (simp add: example_ids_def)
  ultimately show ?thesis
    using broadcast_commits[OF example_room_ok, where actor = "''bo''" and room = "''ops''" and
        content = "''hello''" and ids = example_ids, OF _ _ _ _ t]
    by (simp add: example_ids_def)
qed

end
