(* ===== verification/Core_System.thy ===== *)
theory Core_System
  imports Core_Reducer Core_Broadcasts_Facts "HOL-Library.Sublist"
begin

text \<open>
  The core as one system: the store's operations, the reducer and the broadcast kernel on one
  database, with submissions in flight. A submission is checked against the tables at one moment
  and carried out at a later one, so the steps of several connections interleave; each write
  transaction is atomic, which is what SQLite's write lock gives. The invariant and the progress
  order of this system are proved once, through \<open>invariant_system\<close> and \<open>progress_system\<close>.
\<close>

section \<open>Operations and steps\<close>

datatype core_op =
    AddDelivery Delivery
  | ReplaceRoster string "string list"
  | SetDispatching string
  | RegisterProvider string ProviderKind "EvidenceClass list"
  | RegisterBinding SessionBinding
  | SupersedeBinding string SessionBinding
  | RevokeBinding string
  | BindPrincipal string string string
  | BindMessage string string string string string
  | Submit Receipt
  | Broadcast "nat \<Rightarrow> string \<Rightarrow> string" string string string string

definition raised_by :: "'a res \<times> core_store \<Rightarrow> py_exc option \<times> core_store" where
  "raised_by p = ((case fst p of Inl e \<Rightarrow> Some e | Inr _ \<Rightarrow> None), snd p)"

lemma raised_by_simps [simp]:
  "snd (raised_by p) = snd p"
  "fst (raised_by p) = Some e \<longleftrightarrow> fst p = Inl e"
  by (auto simp: raised_by_def split: sum.splits)

fun run_op :: "MarkerAuthority option \<Rightarrow> core_op \<Rightarrow> core_store \<Rightarrow> py_exc option \<times> core_store" where
  "run_op au (AddDelivery d) s = raised_by (add_delivery d s)"
| "run_op au (ReplaceRoster room rs) s = raised_by (replace_room_roster room rs s)"
| "run_op au (SetDispatching i) s = raised_by (set_dispatching i s)"
| "run_op au (RegisterProvider i k cs) s = raised_by (register_provider i k cs s)"
| "run_op au (RegisterBinding b) s = raised_by (register_session_binding b s)"
| "run_op au (SupersedeBinding i b) s = raised_by (supersede_session_binding i b s)"
| "run_op au (RevokeBinding i) s = raised_by (revoke_session_binding i s)"
| "run_op au (BindPrincipal p w r) s = raised_by (bind_principal p w r s)"
| "run_op au (BindMessage p m e d a) s = raised_by (bind_platform_message p m e d a s)"
| "run_op au (Submit r) s = raised_by (submit au r s)"
| "run_op au (Broadcast ids a r c w) s = raised_by (broadcast ids a r c w s)"

record core_sys =
  sys_store :: core_store
  sys_pending :: "(Receipt \<times> decision) list"

inductive core_step :: "MarkerAuthority option \<Rightarrow> core_sys \<Rightarrow> core_sys \<Rightarrow> bool" for au where
  op: "core_step au y (y\<lparr>sys_store := snd (run_op au oper (sys_store y))\<rparr>)"
| check: "core_step au y
    (y\<lparr>sys_pending := sys_pending y @ [(r, submit_check au r (db (sys_store y)))]\<rparr>)"
| finish: "sys_pending y = xs @ (r, dec) # ys \<Longrightarrow>
    core_step au y (y\<lparr>sys_store := snd (carry_out dec r (sys_store y)), sys_pending := xs @ ys\<rparr>)"

definition core_init :: "core_sys \<Rightarrow> bool" where
  "core_init y \<longleftrightarrow> y = \<lparr>sys_store = new_store, sys_pending = []\<rparr>"

section \<open>Operations that leave deliveries and logs alone\<close>

definition side_effect :: "core_db \<Rightarrow> core_db \<Rightarrow> bool" where
  "side_effect t t' \<longleftrightarrow>
     deliveries t' = deliveries t \<and> receipts t' = receipts t \<and> audit_log t' = audit_log t \<and>
     receipt_rejections t' = receipt_rejections t \<and> broadcasts t' = broadcasts t \<and>
     broadcast_recipients t' = broadcast_recipients t \<and> broadcast_audits t' = broadcast_audits t \<and>
     canonical_events t' = canonical_events t"

lemma side_refl [simp]: "side_effect t t"
  by (simp add: side_effect_def)

lemma side_execute_commit:
  assumes "\<And>t'. stmt (db s) = Inr t' \<Longrightarrow> side_effect (db s) t'"
  shows "side_effect (db s) (db (snd (execute_commit stmt s)))"
  using execute_commit_keeps[where I = "side_effect (db s)", OF assms] by simp

lemma side_with_connection:
  assumes "\<And>t'. body (db s) = Inr t' \<Longrightarrow> side_effect (db s) t'"
  shows "side_effect (db s) (db (snd (with_connection body s)))"
  using with_connection_keeps[where I = "side_effect (db s)", OF assms] by simp

lemma side_insert_session_binding: "insert_session_binding b t = Inr t' \<Longrightarrow> side_effect t t'"
  using insert_session_binding_Inr by (fastforce simp: side_effect_def)

lemma side_register_provider_body: "register_provider_body i k cs t = Inr t' \<Longrightarrow> side_effect t t'"
  by (auto simp: register_provider_body_def side_effect_def split: sum.splits
      dest!: provider_table.insert_Inr evidence_table.insert_many[where f = "\<lambda>c. (i, c)"])

lemma side_replace_roster_body: "replace_roster_body room rs t = Inr t' \<Longrightarrow> side_effect t t'"
  unfolding replace_roster_body_def
  by (drule member_table.insert_many[where f = "\<lambda>r. r"]) (simp add: side_effect_def)

lemma side_supersede_body: "supersede_body old b t = Inr t' \<Longrightarrow> side_effect t t'"
  unfolding supersede_body_def by (drule insert_session_binding_Inr) (simp add: side_effect_def)

lemma side_ops:
  "side_effect (db s) (db (snd (replace_room_roster room rs s)))"
  "side_effect (db s) (db (snd (register_provider i k cs s)))"
  "side_effect (db s) (db (snd (register_session_binding b s)))"
  "side_effect (db s) (db (snd (supersede_session_binding old b s)))"
  "side_effect (db s) (db (snd (revoke_session_binding i s)))"
  "side_effect (db s) (db (snd (bind_principal p w q s)))"
  "side_effect (db s) (db (snd (bind_platform_message p m e d a s)))"
proof -
  show "side_effect (db s) (db (snd (replace_room_roster room rs s)))"
    by (simp add: replace_room_roster_def side_with_connection side_replace_roster_body)
  show "side_effect (db s) (db (snd (register_provider i k cs s)))"
    by (simp add: register_provider_def side_with_connection side_register_provider_body)
  show "side_effect (db s) (db (snd (register_session_binding b s)))"
    by (simp add: snd_register_session_binding side_with_connection side_insert_session_binding)
  show "side_effect (db s) (db (snd (supersede_session_binding old b s)))"
    by (simp add: supersede_session_binding_def side_with_connection side_supersede_body
        split: option.split sum.split)
  show "side_effect (db s) (db (snd (revoke_session_binding i s)))"
    by (simp add: revoke_session_binding_def Let_def side_effect_def)
  show "side_effect (db s) (db (snd (bind_principal p w q s)))"
    unfolding bind_principal_def
    by (rule side_execute_commit) (auto dest!: principal_table.insert_Inr simp: side_effect_def)
  show "side_effect (db s) (db (snd (bind_platform_message p m e d a s)))"
    unfolding bind_platform_message_def
    by (rule side_execute_commit) (auto dest!: message_table.insert_Inr simp: side_effect_def)
qed

section \<open>What only grows\<close>

text \<open>A delivery's identity never changes and its state only moves forward; the receipts, the audit
  log and the rejection log are append-only.\<close>

definition later_delivery :: "Delivery \<Rightarrow> Delivery \<Rightarrow> bool" where
  "later_delivery d d' \<longleftrightarrow>
     d' = d\<lparr>dl_state := dl_state d', dl_disposition := dl_disposition d'\<rparr> \<and> dl_state d \<le> dl_state d' \<and>
     (dl_state d' = dl_state d \<longrightarrow> d' = d)"

definition advanced :: "core_db \<Rightarrow> core_db \<Rightarrow> bool" where
  "advanced t t' \<longleftrightarrow>
     (\<forall>i d. get_delivery t i = Some d \<longrightarrow> (\<exists>d'. get_delivery t' i = Some d' \<and> later_delivery d d')) \<and>
     prefix (receipts t) (receipts t') \<and> prefix (audit_log t) (audit_log t') \<and>
     prefix (receipt_rejections t) (receipt_rejections t') \<and> prefix (broadcasts t) (broadcasts t') \<and>
     (\<forall>h \<in> set (broadcasts t). snapshot t' (bc_broadcast_id h) = snapshot t (bc_broadcast_id h))"

lemma later_refl [simp]: "later_delivery d d"
  by (simp add: later_delivery_def)

lemma later_trans:
  assumes "later_delivery d e" "later_delivery e f"
  shows "later_delivery d f"
proof -
  have "f = d\<lparr>dl_state := dl_state f, dl_disposition := dl_disposition f\<rparr>"
    using assms unfolding later_delivery_def
    by (metis Delivery.update_convs(7,8) Delivery.surjective)
  then show ?thesis using assms unfolding later_delivery_def by (metis order.antisym order.trans)
qed

lemma later_identity:
  "later_delivery d d' \<Longrightarrow> dl_delivery_id d' = dl_delivery_id d \<and> dl_delivery_mode d' = dl_delivery_mode d \<and>
     dl_event_id d' = dl_event_id d \<and> dl_recipient_id d' = dl_recipient_id d \<and> dl_binding_id d' = dl_binding_id d"
  unfolding later_delivery_def by (metis Delivery.select_convs(1-6) Delivery.surjective Delivery.update_convs(7,8))

lemma advanced_refl [simp]: "advanced t t"
  by (simp add: advanced_def)

lemma advanced_trans:
  assumes "advanced t u" "advanced u v"
  shows "advanced t v"
proof -
  have "set (broadcasts t) \<subseteq> set (broadcasts u)" using assms(1) by (simp add: advanced_def set_mono_prefix)
  then have "\<forall>h \<in> set (broadcasts t). snapshot v (bc_broadcast_id h) = snapshot t (bc_broadcast_id h)"
    using assms unfolding advanced_def by fastforce
  moreover have "\<exists>d'. get_delivery v i = Some d' \<and> later_delivery d d'" if "get_delivery t i = Some d" for i d
    using assms that unfolding advanced_def by (meson later_trans)
  ultimately show ?thesis using assms unfolding advanced_def by (meson prefix_order.trans)
qed

lemma advanced_side: "side_effect t t' \<Longrightarrow> advanced t t'"
  by (simp add: advanced_def side_effect_def get_delivery_def snapshot_def)

lemma advanced_log_only:
  assumes "log_only t t'"
  shows "advanced t t'"
proof -
  have "prefix (receipt_rejections t) (receipt_rejections t')"
    using assms unfolding log_only_def by (metis take_is_prefix)
  then show ?thesis
    using log_only_queries[OF assms] by (simp add: advanced_def get_delivery_def snapshot_def)
qed

lemma advanced_accepted:
  assumes wf: "wf_db (db s)" and acc: "accepted r d n c res s s'" and fwd: "dl_state d < n"
  shows "advanced (db s) (db s')"
proof -
  have "\<exists>d'. get_delivery (db s') i = Some d' \<and> later_delivery e d'" if e: "get_delivery (db s) i = Some e" for i e
  proof (cases "i = dl_delivery_id d")
    case True
    with accepted_deliveries[OF wf acc] e have "dl_state e = dl_state d"
      "get_delivery (db s') i = Some (e\<lparr>dl_state := n, dl_disposition := c\<rparr>)" by auto
    with fwd show ?thesis by (simp add: later_delivery_def)
  next
    case False
    with accepted_deliveries(2)[OF wf acc, of i] e show ?thesis by simp
  qed
  moreover have "broadcasts (db s') = broadcasts (db s)" "broadcast_recipients (db s') = broadcast_recipients (db s)"
    using acc by (auto simp: accepted_def elim!: accept_receipt_body_Inr[OF wf])
  ultimately show ?thesis
    using accepted_rows[OF wf acc] by (auto simp: advanced_def snapshot_def)
qed

lemma advanced_append_deliveries:
  assumes "deliveries t' = deliveries t @ ds" "receipts t' = receipts t" "audit_log t' = audit_log t"
    "receipt_rejections t' = receipt_rejections t" "prefix (broadcasts t) (broadcasts t')"
    "\<And>h. h \<in> set (broadcasts t) \<Longrightarrow> snapshot t' (bc_broadcast_id h) = snapshot t (bc_broadcast_id h)"
  shows "advanced t t'"
  using assms by (auto simp: advanced_def get_delivery_def fetchone_append)

lemma set_dispatching_effect:
  assumes "wf_db (db s)"
  shows "db (snd (set_dispatching i s)) = db s \<or>
    (\<exists>d. get_delivery (db s) i = Some d \<and> dl_state d = QUEUED \<and>
      db (snd (set_dispatching i s)) = (db s)\<lparr>deliveries := update_where (\<lambda>x. dl_delivery_id x = i \<and> True)
        (\<lambda>x. x\<lparr>dl_state := DISPATCHING\<rparr>) (deliveries (db s))\<rparr>)"
  by (auto simp: set_dispatching_result[OF assms] split: option.splits)

lemma advanced_set_dispatching:
  assumes wf: "wf_db (db s)"
  shows "advanced (db s) (db (snd (set_dispatching i s)))"
  using set_dispatching_effect[OF wf, of i]
proof
  assume "\<exists>d. get_delivery (db s) i = Some d \<and> dl_state d = QUEUED \<and>
      db (snd (set_dispatching i s)) = (db s)\<lparr>deliveries := update_where (\<lambda>x. dl_delivery_id x = i \<and> True)
        (\<lambda>x. x\<lparr>dl_state := DISPATCHING\<rparr>) (deliveries (db s))\<rparr>"
  then obtain d where d: "get_delivery (db s) i = Some d" "dl_state d = QUEUED"
      and eff: "db (snd (set_dispatching i s)) = (db s)\<lparr>deliveries := update_where (\<lambda>x. dl_delivery_id x = i \<and> True)
        (\<lambda>x. x\<lparr>dl_state := DISPATCHING\<rparr>) (deliveries (db s))\<rparr>"
    by blast
  have dist: "distinct (map dl_delivery_id (deliveries (db s)))" using wf by (simp add: wf_defs)
  have "get_delivery (db (snd (set_dispatching i s))) j =
      map_option (\<lambda>x. if j = i \<and> True then x\<lparr>dl_state := DISPATCHING\<rparr> else x) (get_delivery (db s) j)" for j
    unfolding eff get_delivery_def
    using fetchone_update_where_key[OF dist, of "\<lambda>x. x\<lparr>dl_state := DISPATCHING\<rparr>" j i "\<lambda>_. True"] by simp
  with d show ?thesis
    by (auto simp: advanced_def eff later_delivery_def state_order snapshot_def)
qed simp

section \<open>The audit trail\<close>

definition trail :: "core_db \<Rightarrow> string \<Rightarrow> AuditRow list" where
  "trail t i = filter (\<lambda>a. au_delivery_id a = i) (audit_log t)"

text \<open>The audit rows of a delivery are steps of the state machine, each starting where the one
  before ended, and the last one ends in the delivery's current state and disposition.\<close>

definition trail_of :: "Delivery \<Rightarrow> AuditRow list \<Rightarrow> bool" where
  "trail_of d rows \<longleftrightarrow>
     (\<forall>a \<in> set rows. au_delivery_mode a = dl_delivery_mode d \<and>
        legal (au_delivery_mode a) (au_evidence_class a) (au_from_state a) (au_to_state a) (au_disposition a)) \<and>
     successively (\<lambda>a b. au_to_state a = au_from_state b) rows \<and>
     (rows \<noteq> [] \<longrightarrow> au_to_state (last rows) = dl_state d \<and> au_disposition (last rows) = dl_disposition d)"

definition trail_ok :: "core_db \<Rightarrow> bool" where
  "trail_ok t \<longleftrightarrow> (\<forall>d \<in> set (deliveries t). trail_of d (trail t (dl_delivery_id d)))"

lemma trail_ok_frame:
  assumes "trail_ok t" "audit_log t' = audit_log t"
    and "\<And>d. d \<in> set (deliveries t') \<Longrightarrow> d \<in> set (deliveries t) \<or> trail t (dl_delivery_id d) = []"
  shows "trail_ok t'"
proof -
  have "trail t' i = trail t i" for i by (simp add: trail_def assms(2))
  moreover have "trail_of d []" for d by (simp add: trail_of_def)
  ultimately show ?thesis using assms(1,3) unfolding trail_ok_def by metis
qed

lemma trail_unknown:
  assumes "wf_db t" "i \<notin> dl_delivery_id ` set (deliveries t)"
  shows "trail t i = []"
proof -
  have "refers au_delivery_id (audit_log t) dl_delivery_id (deliveries t)" using assms(1) by (simp add: wf_defs)
  with assms(2) show ?thesis by (auto simp: trail_def filter_empty_conv refers_def)
qed

lemma trail_queued:
  assumes "trail_of d rows" "dl_state d = QUEUED"
  shows "rows = []"
proof (rule ccontr)
  assume ne: "rows \<noteq> []"
  then have "last rows \<in> set rows" by simp
  with assms ne legal_never_queued show False unfolding trail_of_def by metis
qed

lemma trail_ok_set_dispatching:
  assumes wf: "wf_db (db s)" and tr: "trail_ok (db s)"
  shows "trail_ok (db (snd (set_dispatching i s)))"
  using set_dispatching_effect[OF wf, of i]
proof
  assume "\<exists>d. get_delivery (db s) i = Some d \<and> dl_state d = QUEUED \<and>
      db (snd (set_dispatching i s)) = (db s)\<lparr>deliveries := update_where (\<lambda>x. dl_delivery_id x = i \<and> True)
        (\<lambda>x. x\<lparr>dl_state := DISPATCHING\<rparr>) (deliveries (db s))\<rparr>"
  then obtain d where d: "get_delivery (db s) i = Some d" "dl_state d = QUEUED"
      and eff: "db (snd (set_dispatching i s)) = (db s)\<lparr>deliveries := update_where (\<lambda>x. dl_delivery_id x = i \<and> True)
        (\<lambda>x. x\<lparr>dl_state := DISPATCHING\<rparr>) (deliveries (db s))\<rparr>"
    by blast
  from d(1) have "d \<in> set (deliveries (db s))" "dl_delivery_id d = i"
    by (auto simp: get_delivery_def dest: fetchone_SomeD)
  with tr d(2) have none: "trail (db s) i = []" by (auto simp: trail_ok_def intro: trail_queued)
  show ?thesis
    by (rule trail_ok_frame[OF tr]) (use none in \<open>auto simp: eff update_where_def\<close>)
qed (simp add: tr)

lemma trail_ok_accepted:
  assumes wf: "wf_db (db s)" and tr: "trail_ok (db s)" and acc: "accepted r d n c res s s'"
    and cur: "get_delivery (db s) (dl_delivery_id d) = Some y" "dl_delivery_mode y = dl_delivery_mode d"
    and leg: "legal (dl_delivery_mode d) (rc_evidence_class r) (dl_state d) n c"
  shows "trail_ok (db s')"
proof -
  obtain a where a: "audit_log (db s') = audit_log (db s) @ [a]" "au_delivery_id a = dl_delivery_id d"
      "au_from_state a = dl_state d" "au_to_state a = n" "au_disposition a = c"
      "au_evidence_class a = rc_evidence_class r" "au_delivery_mode a = dl_delivery_mode d"
    using accepted_rows(2)[OF wf acc] by blast
  have wf': "wf_db (db s')" using wf acc wf_accept_receipt_body by (auto simp: accepted_def)
  have st: "dl_state y = dl_state d" using accepted_deliveries(1)[OF wf acc cur(1)] .
  have y: "y \<in> set (deliveries (db s))" "dl_delivery_id y = dl_delivery_id d"
    using cur(1) by (auto simp: get_delivery_def dest: fetchone_SomeD)
  have old: "trail_of y (trail (db s) (dl_delivery_id d))" using tr y by (auto simp: trail_ok_def)
  have new: "trail (db s') i = trail (db s) i @ (if i = dl_delivery_id d then [a] else [])" for i
    by (simp add: trail_def a(1,2))
  show ?thesis unfolding trail_ok_def
  proof
    fix e assume e: "e \<in> set (deliveries (db s'))"
    have dist: "distinct (map dl_delivery_id (deliveries (db s')))" using wf' by (simp add: wf_defs)
    then have ge: "get_delivery (db s') (dl_delivery_id e) = Some e"
      using e by (simp add: get_delivery_def fetchone_key)
    show "trail_of e (trail (db s') (dl_delivery_id e))"
    proof (cases "dl_delivery_id e = dl_delivery_id d")
      case True
      then have ee: "e = y\<lparr>dl_state := n, dl_disposition := c\<rparr>"
        using ge accepted_deliveries(2)[OF wf acc, of "dl_delivery_id d"] cur(1) by simp
      show ?thesis
        using old st leg cur(2) a
        by (auto simp: trail_of_def new ee y(2) successively_append_iff)
    next
      case False
      with ge accepted_deliveries(2)[OF wf acc, of "dl_delivery_id e"]
      have "get_delivery (db s) (dl_delivery_id e) = Some e" by simp
      then have "e \<in> set (deliveries (db s))" by (auto simp: get_delivery_def dest: fetchone_SomeD)
      with tr False show ?thesis by (simp add: trail_ok_def new)
    qed
  qed
qed

section \<open>A completed turn closes an accepted prompt\<close>

definition entry_row :: "ReceiptRow \<Rightarrow> bool" where
  "entry_row x \<longleftrightarrow> rr_evidence_class x = HARNESS_PROMPT_ACCEPTED \<or> rr_evidence_class x = HARNESS_TURN_STARTED"

definition closes :: "ReceiptRow \<Rightarrow> ReceiptRow \<Rightarrow> bool" where
  "closes x y \<longleftrightarrow> entry_row y \<and> rr_delivery_id y = rr_delivery_id x \<and>
     (\<exists>es. rr_source_event_chain x = source_chain_json es \<and> rr_source_event_chain y = source_chain_json (butlast es))"

fun turns_closed :: "ReceiptRow list \<Rightarrow> bool" where
  "turns_closed [] = True"
| "turns_closed (x # earlier) =
     ((rr_evidence_class x = HARNESS_TURN_COMPLETED \<longrightarrow> (\<exists>y \<in> set earlier. closes x y)) \<and> turns_closed earlier)"

lemma session_entry_chain_row:
  assumes "session_entry_chain t i = Some v"
  shows "\<exists>y \<in> set (receipts t). entry_row y \<and> rr_delivery_id y = i \<and> rr_source_event_chain y = v"
proof -
  from assms obtain y where "fetchone (\<lambda>r. rr_delivery_id r = i \<and>
      (rr_evidence_class r = HARNESS_PROMPT_ACCEPTED \<or> rr_evidence_class r = HARNESS_TURN_STARTED))
      (rev (receipts t)) = Some y" "rr_source_event_chain y = v"
    by (auto simp: session_entry_chain_def)
  from fetchone_SomeD[OF this(1)] this(2) show ?thesis by (auto simp: entry_row_def)
qed

section \<open>Submissions in flight\<close>

text \<open>What remains true of a decision to accept while it waits: the step is legal from the state it
  saw, the delivery is still there with the same mode, and a completed turn still has its prompt.\<close>

fun pending_ok :: "core_db \<Rightarrow> Receipt \<times> decision \<Rightarrow> bool" where
  "pending_ok t (r, Accept d n c) \<longleftrightarrow>
     legal (dl_delivery_mode d) (rc_evidence_class r) (dl_state d) n c \<and>
     (\<exists>y. get_delivery t (dl_delivery_id d) = Some y \<and> dl_delivery_mode y = dl_delivery_mode d) \<and>
     (rc_evidence_class r = HARNESS_TURN_COMPLETED \<longrightarrow>
        (\<exists>pf. rc_proof r = Some pf \<and> (\<exists>y \<in> set (receipts t). entry_row y \<and> rr_delivery_id y = dl_delivery_id d \<and>
           rr_source_event_chain y = source_chain_json (butlast (pf_source_events pf)))))"
| "pending_ok t (r, dec) \<longleftrightarrow> True"

lemma pending_ok_advanced:
  assumes "advanced t t'" "pending_ok t p"
  shows "pending_ok t' p"
proof (cases "(t, p)" rule: pending_ok.cases)
  case (1 t0 r d n c)
  from assms(2) 1 obtain y where y: "get_delivery t (dl_delivery_id d) = Some y"
      "dl_delivery_mode y = dl_delivery_mode d" by auto
  with assms(1) obtain y' where "get_delivery t' (dl_delivery_id d) = Some y'" "later_delivery y y'"
    unfolding advanced_def by blast
  with y later_identity have "\<exists>y'. get_delivery t' (dl_delivery_id d) = Some y' \<and> dl_delivery_mode y' = dl_delivery_mode d"
    by auto
  moreover have "set (receipts t) \<subseteq> set (receipts t')"
    using assms(1) by (auto simp: advanced_def set_mono_prefix)
  ultimately show ?thesis using assms(2) 1 by auto
qed auto

lemma pending_ok_check: "pending_ok t (r, submit_check au r t)"
proof (cases "submit_check au r t")
  case (Accept d n c)
  then have ad: "admissible au t r d n c" by (simp add: submit_check_Accept_iff)
  then have g: "get_delivery t (rc_delivery_id r) = Some d" by (simp add: admissible_def)
  then have "dl_delivery_id d = rc_delivery_id r" by (auto simp: get_delivery_def dest: fetchone_SomeD)
  moreover have "\<exists>pf. rc_proof r = Some pf \<and> session_entry_chain t (dl_delivery_id d) =
      Some (source_chain_json (butlast (pf_source_events pf)))"
    if "rc_evidence_class r = HARNESS_TURN_COMPLETED"
    using ad that by (auto simp: admissible_def SESSION_PROOF_EVIDENCE_def session_evidence_def)
  ultimately show ?thesis
    using ad g by (auto simp: Accept admissible_def dest!: session_entry_chain_row)
qed auto

section \<open>The invariant of the core\<close>

definition store_inv :: "core_db \<Rightarrow> bool" where
  "store_inv t \<longleftrightarrow>
     wf_db t \<and> broadcasts_ok t \<and> bindings_ok t \<and> trail_ok t \<and> turns_closed (rev (receipts t))"

definition sys_inv :: "core_sys \<Rightarrow> bool" where
  "sys_inv y \<longleftrightarrow>
     store_inv (db (sys_store y)) \<and> list_all (pending_ok (db (sys_store y))) (sys_pending y)"

lemma store_inv_empty: "store_inv empty_db"
  unfolding store_inv_def by (simp add: trail_ok_def) (simp add: empty_db_def)

lemma same_broadcasts_log_only: "log_only t t' \<Longrightarrow> same_broadcasts t t'"
  by (simp add: same_broadcasts_def log_only_queries)

lemma store_inv_log_only:
  assumes "store_inv t" "log_only t t'" "wf_db t'"
  shows "store_inv t'"
proof -
  note q = log_only_queries[OF assms(2)]
  have "trail_ok t'" using assms(1) q by (simp add: store_inv_def trail_ok_def trail_def)
  moreover have "broadcasts_ok t'"
    using assms(1,2) broadcasts_ok_same same_broadcasts_log_only by (auto simp: store_inv_def)
  ultimately show ?thesis using assms(1,3) q by (simp add: store_inv_def bindings_ok_def)
qed

lemma store_inv_side:
  assumes "store_inv t" "side_effect t t'" "wf_db t'" "bindings_ok t'"
  shows "store_inv t'"
proof -
  have "same_broadcasts t t'" using assms(2) by (simp add: side_effect_def same_broadcasts_def)
  then have "broadcasts_ok t'" using assms(1) broadcasts_ok_same by (auto simp: store_inv_def)
  with assms show ?thesis by (simp add: store_inv_def side_effect_def trail_ok_def trail_def)
qed

lemma store_inv_append_deliveries:
  assumes "store_inv t" "wf_db t'" "broadcasts_ok t'" "deliveries t' = deliveries t @ ds"
    "audit_log t' = audit_log t" "receipts t' = receipts t" "session_bindings t' = session_bindings t"
    "binding_proof_methods t' = binding_proof_methods t"
  shows "store_inv t'"
proof -
  have wf: "wf_db t" and tr: "trail_ok t" using assms(1) by (simp_all add: store_inv_def)
  have "distinct (map dl_delivery_id (deliveries t @ ds))" using assms(2) by (simp add: wf_defs assms(4))
  then have "trail t (dl_delivery_id d) = []" if "d \<in> set ds" for d
    using that by (intro trail_unknown[OF wf]) auto
  then have "trail_ok t'" by (intro trail_ok_frame[OF tr assms(5)]) (auto simp: assms(4))
  with assms show ?thesis by (simp add: store_inv_def bindings_ok_def)
qed

lemma accepted_turns_closed:
  assumes wf: "wf_db (db s)" and tc: "turns_closed (rev (receipts (db s)))"
    and acc: "accepted r d n c res s s'" and pend: "pending_ok (db s) (r, Accept d n c)"
  shows "turns_closed (rev (receipts (db s')))"
proof -
  obtain b where b: "receipts (db s') = receipts (db s) @ [receipt_row r d b c]"
    using accepted_rows(1)[OF wf acc] by blast
  have "\<exists>y \<in> set (receipts (db s)). closes (receipt_row r d b c) y"
    if "rc_evidence_class r = HARNESS_TURN_COMPLETED"
  proof -
    from pend that obtain pf y where y: "rc_proof r = Some pf" "y \<in> set (receipts (db s))" "entry_row y"
        "rr_delivery_id y = dl_delivery_id d"
        "rr_source_event_chain y = source_chain_json (butlast (pf_source_events pf))"
      by auto
    have "rr_source_event_chain (receipt_row r d b c) = source_chain_json (pf_source_events pf)"
      by (simp add: receipt_row_def proof_storage_fields_def y(1))
    with y show ?thesis unfolding closes_def by auto
  qed
  with tc b show ?thesis by simp
qed

lemma store_inv_accepted:
  assumes inv: "store_inv (db s)" and acc: "accepted r d n c res s s'"
    and pend: "pending_ok (db s) (r, Accept d n c)"
  shows "store_inv (db s') \<and> advanced (db s) (db s')"
proof -
  have wf: "wf_db (db s)" and tc: "turns_closed (rev (receipts (db s)))" and tr: "trail_ok (db s)"
    and bs: "broadcasts_ok (db s)" and bi: "bindings_ok (db s)"
    using inv by (simp_all add: store_inv_def)
  from pend obtain y where y: "get_delivery (db s) (dl_delivery_id d) = Some y" "dl_delivery_mode y = dl_delivery_mode d"
      and leg: "legal (dl_delivery_mode d) (rc_evidence_class r) (dl_state d) n c" by auto
  have body: "accept_receipt_body r d n c (db s) = Inr (db s')" using acc by (simp add: accepted_def)
  have "same_broadcasts (db s) (db s')"
    by (rule accept_receipt_body_Inr[OF wf body]) (simp add: same_broadcasts_def image_update_where)
  then have "broadcasts_ok (db s')" using bs broadcasts_ok_same by blast
  moreover have "bindings_ok (db s')"
    by (rule accept_receipt_body_Inr[OF wf body]) (use bi in \<open>simp add: bindings_ok_def\<close>)
  ultimately show ?thesis
    using wf_accept_receipt_body[OF wf body] trail_ok_accepted[OF wf tr acc y leg]
      accepted_turns_closed[OF wf tc acc pend] advanced_accepted[OF wf acc legal_forward[OF leg]]
    by (simp add: store_inv_def)
qed

lemma settle_frame:
  "log_only (db s) (db (snd (settle dec r s))) \<and> (wf_db (db s) \<longrightarrow> wf_db (db (snd (settle dec r s))))"
  by (cases dec) (simp_all add: reject_def log_only_record log_only_degrade wf_record_rejection
      wf_mark_provider_degraded)

lemma carry_out_frame:
  assumes "carry_out dec r s = (res, s')"
  shows "(\<exists>d n c. dec = Accept d n c \<and> accepted r d n c res s s') \<or>
    (log_only (db s) (db s') \<and> (wf_db (db s) \<longrightarrow> wf_db (db s')))"
proof (cases dec)
  case (Accept d n c)
  with carry_out_Accept[of d n c r s] assms have "accepted r d n c res s s' \<or> refused r res s s'" by simp
  then show ?thesis using Accept refused_frame wf_refused by blast
qed (use assms settle_frame[of s dec r] in \<open>auto simp: carry_out_def\<close>)

lemma store_inv_carry_out:
  assumes "store_inv (db s)" "pending_ok (db s) (r, dec)"
  shows "store_inv (db (snd (carry_out dec r s))) \<and> advanced (db s) (db (snd (carry_out dec r s)))"
proof -
  obtain res s' where out: "carry_out dec r s = (res, s')" by fastforce
  from carry_out_frame[OF out] show ?thesis
  proof
    assume "\<exists>d n c. dec = Accept d n c \<and> accepted r d n c res s s'"
    then obtain d n c where acc: "dec = Accept d n c" "accepted r d n c res s s'" by blast
    have "store_inv (db s') \<and> advanced (db s) (db s')"
      by (rule store_inv_accepted[OF assms(1) acc(2)]) (use assms(2) acc(1) in simp)
    then show ?thesis by (simp add: out)
  next
    assume lo: "log_only (db s) (db s') \<and> (wf_db (db s) \<longrightarrow> wf_db (db s'))"
    then have "wf_db (db s')" using assms(1) by (simp add: store_inv_def)
    with lo store_inv_log_only[OF assms(1)] advanced_log_only show ?thesis by (simp add: out)
  qed
qed

text \<open>Every operation keeps the invariant and only advances the tables.\<close>

lemma store_inv_side_op:
  assumes "store_inv (db s)" "side_effect (db s) t" "wf_db t" "bindings_ok t"
  shows "store_inv t \<and> advanced (db s) t"
  using assms store_inv_side advanced_side by blast

lemma bindings_ok_other_ops:
  assumes "bindings_ok (db s)"
  shows "bindings_ok (db (snd (replace_room_roster room rs s)))"
    "bindings_ok (db (snd (register_provider i k cs s)))"
    "bindings_ok (db (snd (bind_principal p w q s)))"
    "bindings_ok (db (snd (bind_platform_message p m e d a s)))"
    "bindings_ok (db (snd (add_delivery dl s)))"
proof -
  have roster: "replace_roster_body room rs t = Inr t' \<Longrightarrow> bindings_ok t \<Longrightarrow> bindings_ok t'" for t t'
    unfolding replace_roster_body_def
    by (drule member_table.insert_many[where f = "\<lambda>r. r"]) (simp add: bindings_ok_def)
  have prov: "register_provider_body i k cs t = Inr t' \<Longrightarrow> bindings_ok t \<Longrightarrow> bindings_ok t'" for t t'
    by (auto simp: register_provider_body_def bindings_ok_def split: sum.splits
        dest!: provider_table.insert_Inr evidence_table.insert_many[where f = "\<lambda>c. (i, c)"])
  note keep = with_connection_keeps[where I = bindings_ok] execute_commit_keeps[where I = bindings_ok]
  show "bindings_ok (db (snd (replace_room_roster room rs s)))"
    using assms keep(1)[of "replace_roster_body room rs" s] roster by (auto simp: replace_room_roster_def)
  show "bindings_ok (db (snd (register_provider i k cs s)))"
    unfolding register_provider_def by (rule keep(1)) (use assms prov in auto)
  show "bindings_ok (db (snd (bind_principal p w q s)))"
    unfolding bind_principal_def
    by (rule keep(2)) (use assms in \<open>auto dest!: principal_table.insert_Inr simp: bindings_ok_def\<close>)
  show "bindings_ok (db (snd (bind_platform_message p m e d a s)))"
    unfolding bind_platform_message_def
    by (rule keep(2)) (use assms in \<open>auto dest!: message_table.insert_Inr simp: bindings_ok_def\<close>)
  show "bindings_ok (db (snd (add_delivery dl s)))"
    unfolding add_delivery_def
    by (rule keep(2)) (use assms in \<open>auto dest!: delivery_table.insert_Inr simp: bindings_ok_def\<close>)
qed

lemma store_inv_add_delivery:
  assumes "store_inv (db s)"
  shows "store_inv (db (snd (add_delivery d s))) \<and> advanced (db s) (db (snd (add_delivery d s)))"
  unfolding add_delivery_def
proof (rule execute_commit_keeps)
  fix t assume ins: "insert_delivery d (db s) = Inr t"
  then have t: "t = (db s)\<lparr>deliveries := deliveries (db s) @ [d]\<rparr>"
    by (auto dest!: delivery_table.insert_Inr)
  have "wf_db t" using ins assms wf_insert_delivery by (auto simp: store_inv_def)
  moreover have "same_broadcasts (db s) t" by (auto simp: t same_broadcasts_def)
  then have "broadcasts_ok t" using assms broadcasts_ok_same by (auto simp: store_inv_def)
  ultimately show "store_inv t \<and> advanced (db s) t"
    using store_inv_append_deliveries[OF assms, of t "[d]"] advanced_append_deliveries[of t "db s" "[d]"]
    by (simp add: t snapshot_def)
qed (simp add: assms)

lemma store_inv_set_dispatching:
  assumes inv: "store_inv (db s)"
  shows "store_inv (db (snd (set_dispatching i s))) \<and> advanced (db s) (db (snd (set_dispatching i s)))"
proof -
  let ?t = "db (snd (set_dispatching i s))"
  have wf: "wf_db (db s)" and tr: "trail_ok (db s)" using inv by (simp_all add: store_inv_def)
  have "same_broadcasts (db s) ?t"
    by (auto simp: set_dispatching_def Let_def same_broadcasts_def image_update_where)
  then have "broadcasts_ok ?t" using inv broadcasts_ok_same by (auto simp: store_inv_def)
  moreover have "receipts ?t = receipts (db s)" "session_bindings ?t = session_bindings (db s)"
    "binding_proof_methods ?t = binding_proof_methods (db s)"
    by (simp_all add: set_dispatching_def Let_def)
  ultimately show ?thesis
    using inv wf_set_dispatching[OF wf] trail_ok_set_dispatching[OF wf tr] advanced_set_dispatching[OF wf]
    by (simp add: store_inv_def bindings_ok_def)
qed

lemma store_inv_broadcast:
  assumes inv: "store_inv (db s)"
  shows "store_inv (db (snd (broadcast ids a r c w s))) \<and> advanced (db s) (db (snd (broadcast ids a r c w s)))"
proof -
  obtain res s' where out: "broadcast ids a r c w s = (res, s')" by fastforce
  have wf: "wf_db (db s)" "broadcasts_ok (db s)" using inv by (simp_all add: store_inv_def)
  from broadcast_outcome[OF out] have "db s' = db s \<or> broadcast_body ids a r c w (db s) = Inr (db s')"
    by auto
  then show ?thesis
  proof
    assume body: "broadcast_body ids a r c w (db s) = Inr (db s')"
    from body show ?thesis
    proof (rule broadcast_body_Inr)
      fix seats assume ex: "expansion (ids 0 ''broadcast'') (ids 1 ''event'') a r c w seats (db s) = Inr (db s')"
      note t = expansion_Inr(1)[OF ex]
      have "store_inv (db s')"
        by (rule store_inv_append_deliveries[OF inv wf_expansion[OF wf(1) ex] broadcasts_ok_expansion[OF wf(2) ex],
              where ds = "map (seat_delivery (ids 1 ''event'')) seats"]) (simp_all add: t)
      moreover have "advanced (db s) (db s')"
      proof (rule advanced_append_deliveries[where ds = "map (seat_delivery (ids 1 ''event'')) seats"])
        show "snapshot (db s') (bc_broadcast_id h) = snapshot (db s) (bc_broadcast_id h)"
          if "h \<in> set (broadcasts (db s))" for h
        proof -
          have "bc_broadcast_id h \<noteq> ids 0 ''broadcast''" using expansion_Inr(2)[OF ex] that by (metis image_eqI)
          then show ?thesis by (simp add: snapshot_def t filter_seat_rows)
        qed
      qed (simp_all add: t)
      ultimately show ?thesis by (simp add: out)
    qed
  qed (simp add: out inv)
qed

lemma store_inv_op:
  assumes inv: "store_inv (db s)"
  shows "store_inv (db (snd (run_op au oper s))) \<and> advanced (db s) (db (snd (run_op au oper s)))"
proof -
  have wf: "wf_db (db s)" and bi: "bindings_ok (db s)" using inv by (simp_all add: store_inv_def)
  show ?thesis
  proof (cases oper)
    case (Submit r)
    then show ?thesis
      using store_inv_carry_out[OF inv pending_ok_check[of "db s" r au]] by (simp add: submit_def)
  qed (simp_all add: store_inv_side_op[OF inv] side_ops bindings_ok_other_ops[OF bi]
      bindings_ok_register_session_binding[OF bi] bindings_ok_supersede_session_binding[OF bi]
      bindings_ok_revoke_session_binding[OF bi] wf_replace_room_roster[OF wf] wf_register_provider[OF wf]
      wf_register_session_binding[OF wf] wf_supersede_session_binding[OF wf] wf_revoke_session_binding[OF wf]
      wf_bind_principal[OF wf] wf_bind_platform_message[OF wf]
      store_inv_add_delivery[OF inv] store_inv_set_dispatching[OF inv] store_inv_broadcast[OF inv])
qed

lemma core_step_keeps:
  assumes "core_step au y y'" "sys_inv y"
  shows "sys_inv y' \<and> advanced (db (sys_store y)) (db (sys_store y'))"
  using assms
proof (induction rule: core_step.induct)
  case (op y oper)
  then have inv: "store_inv (db (sys_store y))" by (simp add: sys_inv_def)
  with op show ?case
    using store_inv_op[OF inv, of au oper] pending_ok_advanced by (auto simp: sys_inv_def list_all_iff)
next
  case (check y r)
  then show ?case by (simp add: sys_inv_def pending_ok_check)
next
  case (finish y xs r dec ys)
  then have inv: "store_inv (db (sys_store y))" and pend: "pending_ok (db (sys_store y)) (r, dec)"
    by (simp_all add: sys_inv_def)
  from store_inv_carry_out[OF inv pend] finish show ?case
    using pending_ok_advanced by (auto simp: sys_inv_def list_all_iff)
qed

interpretation core: progress_system core_init "core_step au" sys_inv
  "\<lambda>y y'. advanced (db (sys_store y)) (db (sys_store y'))"
proof unfold_locales
  show "core_init y \<Longrightarrow> sys_inv y" for y
    by (simp add: core_init_def sys_inv_def new_store_def store_inv_empty)
qed (auto dest: core_step_keeps intro: advanced_trans)

section \<open>Guarantees of the core\<close>

text \<open>C2: In every state the core can reach, under any interleaving of operations and submissions in
  flight, the tables satisfy the store invariant: keys, foreign keys, one active binding per
  recipient, one receipt per source event, one audit row per receipt, consistent broadcast
  snapshots, readable bindings, audit trails that follow the state machine, and no completed
  turn without its accepted prompt.\<close>

theorem core_reachable_invariant:
  assumes "core_init y" "(core_step au)\<^sup>*\<^sup>* y y'"
  shows "store_inv (db (sys_store y'))"
  using core.reachable_inv[OF assms] by (simp add: sys_inv_def)

text \<open>A run of the core used by the witnesses below.\<close>

definition example_start :: core_sys where
  "example_start = \<lparr>sys_store = new_store, sys_pending = []\<rparr>"

definition example_ops :: "core_op list" where
  "example_ops =
     [RegisterProvider ''cmux'' SESSION_TRANSPORT
        [TRANSPORT_SUBMIT_ACK, HARNESS_PROMPT_ACCEPTED, HARNESS_TURN_COMPLETED],
      RegisterBinding (example_binding ''b1''), AddDelivery example_delivery,
      Submit (example_receipt ''r1'' None)]"

definition run_ops :: "core_op list \<Rightarrow> core_sys \<Rightarrow> core_sys" where
  "run_ops ops y = foldl (\<lambda>y p. y\<lparr>sys_store := snd (run_op None p (sys_store y))\<rparr>) y ops"

lemma run_ops_steps: "(core_step None)\<^sup>*\<^sup>* y (run_ops ops y)"
proof (induction ops arbitrary: y)
  case (Cons p ops)
  have "core_step None y (y\<lparr>sys_store := snd (run_op None p (sys_store y))\<rparr>)" by (rule core_step.op)
  with Cons show ?case unfolding run_ops_def by (simp add: converse_rtranclp_into_rtranclp)
qed (simp add: run_ops_def)

lemma example_start_init: "core_init example_start"
  by (simp add: core_init_def example_start_def)

text \<open>Witness of C2.\<close>

theorem core_reachable_invariant_witness: "store_inv (db (sys_store (run_ops example_ops example_start)))"
  by (rule core_reachable_invariant[OF example_start_init run_ops_steps])

text \<open>C7: Between any two moments of a run, a delivery keeps its identity, its state never moves
  back, and receipts, audit rows and rejections are only appended.\<close>

theorem core_progress:
  assumes "core_init y0" "(core_step au)\<^sup>*\<^sup>* y0 y" "(core_step au)\<^sup>*\<^sup>* y y'"
    and "get_delivery (db (sys_store y)) i = Some d"
  shows "(\<exists>d'. get_delivery (db (sys_store y')) i = Some d' \<and> dl_state d \<le> dl_state d' \<and>
      d' = d\<lparr>dl_state := dl_state d', dl_disposition := dl_disposition d'\<rparr>) \<and>
    prefix (receipts (db (sys_store y))) (receipts (db (sys_store y'))) \<and>
    prefix (audit_log (db (sys_store y))) (audit_log (db (sys_store y'))) \<and>
    prefix (receipt_rejections (db (sys_store y))) (receipt_rejections (db (sys_store y')))"
proof -
  have adv: "advanced (db (sys_store y)) (db (sys_store y'))" by (rule core.reachable_le[OF assms(1-3)])
  then obtain d' where "get_delivery (db (sys_store y')) i = Some d'" "later_delivery d d'"
    using assms(4) unfolding advanced_def by blast
  with adv show ?thesis unfolding advanced_def later_delivery_def by blast
qed

text \<open>Witness of C7.\<close>

theorem core_progress_witness:
  "\<exists>d'. get_delivery (db (sys_store (run_ops [Submit (example_receipt ''r1'' None)]
      (run_ops (take 3 example_ops) example_start)))) ''d1'' = Some d' \<and> DISPATCHING \<le> dl_state d'"
proof -
  let ?y = "run_ops (take 3 example_ops) example_start"
  have g: "get_delivery (db (sys_store ?y)) ''d1'' = Some example_delivery" by code_simp
  from core_progress[OF example_start_init run_ops_steps run_ops_steps g] show ?thesis
    by (auto simp: example_delivery_def)
qed

text \<open>C9: \<open>audit_for\<close> returns the complete history of a delivery: steps of the state machine, each
  starting where the one before ended, the last one ending in the current state.\<close>

theorem audit_for_is_trail:
  assumes "core_init y" "(core_step au)\<^sup>*\<^sup>* y y'" "d \<in> set (deliveries (db (sys_store y')))"
  shows "trail_of d (audit_for (db (sys_store y')) (dl_delivery_id d))"
proof -
  let ?t = "db (sys_store y')"
  have inv: "store_inv ?t" using core.reachable_inv[OF assms(1,2)] by (simp add: sys_inv_def)
  then have "map au_audit_id (audit_log ?t) = [1..<Suc (length (audit_log ?t))]"
    by (simp add: store_inv_def wf_db_def logs_ok_def)
  then have "sorted (map au_audit_id (audit_log ?t))" by (metis sorted_upt)
  then have "sorted (map au_audit_id (filter (\<lambda>r. au_delivery_id r = dl_delivery_id d) (audit_log ?t)))"
    by (rule sorted_filter)
  then have "audit_for ?t (dl_delivery_id d) = trail ?t (dl_delivery_id d)"
    by (simp add: audit_for_def trail_def sort_key_id_if_sorted)
  with inv assms(3) show ?thesis by (simp add: store_inv_def trail_ok_def)
qed

text \<open>Witness of C9.\<close>

theorem audit_for_is_trail_witness:
  "trail_of (example_delivery\<lparr>dl_state := TRANSPORT_SUBMITTED\<rparr>)
     (audit_for (db (sys_store (run_ops example_ops example_start))) ''d1'')"
proof -
  have "deliveries (db (sys_store (run_ops example_ops example_start))) =
      [example_delivery\<lparr>dl_state := TRANSPORT_SUBMITTED\<rparr>]"
    by code_simp
  then show ?thesis
    using audit_for_is_trail[OF example_start_init run_ops_steps,
        of "example_delivery\<lparr>dl_state := TRANSPORT_SUBMITTED\<rparr>" example_ops]
    by (simp add: example_delivery_def)
qed

text \<open>C18: The result of a broadcast is frozen: whatever runs afterwards, it still can be read, for
  the same event, room, seats, deliveries and size; only the states of its deliveries move.\<close>

theorem broadcast_result_frozen:
  assumes "core_init y0" "(core_step au)\<^sup>*\<^sup>* y0 y" "(core_step au)\<^sup>*\<^sup>* y y'"
    and "result (db (sys_store y)) i = Inr r"
  shows "\<exists>r'. result (db (sys_store y')) i = Inr r' \<and> br_event_id r' = br_event_id r \<and>
    br_room_id r' = br_room_id r \<and> br_roster_snapshot_size r' = br_roster_snapshot_size r \<and>
    map (\<lambda>x. (bo_recipient_id x, bo_delivery_id x, bo_binding_id x)) (br_outcomes r') =
      map (\<lambda>x. (bo_recipient_id x, bo_delivery_id x, bo_binding_id x)) (br_outcomes r)"
proof -
  let ?t = "db (sys_store y)" and ?u = "db (sys_store y')"
  have adv: "advanced ?t ?u" by (rule core.reachable_le[OF assms(1-3)])
  have reach: "(core_step au)\<^sup>*\<^sup>* y0 y'" using assms(2,3) by (rule rtranclp_trans)
  have ok: "broadcasts_ok ?t" "broadcasts_ok ?u"
    using core.reachable_inv[OF assms(1,2)] core.reachable_inv[OF assms(1) reach]
    by (simp_all add: sys_inv_def store_inv_def)
  from assms(4) obtain h where h: "fetchone (\<lambda>x. bc_broadcast_id x = i) (broadcasts ?t) = Some h"
    by (auto simp: result_def split: option.splits)
  then have ht: "h \<in> set (broadcasts ?t)" "bc_broadcast_id h = i" by (auto dest: fetchone_SomeD)
  have hu: "h \<in> set (broadcasts ?u)" using adv ht(1) by (auto simp: advanced_def dest: set_mono_prefix)
  have "snapshot ?u i = snapshot ?t i" using adv ht by (auto simp: advanced_def)
  with result_total[OF ok(1) ht(1)] result_total[OF ok(2) hu] assms(4) ht(2)
    outcomes_snapshot[OF ok(1) ht(1)] outcomes_snapshot[OF ok(2) hu]
  show ?thesis by (auto simp: o_def)
qed

text \<open>Witness of C18.\<close>

definition example_broadcast_ops :: "core_op list" where
  "example_broadcast_ops =
     [ReplaceRoster ''ops'' [''ana'', ''bo''],
      Broadcast example_ids ''bo'' ''ops'' ''hello'' ''2026-07-01T00:00:00Z'']"

theorem broadcast_result_frozen_witness:
  "\<exists>r. result (db (sys_store (run_ops [ReplaceRoster ''ops'' [''cy'']]
      (run_ops example_broadcast_ops example_start)))) ''broadcast'' = Inr r \<and>
     map bo_recipient_id (br_outcomes r) = [''ana'']"
proof -
  let ?y = "run_ops example_broadcast_ops example_start"
  have "(case result (db (sys_store ?y)) ''broadcast'' of Inl _ \<Rightarrow> False
      | Inr r \<Rightarrow> map bo_recipient_id (br_outcomes r) = [''ana''])"
    by code_simp
  then obtain r where r: "result (db (sys_store ?y)) ''broadcast'' = Inr r"
      and a: "map bo_recipient_id (br_outcomes r) = [''ana'']"
    by (auto split: sum.splits)
  from broadcast_result_frozen[OF example_start_init run_ops_steps run_ops_steps r]
  obtain r' where "result (db (sys_store (run_ops [ReplaceRoster ''ops'' [''cy'']] ?y))) ''broadcast'' = Inr r'"
      "map (\<lambda>x. (bo_recipient_id x, bo_delivery_id x, bo_binding_id x)) (br_outcomes r') =
       map (\<lambda>x. (bo_recipient_id x, bo_delivery_id x, bo_binding_id x)) (br_outcomes r)"
    by blast
  note r' = this
  from arg_cong[OF r'(2), of "map fst"] have "map bo_recipient_id (br_outcomes r') = map bo_recipient_id (br_outcomes r)"
    by (simp add: o_def)
  with r'(1) a show ?thesis by auto
qed

section \<open>Failures\<close>

lemma set_dispatching_Inl:
  assumes "wf_db (db s)" "fst (set_dispatching i s) = Inl e"
  shows "db (snd (set_dispatching i s)) = db s \<and> in_transaction (snd (set_dispatching i s))"
  using assms by (auto simp: set_dispatching_result[OF assms(1)] split: option.splits if_splits)

lemma revoke_Inl:
  assumes wf: "wf_db (db s)" and err: "fst (revoke_session_binding i s) = Inl e"
  shows "db (snd (revoke_session_binding i s)) = db s \<and> in_transaction (snd (revoke_session_binding i s))"
proof -
  let ?P = "\<lambda>r. sr_binding_id r = i \<and> sr_state r = ACTIVE"
  have "distinct (map sr_binding_id (session_bindings (db s)))" using wf by (simp add: wf_defs)
  from rowcount_key[OF this, of i "\<lambda>r. sr_state r = ACTIVE"]
  have "rowcount ?P (session_bindings (db s)) = 0 \<or> rowcount ?P (session_bindings (db s)) = 1"
    by (auto split: option.splits)
  with err have "rowcount ?P (session_bindings (db s)) = 0"
    by (auto simp: revoke_session_binding_def Let_def split: if_splits)
  with err show ?thesis by (auto simp: revoke_session_binding_def Let_def update_where_id)
qed

lemma register_binding_Inl:
  assumes "fst (register_session_binding b s) = Inl e"
  shows "db (snd (register_session_binding b s)) = db s"
proof (cases "validate_session_binding (db s) b")
  case (Inr u)
  show ?thesis
  proof (cases "insert_session_binding b (db s)")
    case (Inr t)
    with assms \<open>validate_session_binding (db s) b = Inr u\<close> show ?thesis
      by (simp add: register_session_binding_def with_connection_def)
  qed (simp add: snd_register_session_binding with_connection_def Inr)
qed (simp add: register_session_binding_def)

text \<open>C11: No operation of the core leaves a partial effect: one that raises has changed no table.\<close>

theorem failed_operation_changes_nothing:
  assumes inv: "store_inv (db s)" and err: "fst (run_op au oper s) = Some e"
  shows "db (snd (run_op au oper s)) = db s"
proof -
  have wf: "wf_db (db s)" and bs: "broadcasts_ok (db s)" and bi: "bindings_ok (db s)"
    using inv by (simp_all add: store_inv_def)
  show ?thesis
  proof (cases oper)
    case (Submit r)
    with err submit_failure_writes_nothing[OF bi, of au r e] show ?thesis by simp
  next
    case (Broadcast ids a r c w)
    with err broadcast_raise_clean[OF wf bs, of ids a r c w e "snd (broadcast ids a r c w s)"] show ?thesis
      by (simp add: prod_eq_iff)
  next
    case (SupersedeBinding old b)
    with err show ?thesis
      by (auto simp: supersede_session_binding_def with_connection_def split: option.splits sum.splits if_splits)
  next
    case (ReplaceRoster room rs)
    with err show ?thesis by (auto simp: replace_room_roster_def with_connection_Inl split: if_splits)
  qed (use err wf in \<open>auto simp: set_dispatching_Inl revoke_Inl register_binding_Inl
      add_delivery_def bind_principal_def bind_platform_message_def register_provider_def
      execute_commit_Inl with_connection_Inl\<close>)
qed

text \<open>Witness of C11.\<close>

theorem failed_operation_changes_nothing_witness:
  "db (snd (run_op None (AddDelivery example_delivery) (sys_store (run_ops example_ops example_start)))) =
   db (sys_store (run_ops example_ops example_start))"
proof -
  let ?y = "run_ops example_ops example_start"
  have inv: "store_inv (db (sys_store ?y))"
    using core.reachable_inv[OF example_start_init run_ops_steps] by (simp add: sys_inv_def)
  have "fst (run_op None (AddDelivery example_delivery) (sys_store ?y)) = Some IntegrityError" by code_simp
  from failed_operation_changes_nothing[OF inv this] show ?thesis .
qed



end
