(* ===== verification/Core_Migration.thy ===== *)
theory Core_Migration
  imports Prelude
begin

text \<open>
  \<open>CoreStore.__init__\<close> and the schema migration of \<open>core/yatagarasu_core/store.py\<close>. The other theories of the core work on
  the current schema; here a database has whatever tables an earlier version left. A table is its columns, its
  constraints and its rows; a database adds the two flags the migration sets and, while a
  transaction is open, the tables it would roll back to.

  Python's \<open>sqlite3\<close> opens a transaction before an \<open>INSERT\<close>, \<open>UPDATE\<close> or \<open>DELETE\<close> and before nothing else, so
  \<open>CREATE\<close> and \<open>ALTER\<close> outside a transaction take effect at once and are not rolled back by
  \<open>with self.connection\<close>. Names are in lower case. A value is NULL, text or an integer, which is all the core stores.
\<close>

section \<open>Tables\<close>

datatype sqlval = Null | Text string | Integer int

datatype affinity = TEXT | INTEGER

record column =
  co_name :: string
  co_affinity :: affinity
  co_notnull :: bool
  co_default :: sqlval

datatype check = Among string "sqlval list" | NotBelow string int

text \<open>\<open>tb_keys\<close> holds the primary key and the unique constraints; a reference is a column, the table it refers to
  and the column there.\<close>

record sqltable =
  tb_name :: string
  tb_columns :: "column list"
  tb_keys :: "string list list"
  tb_checks :: "check list"
  tb_refs :: "(string \<times> string \<times> string) list"
  tb_rows :: "sqlval list list"

record database =
  sq_tables :: "sqltable list"
  sq_indexes :: "string list"
  sq_foreign_keys :: bool
  sq_legacy_alter :: bool
  sq_saved :: "(sqltable list \<times> string list) option"

type_synonym 'a stmt = "database \<Rightarrow> 'a res \<times> database"

definition find_table :: "database \<Rightarrow> string \<Rightarrow> sqltable option" where
  "find_table s n = fetchone (\<lambda>t. tb_name t = n) (sq_tables s)"

definition column_names :: "sqltable \<Rightarrow> string list" where
  "column_names t = map co_name (tb_columns t)"

definition row_value :: "sqltable \<Rightarrow> sqlval list \<Rightarrow> string \<Rightarrow> sqlval" where
  "row_value t r c = (case map_of (zip (column_names t) r) c of None \<Rightarrow> Null | Some v \<Rightarrow> v)"

definition select :: "sqltable \<Rightarrow> string list \<Rightarrow> sqlval list list" where
  "select t cs = map (\<lambda>r. map (row_value t r) cs) (tb_rows t)"

text \<open>\<open>PRAGMA table_info\<close>: a table that does not exist has no columns.\<close>

definition table_info :: "database \<Rightarrow> string \<Rightarrow> column list" where
  "table_info s n = (case find_table s n of None \<Rightarrow> [] | Some t \<Rightarrow> tb_columns t)"

section \<open>Statements\<close>

text \<open>Statement after statement until one raises; the effects of the earlier ones stay.\<close>

fun run_each :: "unit stmt list \<Rightarrow> unit stmt" where
  "run_each [] s = (Inr (), s)"
| "run_each (c # cs) s = (case c s of (Inl e, s') \<Rightarrow> (Inl e, s') | (Inr _, s') \<Rightarrow> run_each cs s')"

definition create_table :: "sqltable \<Rightarrow> unit stmt" where
  "create_table t s =
     (if find_table s (tb_name t) \<noteq> None then (Inl (OperationalError ''table already exists''), s)
      else (Inr (), s\<lparr>sq_tables := sq_tables s @ [t]\<rparr>))"

definition create_table_if_not_exists :: "sqltable \<Rightarrow> unit stmt" where
  "create_table_if_not_exists t s = (if find_table s (tb_name t) \<noteq> None then (Inr (), s) else create_table t s)"

text \<open>A unique index on the rows that satisfy an equation. NULLs are distinct from each other.\<close>

definition create_unique_index_if_not_exists :: "string \<Rightarrow> string \<Rightarrow> string \<Rightarrow> string \<Rightarrow> sqlval \<Rightarrow> unit stmt" where
  "create_unique_index_if_not_exists i n c wc wv s =
     (if i \<in> set (sq_indexes s) then (Inr (), s)
      else case find_table s n of
        None \<Rightarrow> (Inl (OperationalError ''no such table''), s)
      | Some t \<Rightarrow>
        if c \<notin> set (column_names t) \<or> wc \<notin> set (column_names t)
          then (Inl (OperationalError ''no such column''), s)
        else let rows = filter (\<lambda>r. row_value t r wc = wv \<and> row_value t r c \<noteq> Null) (tb_rows t)
        in if \<not> distinct (map (\<lambda>r. row_value t r c) rows) then (Inl IntegrityError, s)
           else (Inr (), s\<lparr>sq_indexes := sq_indexes s @ [i]\<rparr>))"

text \<open>\<open>ALTER TABLE ... ADD COLUMN\<close>: the rows that exist read the default.\<close>

definition add_column :: "string \<Rightarrow> column \<Rightarrow> unit stmt" where
  "add_column n c s =
     (case find_table s n of
        None \<Rightarrow> (Inl (OperationalError ''no such table''), s)
      | Some t \<Rightarrow>
        if co_name c \<in> set (column_names t) then (Inl (OperationalError ''duplicate column name''), s)
        else if co_notnull c \<and> co_default c = Null \<and> tb_rows t \<noteq> []
          then (Inl (OperationalError ''Cannot add a NOT NULL column with default value NULL''), s)
        else (Inr (), s\<lparr>sq_tables := update_where (\<lambda>t. tb_name t = n)
                (\<lambda>t. t\<lparr>tb_columns := tb_columns t @ [c], tb_rows := map (\<lambda>r. r @ [co_default c]) (tb_rows t)\<rparr>)
                (sq_tables s)\<rparr>))"

text \<open>\<open>ALTER TABLE ... RENAME\<close> also rewrites the references to the table, unless foreign keys are off and
  \<open>legacy_alter_table\<close> is on.\<close>

definition rename_table :: "string \<Rightarrow> string \<Rightarrow> unit stmt" where
  "rename_table n m s =
     (if find_table s n = None then (Inl (OperationalError ''no such table''), s)
      else if find_table s m \<noteq> None \<or> m \<in> set (sq_indexes s)
        then (Inl (OperationalError ''there is already another table or index with this name''), s)
      else let retarget = (if sq_foreign_keys s \<or> \<not> sq_legacy_alter s
                           then map (\<lambda>(c, p, pc). (c, if p = n then m else p, pc)) else id)
      in (Inr (), s\<lparr>sq_tables := map (\<lambda>t. t\<lparr>tb_name := (if tb_name t = n then m else tb_name t),
                                               tb_refs := retarget (tb_refs t)\<rparr>) (sq_tables s)\<rparr>))"

text \<open>\<open>DROP TABLE\<close> with foreign keys off, as the migration runs it. Indexes are recorded by name only: the one the
  schema declares is on the bindings, so dropping the deliveries drops no index.\<close>

definition drop_table :: "string \<Rightarrow> unit stmt" where
  "drop_table n s =
     (if find_table s n = None then (Inl (OperationalError ''no such table''), s)
      else (Inr (), s\<lparr>sq_tables := filter (\<lambda>t. tb_name t \<noteq> n) (sq_tables s)\<rparr>))"

text \<open>The constraints of one row: NOT NULL, CHECK (which NULL passes), and the keys against the rows before it.\<close>

fun check_holds :: "(string \<Rightarrow> sqlval) \<Rightarrow> check \<Rightarrow> bool" where
  "check_holds v (Among c vs) = (v c = Null \<or> v c \<in> set vs)"
| "check_holds v (NotBelow c n) = (case v c of Null \<Rightarrow> True | Integer i \<Rightarrow> n \<le> i | Text _ \<Rightarrow> True)"

definition key_free :: "sqltable \<Rightarrow> sqlval list \<Rightarrow> string list \<Rightarrow> bool" where
  "key_free t r k \<longleftrightarrow>
     Null \<in> set (map (row_value t r) k) \<or> map (row_value t r) k \<notin> (\<lambda>q. map (row_value t q) k) ` set (tb_rows t)"

definition row_ok :: "sqltable \<Rightarrow> sqlval list \<Rightarrow> bool" where
  "row_ok t r \<longleftrightarrow>
     list_all (\<lambda>c. co_notnull c \<longrightarrow> row_value t r (co_name c) \<noteq> Null) (tb_columns t) \<and>
     list_all (check_holds (row_value t r)) (tb_checks t) \<and> list_all (key_free t r) (tb_keys t)"

definition insert_sql_row :: "sqltable \<Rightarrow> sqlval list \<Rightarrow> sqltable res" where
  "insert_sql_row t r = (if row_ok t r then Inr (t\<lparr>tb_rows := tb_rows t @ [r]\<rparr>) else Inl IntegrityError)"

fun store_as :: "affinity \<Rightarrow> sqlval \<Rightarrow> sqlval" where
  "store_as TEXT (Integer n) = Text (int_text n)"
| "store_as a v = v"

text \<open>The implicit \<open>BEGIN\<close> before a data-changing statement, \<open>commit\<close> and \<open>rollback\<close>.\<close>

definition implicit_begin :: "database \<Rightarrow> database" where
  "implicit_begin s = (if sq_saved s = None then s\<lparr>sq_saved := Some (sq_tables s, sq_indexes s)\<rparr> else s)"

definition commit_sql :: "database \<Rightarrow> database" where
  "commit_sql s = s\<lparr>sq_saved := None\<rparr>"

definition rollback_sql :: "database \<Rightarrow> database" where
  "rollback_sql s =
     (case sq_saved s of
        None \<Rightarrow> s
      | Some (ts, ix) \<Rightarrow> s\<lparr>sq_tables := ts, sq_indexes := ix, sq_saved := None\<rparr>)"

text \<open>\<open>INSERT INTO n (cs) SELECT cs FROM m\<close>, for all columns of \<open>n\<close> in their order. A failing row undoes the statement.\<close>

definition insert_select :: "string \<Rightarrow> string list \<Rightarrow> string \<Rightarrow> unit stmt" where
  "insert_select n cs m s0 =
     (let s = implicit_begin s0
      in case (find_table s n, find_table s m) of
           (Some t, Some q) \<Rightarrow>
             if \<not> set cs \<subseteq> set (column_names q) then (Inl (OperationalError ''no such column''), s0)
             else (case try_each insert_sql_row t
                          (map (\<lambda>r. map2 (\<lambda>c v. store_as (co_affinity c) v) (tb_columns t) r) (select q cs)) of
                     Inl e \<Rightarrow> (Inl e, s)
                   | Inr t' \<Rightarrow> (Inr (), s\<lparr>sq_tables := update_where (\<lambda>t. tb_name t = n) (\<lambda>_. t') (sq_tables s)\<rparr>))
         | _ \<Rightarrow> (Inl (OperationalError ''no such table''), s0))"

text \<open>The pragmas. Switching foreign keys does nothing while a transaction is open.\<close>

definition set_foreign_keys :: "bool \<Rightarrow> database \<Rightarrow> database" where
  "set_foreign_keys b s = (if sq_saved s = None then s\<lparr>sq_foreign_keys := b\<rparr> else s)"

definition set_legacy_alter :: "bool \<Rightarrow> database \<Rightarrow> database" where
  "set_legacy_alter b s = s\<lparr>sq_legacy_alter := b\<rparr>"

text \<open>\<open>PRAGMA foreign_key_check\<close>: the rows that refer to nothing. A reference to a column that is no key of its
  table is an error; a reference to a table that does not exist is broken unless it is NULL.\<close>

definition parent_has :: "database \<Rightarrow> string \<Rightarrow> string \<Rightarrow> sqlval \<Rightarrow> bool" where
  "parent_has s p pc v = (case find_table s p of None \<Rightarrow> False | Some q \<Rightarrow> [v] \<in> set (select q [pc]))"

definition ref_mismatch :: "database \<Rightarrow> string \<times> string \<times> string \<Rightarrow> bool" where
  "ref_mismatch s ref =
     (case ref of (c, p, pc) \<Rightarrow> case find_table s p of None \<Rightarrow> False | Some q \<Rightarrow> [pc] \<notin> set (tb_keys q))"

definition broken_refs :: "database \<Rightarrow> sqltable \<Rightarrow> (string \<times> sqlval) list" where
  "broken_refs s t =
     concat (map (\<lambda>r. concat (map (\<lambda>(c, p, pc).
        let v = row_value t r c
        in if v \<noteq> Null \<and> \<not> parent_has s p pc v then [(tb_name t, v)] else []) (tb_refs t))) (tb_rows t))"

definition foreign_key_check :: "database \<Rightarrow> (string \<times> sqlval) list res" where
  "foreign_key_check s =
     (if list_ex (\<lambda>t. list_ex (ref_mismatch s) (tb_refs t)) (sq_tables s)
        then Inl (OperationalError ''foreign key mismatch'')
      else Inr (concat (map (broken_refs s) (sq_tables s))))"

section \<open>The current schema\<close>

definition text_column :: "string \<Rightarrow> column" where
  "text_column n = \<lparr>co_name = n, co_affinity = TEXT, co_notnull = False, co_default = Null\<rparr>"

definition text_not_null :: "string \<Rightarrow> column" where
  "text_not_null n = (text_column n)\<lparr>co_notnull := True\<rparr>"

definition integer_not_null :: "string \<Rightarrow> column" where
  "integer_not_null n = (text_not_null n)\<lparr>co_affinity := INTEGER\<rparr>"

definition integer_column :: "string \<Rightarrow> column" where
  "integer_column n = (text_column n)\<lparr>co_affinity := INTEGER\<rparr>"

definition table_def ::
  "string \<Rightarrow> column list \<Rightarrow> string list list \<Rightarrow> check list \<Rightarrow> (string \<times> string \<times> string) list \<Rightarrow> sqltable" where
  "table_def n cs ks ch refs =
     \<lparr>tb_name = n, tb_columns = cs, tb_keys = ks, tb_checks = ch, tb_refs = refs, tb_rows = []\<rparr>"

definition deliveries_table :: sqltable where
  "deliveries_table = table_def ''deliveries''
     [text_column ''delivery_id'', text_not_null ''event_id'', text_not_null ''attempt_id'', text_column ''binding_id'',
      text_not_null ''recipient_id'', text_not_null ''delivery_mode'', text_not_null ''state'', text_column ''disposition'']
     [[''delivery_id'']] [Among ''delivery_mode'' [Text ''session-bound'', Text ''channel-native'']] []"

definition health_column :: column where
  "health_column = (text_not_null ''health'')\<lparr>co_default := Text ''healthy''\<rparr>"

definition chain_column :: column where
  "chain_column = (text_not_null ''source_event_chain'')\<lparr>co_default := Text ''[]''\<rparr>"

definition providers_table :: sqltable where
  "providers_table = table_def ''providers''
     [text_column ''provider_id'', text_not_null ''kind'', health_column]
     [[''provider_id'']] [Among ''kind'' [Text ''session-transport'', Text ''comms-view'']] []"

definition provider_evidence_table :: sqltable where
  "provider_evidence_table = table_def ''provider_evidence''
     [text_not_null ''provider_id'', text_not_null ''evidence_class''] [[''provider_id'', ''evidence_class'']] []
     [(''provider_id'', ''providers'', ''provider_id'')]"

definition principal_bindings_table :: sqltable where
  "principal_bindings_table = table_def ''principal_bindings''
     [text_not_null ''provider_id'', text_not_null ''platform_principal_id'', text_not_null ''recipient_id'']
     [[''provider_id'', ''platform_principal_id'']] [] [(''provider_id'', ''providers'', ''provider_id'')]"

definition platform_message_bindings_table :: sqltable where
  "platform_message_bindings_table = table_def ''platform_message_bindings''
     [text_not_null ''provider_id'', text_not_null ''platform_message_id'', text_not_null ''event_id'',
      text_not_null ''delivery_id'', text_not_null ''attempt_id'']
     [[''provider_id'', ''platform_message_id'']] []
     [(''provider_id'', ''providers'', ''provider_id''), (''delivery_id'', ''deliveries'', ''delivery_id'')]"

definition receipts_table :: sqltable where
  "receipts_table = table_def ''receipts''
     [text_column ''receipt_id'', text_not_null ''provider_id'', text_column ''source_event_id'', text_not_null ''event_id'',
      text_not_null ''delivery_id'', text_not_null ''attempt_id'', text_not_null ''binding_id'',
      text_not_null ''evidence_class'', text_not_null ''proof_method'', text_not_null ''observed_at'',
      text_column ''disposition'', text_column ''platform_principal_id'', text_column ''platform_message_id'',
      integer_not_null ''authored_by_provider'', integer_not_null ''infrastructure_event'',
      text_column ''session_id'', text_column ''marker_signature'', chain_column, text_column ''turn_id'']
     [[''receipt_id''], [''provider_id'', ''source_event_id'']]
     [Among ''authored_by_provider'' [Integer 0, Integer 1], Among ''infrastructure_event'' [Integer 0, Integer 1]]
     [(''provider_id'', ''providers'', ''provider_id''), (''delivery_id'', ''deliveries'', ''delivery_id'')]"

definition session_bindings_table :: sqltable where
  "session_bindings_table = table_def ''session_bindings''
     [text_column ''binding_id'', text_not_null ''recipient_id'', text_not_null ''provider_id'',
      text_not_null ''adapter_instance_id'', text_not_null ''harness'', text_not_null ''session_id'',
      text_not_null ''established_at'', text_not_null ''expires_at'', text_not_null ''state'']
     [[''binding_id'']] [Among ''state'' [Text ''active'', Text ''revoked'', Text ''superseded'']]
     [(''provider_id'', ''providers'', ''provider_id'')]"

definition binding_proof_methods_table :: sqltable where
  "binding_proof_methods_table = table_def ''binding_proof_methods''
     [text_not_null ''binding_id'', text_not_null ''proof_method'', text_not_null ''source_kind'',
      text_not_null ''source_instance_id'', text_not_null ''correlation_rule'', text_not_null ''evidence_classes'']
     [[''binding_id'', ''proof_method'']] [Among ''source_kind'' [Text ''direct-hook'', Text ''event-bus'']]
     [(''binding_id'', ''session_bindings'', ''binding_id'')]"

definition audit_log_table :: sqltable where
  "audit_log_table = table_def ''audit_log''
     [integer_column ''audit_id'', text_not_null ''receipt_id'', text_not_null ''delivery_id'', text_not_null ''from_state'',
      text_not_null ''to_state'', text_column ''disposition'', text_not_null ''delivery_mode'',
      text_not_null ''session_entry'', text_not_null ''evidence_class'', text_not_null ''proof_method'']
     [[''audit_id''], [''receipt_id'']] []
     [(''receipt_id'', ''receipts'', ''receipt_id''), (''delivery_id'', ''deliveries'', ''delivery_id'')]"

definition receipt_rejections_table :: sqltable where
  "receipt_rejections_table = table_def ''receipt_rejections''
     [integer_column ''rejection_id'', text_not_null ''receipt_id'', text_not_null ''delivery_id'',
      text_not_null ''provider_id'', text_not_null ''evidence_class'', text_not_null ''proof_method'',
      text_not_null ''observed_at'', text_not_null ''reason''] [[''rejection_id'']] [] []"

definition rooms_table :: sqltable where
  "rooms_table = table_def ''rooms'' [text_column ''room_id''] [[''room_id'']] [] []"

definition room_members_table :: sqltable where
  "room_members_table = table_def ''room_members''
     [text_not_null ''room_id'', text_not_null ''recipient_id'', integer_not_null ''roster_ordinal'']
     [[''room_id'', ''recipient_id''], [''room_id'', ''roster_ordinal'']] [] [(''room_id'', ''rooms'', ''room_id'')]"

definition canonical_events_table :: sqltable where
  "canonical_events_table = table_def ''canonical_events''
     [text_column ''event_id'', text_not_null ''actor_id'', text_not_null ''room_id'', text_not_null ''content'',
      text_not_null ''accepted_at'', text_not_null ''authority_scope'']
     [[''event_id'']] [Among ''authority_scope'' [Text ''conversation'']] [(''room_id'', ''rooms'', ''room_id'')]"

definition broadcasts_table :: sqltable where
  "broadcasts_table = table_def ''broadcasts''
     [text_column ''broadcast_id'', text_not_null ''event_id'', text_not_null ''room_id'',
      integer_not_null ''roster_snapshot_size'']
     [[''broadcast_id''], [''event_id'']] [NotBelow ''roster_snapshot_size'' 0]
     [(''event_id'', ''canonical_events'', ''event_id''), (''room_id'', ''rooms'', ''room_id'')]"

definition broadcast_recipients_table :: sqltable where
  "broadcast_recipients_table = table_def ''broadcast_recipients''
     [text_not_null ''broadcast_id'', text_not_null ''recipient_id'', integer_not_null ''roster_ordinal'',
      text_column ''binding_id'', text_not_null ''delivery_id'']
     [[''broadcast_id'', ''recipient_id''], [''broadcast_id'', ''roster_ordinal''], [''delivery_id'']] []
     [(''broadcast_id'', ''broadcasts'', ''broadcast_id''), (''delivery_id'', ''deliveries'', ''delivery_id'')]"

definition broadcast_audit_table :: sqltable where
  "broadcast_audit_table = table_def ''broadcast_audit''
     [text_column ''broadcast_id'', text_not_null ''event_id'', integer_not_null ''roster_snapshot_size'']
     [[''broadcast_id'']] [] [(''broadcast_id'', ''broadcasts'', ''broadcast_id'')]"

section \<open>The migration\<close>

text \<open>The steps of the script and of the calls after it.\<close>

datatype ddl = CreateTable sqltable | CreateActiveIndex | EnsureColumn string column

definition ensure_column :: "string \<Rightarrow> column \<Rightarrow> unit stmt" where
  "ensure_column n c s = (if co_name c \<notin> co_name ` set (table_info s n) then add_column n c s else (Inr (), s))"

definition ACTIVE_INDEX :: string where
  "ACTIVE_INDEX = ''idx_one_active_binding_per_recipient''"

fun exec_ddl :: "ddl \<Rightarrow> unit stmt" where
  "exec_ddl (CreateTable t) = create_table_if_not_exists t"
| "exec_ddl CreateActiveIndex =
     create_unique_index_if_not_exists ACTIVE_INDEX ''session_bindings'' ''recipient_id'' ''state'' (Text ''active'')"
| "exec_ddl (EnsureColumn n c) = ensure_column n c"

definition schema_script :: "ddl list" where
  "schema_script =
     [CreateTable deliveries_table, CreateTable providers_table, CreateTable provider_evidence_table,
      CreateTable principal_bindings_table, CreateTable platform_message_bindings_table, CreateTable receipts_table,
      CreateTable session_bindings_table, CreateActiveIndex, CreateTable binding_proof_methods_table,
      CreateTable audit_log_table, CreateTable receipt_rejections_table, CreateTable rooms_table,
      CreateTable room_members_table, CreateTable canonical_events_table, CreateTable broadcasts_table,
      CreateTable broadcast_recipients_table, CreateTable broadcast_audit_table]"

definition column_script :: "ddl list" where
  "column_script =
     [EnsureColumn ''providers'' health_column, EnsureColumn ''receipts'' (text_column ''session_id''),
      EnsureColumn ''receipts'' (text_column ''marker_signature''), EnsureColumn ''receipts'' chain_column,
      EnsureColumn ''receipts'' (text_column ''turn_id'')]"

definition DELIVERY_COLUMNS :: "string list" where
  "DELIVERY_COLUMNS = column_names deliveries_table"

definition LEGACY_NAME :: string where
  "LEGACY_NAME = ''deliveries_legacy_not_null''"

text \<open>The body of \<open>with self.connection\<close>.\<close>

definition check_integrity :: "unit stmt" where
  "check_integrity s =
     (case foreign_key_check s of
        Inl e \<Rightarrow> (Inl e, s)
      | Inr violations \<Rightarrow>
        if violations \<noteq> [] then (Inl (RuntimeError ''delivery binding migration broke foreign-key integrity''), s)
        else (Inr (), s))"

definition rebuild_deliveries :: "unit stmt" where
  "rebuild_deliveries =
     run_each
       [rename_table ''deliveries'' LEGACY_NAME,
        create_table deliveries_table,
        insert_select ''deliveries'' DELIVERY_COLUMNS LEGACY_NAME,
        drop_table LEGACY_NAME,
        check_integrity]"

definition with_connection :: "unit stmt \<Rightarrow> unit stmt" where
  "with_connection body s =
     (case body s of (Inl e, s') \<Rightarrow> (Inl e, rollback_sql s') | (Inr _, s') \<Rightarrow> (Inr (), commit_sql s'))"

definition binding_not_null :: "database \<Rightarrow> bool" where
  "binding_not_null s =
     (case fetchone (\<lambda>c. co_name c = ''binding_id'') (table_info s ''deliveries'') of
        None \<Rightarrow> False
      | Some c \<Rightarrow> co_notnull c)"

definition migrate_nullable_delivery_binding :: "unit stmt" where
  "migrate_nullable_delivery_binding s =
     (if \<not> binding_not_null s then (Inr (), s)
      else case with_connection rebuild_deliveries
                  (set_legacy_alter True (set_foreign_keys False (commit_sql s))) of
        (r, s') \<Rightarrow> (r, set_foreign_keys True (set_legacy_alter False s')))"

definition migrate :: "unit stmt" where
  "migrate s =
     (case run_each (map exec_ddl (schema_script @ column_script)) (commit_sql s) of
        (Inl e, s') \<Rightarrow> (Inl e, s')
      | (Inr _, s') \<Rightarrow> migrate_nullable_delivery_binding (commit_sql s'))"

text \<open>\<open>CoreStore.__init__\<close> on what the file holds: a new connection has no transaction open.\<close>

definition open_store :: "sqltable list \<Rightarrow> string list \<Rightarrow> unit res \<times> database" where
  "open_store ts ix =
     migrate (set_foreign_keys True
       \<lparr>sq_tables = ts, sq_indexes = ix, sq_foreign_keys = False, sq_legacy_alter = False, sq_saved = None\<rparr>)"

end
