(* ===== verification/Core_Migration_Facts.thy ===== *)
theory Core_Migration_Facts
  imports Core_Migration
begin

text \<open>
  What opening a store does to a database: the steps of the start-up script, the rebuild of the deliveries when it
  succeeds, what a failed rebuild leaves behind, and that a second start changes nothing.
\<close>

section \<open>Scripts of idempotent steps\<close>

text \<open>
  The contract of a step that is written to be repeated: when it returns its goal holds, when its goal holds it does
  nothing, and no step undoes the goal of another.
\<close>

locale idempotent_script =
  fixes ok :: "'i \<Rightarrow> bool"
    and exec :: "'i \<Rightarrow> unit stmt"
    and goal :: "'i \<Rightarrow> database \<Rightarrow> bool"
    and le :: "database \<Rightarrow> database \<Rightarrow> bool"
  assumes le_refl: "le s s"
    and le_trans: "le s1 s2 \<Longrightarrow> le s2 s3 \<Longrightarrow> le s1 s3"
    and exec_le: "ok i \<Longrightarrow> exec i s = (r, s') \<Longrightarrow> le s s'"
    and exec_goal: "exec i s = (Inr u, s') \<Longrightarrow> goal i s'"
    and exec_skip: "goal i s \<Longrightarrow> exec i s = (Inr (), s)"
    and goal_mono: "goal i s \<Longrightarrow> le s s' \<Longrightarrow> goal i s'"
begin

lemma script_le: "list_all ok is \<Longrightarrow> run_each (map exec is) s = (r, s') \<Longrightarrow> le s s'"
proof (induction "is" arbitrary: s)
  case Nil
  then show ?case by (simp add: le_refl)
next
  case (Cons i "is")
  obtain q t where t: "exec i s = (q, t)" by fastforce
  with Cons have "t = s' \<or> le t s'" by (auto split: sum.splits)
  moreover from Cons.prems(1) exec_le[OF _ t] have "le s t" by simp
  ultimately show ?case using le_trans by blast
qed

lemma script_goals:
  "list_all ok is \<Longrightarrow> run_each (map exec is) s = (Inr u, s') \<Longrightarrow> i \<in> set is \<Longrightarrow> goal i s'"
proof (induction "is" arbitrary: s)
  case (Cons j "is")
  then obtain v t where t: "exec j s = (Inr v, t)" and rest: "run_each (map exec is) t = (Inr u, s')"
    by (auto split: prod.splits sum.splits)
  from Cons.prems(1) script_le[OF _ rest] have "le t s'" by simp
  with exec_goal[OF t] have "goal j s'" by (rule goal_mono)
  with Cons.IH[OF _ rest] Cons.prems(1,3) show ?case by auto
qed simp

lemma script_skip: "(\<And>i. i \<in> set is \<Longrightarrow> goal i s) \<Longrightarrow> run_each (map exec is) s = (Inr (), s)"
  by (induction "is") (simp_all add: exec_skip)

end

section \<open>What a start-up step may change\<close>

text \<open>A table grows by columns at the end, which its rows read with their default.\<close>

definition extends :: "sqltable \<Rightarrow> sqltable \<Rightarrow> bool" where
  "extends t t' \<longleftrightarrow>
     tb_name t' = tb_name t \<and> tb_keys t' = tb_keys t \<and> tb_checks t' = tb_checks t \<and> tb_refs t' = tb_refs t \<and>
     (\<exists>cs. tb_columns t' = tb_columns t @ cs \<and> tb_rows t' = map (\<lambda>r. r @ map co_default cs) (tb_rows t))"

definition wf_table :: "sqltable \<Rightarrow> bool" where
  "wf_table t \<longleftrightarrow> distinct (column_names t) \<and> (\<forall>r \<in> set (tb_rows t). length r = length (tb_columns t))"

definition wf_tables :: "database \<Rightarrow> bool" where
  "wf_tables s \<longleftrightarrow> distinct (map tb_name (sq_tables s)) \<and> (\<forall>t \<in> set (sq_tables s). wf_table t)"

definition db_extends :: "database \<Rightarrow> database \<Rightarrow> bool" where
  "db_extends s s' \<longleftrightarrow>
     sq_foreign_keys s' = sq_foreign_keys s \<and> sq_legacy_alter s' = sq_legacy_alter s \<and> sq_saved s' = sq_saved s \<and>
     set (sq_indexes s) \<subseteq> set (sq_indexes s') \<and> (wf_tables s \<longrightarrow> wf_tables s') \<and>
     (\<forall>n t. find_table s n = Some t \<longrightarrow> (\<exists>t'. find_table s' n = Some t' \<and> extends t t')) \<and>
     (\<forall>n t'. find_table s n = None \<and> find_table s' n = Some t' \<longrightarrow> tb_rows t' = [])"

lemma extends_refl [simp]: "extends t t"
  by (simp add: extends_def)

lemma extends_trans: "extends t u \<Longrightarrow> extends u v \<Longrightarrow> extends t v"
  by (fastforce simp: extends_def)

lemma db_extends_refl [simp]: "db_extends s s"
  by (auto simp: db_extends_def)

lemma db_extends_trans:
  assumes "db_extends s1 s2" "db_extends s2 s3"
  shows "db_extends s1 s3"
proof -
  have new: "tb_rows t = []" if "find_table s1 n = None" "find_table s3 n = Some t" for n t
  proof (cases "find_table s2 n")
    case None
    with assms(2) that(2) show ?thesis by (simp add: db_extends_def)
  next
    case (Some u)
    with assms(1) that(1) have "tb_rows u = []" by (simp add: db_extends_def)
    moreover from assms(2) Some that(2) have "extends u t" by (fastforce simp: db_extends_def)
    ultimately show ?thesis by (auto simp: extends_def)
  qed
  have "\<exists>t'. find_table s3 n = Some t' \<and> extends t t'" if "find_table s1 n = Some t" for n t
    using assms that unfolding db_extends_def by (meson extends_trans)
  with new assms show ?thesis unfolding db_extends_def by auto
qed

lemma db_extendsD:
  assumes "db_extends s s'" "find_table s n = Some t"
  obtains t' where "find_table s' n = Some t'" "extends t t'"
  using assms unfolding db_extends_def by blast

lemma find_table_update:
  assumes "\<And>t. tb_name (f t) = tb_name t"
  shows "find_table (s\<lparr>sq_tables := update_where (\<lambda>t. tb_name t = n) f (sq_tables s)\<rparr>) m =
    map_option (\<lambda>t. if m = n then f t else t) (find_table s m)"
proof -
  have "fetchone (\<lambda>t. tb_name t = m) (update_where (\<lambda>t. tb_name t = n) f ts) =
      map_option (\<lambda>t. if m = n then f t else t) (fetchone (\<lambda>t. tb_name t = m) ts)" for ts
    using assms by (induction ts) (auto simp: update_where_def)
  then show ?thesis by (simp add: find_table_def)
qed

lemma find_table_SomeD: "find_table s n = Some t \<Longrightarrow> t \<in> set (sq_tables s) \<and> tb_name t = n"
  unfolding find_table_def by (rule fetchone_SomeD)

lemma find_table_None_iff: "find_table s n = None \<longleftrightarrow> n \<notin> tb_name ` set (sq_tables s)"
  by (auto simp: find_table_def fetchone_None_iff)

text \<open>Reading by name is not affected by columns at the end.\<close>

lemma row_value_extend:
  assumes "length r = length (tb_columns t)" "c \<in> set (column_names t)" "extends t t'"
  shows "row_value t' (r @ vs) c = row_value t r c"
proof -
  from assms(3) obtain cs where "tb_columns t' = tb_columns t @ cs"
    by (auto simp: extends_def)
  with assms(1) have "zip (column_names t') (r @ vs) = zip (column_names t) r @ zip (map co_name cs) vs"
    by (simp add: column_names_def)
  moreover from assms(1,2) obtain v where "map_of (zip (column_names t) r) c = Some v"
    by (metis column_names_def length_map map_of_zip_is_None not_None_eq)
  ultimately show ?thesis by (simp add: row_value_def)
qed

lemma select_extend:
  assumes "wf_table t" "extends t t'" "set cs \<subseteq> set (column_names t)"
  shows "select t' cs = select t cs"
proof -
  from assms(2) obtain vs where "tb_rows t' = map (\<lambda>r. r @ vs) (tb_rows t)"
    by (auto simp: extends_def)
  with assms show ?thesis
    by (auto simp: select_def wf_table_def intro!: row_value_extend[OF _ _ assms(2)])
qed

section \<open>The start-up script\<close>

fun ddl_goal :: "ddl \<Rightarrow> database \<Rightarrow> bool" where
  "ddl_goal (CreateTable t) s \<longleftrightarrow> find_table s (tb_name t) \<noteq> None"
| "ddl_goal CreateActiveIndex s \<longleftrightarrow> ACTIVE_INDEX \<in> set (sq_indexes s)"
| "ddl_goal (EnsureColumn n c) s \<longleftrightarrow> co_name c \<in> co_name ` set (table_info s n)"

fun ddl_wf :: "ddl \<Rightarrow> bool" where
  "ddl_wf (CreateTable t) \<longleftrightarrow> wf_table t \<and> tb_rows t = []"
| "ddl_wf _ \<longleftrightarrow> True"

lemma table_info_extend: "db_extends s s' \<Longrightarrow> set (table_info s n) \<subseteq> set (table_info s' n)"
proof (cases "find_table s n")
  case (Some t)
  assume "db_extends s s'"
  from this Some obtain t' where "find_table s' n = Some t'" "extends t t'" by (rule db_extendsD)
  with Some show ?thesis by (auto simp: table_info_def extends_def)
qed (simp add: table_info_def)

lemma create_table_le:
  assumes "wf_table t" "tb_rows t = []" "create_table_if_not_exists t s = (r, s')"
  shows "db_extends s s'"
proof (cases "find_table s (tb_name t)")
  case None
  with assms have s': "s' = s\<lparr>sq_tables := sq_tables s @ [t]\<rparr>"
    by (simp add: create_table_if_not_exists_def create_table_def)
  have "find_table s' n = (case find_table s n of None \<Rightarrow> if tb_name t = n then Some t else None | Some u \<Rightarrow> Some u)" for n
    by (auto simp: s' find_table_def fetchone_append split: option.splits)
  moreover from None assms(1) have "wf_tables s \<Longrightarrow> wf_tables s'"
    by (simp add: s' wf_tables_def find_table_None_iff)
  ultimately show ?thesis
    using assms(2) unfolding db_extends_def by (auto simp: s' split: if_splits)
qed (use assms in \<open>simp add: create_table_if_not_exists_def\<close>)

lemma add_column_wf:
  assumes "wf_tables s" "find_table s n = Some t" "co_name c \<notin> set (column_names t)"
  shows "wf_tables (s\<lparr>sq_tables := update_where (\<lambda>t. tb_name t = n)
           (\<lambda>t. t\<lparr>tb_columns := tb_columns t @ [c], tb_rows := map (\<lambda>r. r @ [co_default c]) (tb_rows t)\<rparr>) (sq_tables s)\<rparr>)"
proof -
  have "u = t" if "u \<in> set (sq_tables s)" "tb_name u = n" for u
    using assms(1) find_table_SomeD[OF assms(2)] that by (auto simp: wf_tables_def distinct_map dest: inj_onD)
  with assms show ?thesis
    by (auto simp: wf_tables_def wf_table_def column_names_def update_where_map_key dest!: set_update_whereD
        split: if_splits)
qed

lemma ensure_column_le:
  assumes "ensure_column n c s = (r, s')"
  shows "db_extends s s'"
proof (cases "s' = s")
  case False
  let ?f = "\<lambda>t. t\<lparr>tb_columns := tb_columns t @ [c], tb_rows := map (\<lambda>r. r @ [co_default c]) (tb_rows t)\<rparr>"
  from False assms obtain t where t: "find_table s n = Some t" "co_name c \<notin> set (column_names t)"
    and s': "s' = s\<lparr>sq_tables := update_where (\<lambda>t. tb_name t = n) ?f (sq_tables s)\<rparr>"
    by (auto simp: ensure_column_def add_column_def split: if_splits option.splits)
  have "extends u (?f u)" for u by (auto simp: extends_def intro!: exI[of _ "[c]"])
  moreover have "wf_tables s \<Longrightarrow> wf_tables s'" unfolding s' by (rule add_column_wf[OF _ t])
  ultimately show ?thesis unfolding db_extends_def by (auto simp: s' find_table_update)
qed simp

lemma exec_ddl_le: "ddl_wf d \<Longrightarrow> exec_ddl d s = (r, s') \<Longrightarrow> db_extends s s'"
proof (cases d)
  case CreateActiveIndex
  assume "exec_ddl d s = (r, s')"
  with CreateActiveIndex have "sq_tables s' = sq_tables s" "set (sq_indexes s) \<subseteq> set (sq_indexes s')"
    "sq_foreign_keys s' = sq_foreign_keys s" "sq_legacy_alter s' = sq_legacy_alter s" "sq_saved s' = sq_saved s"
    by (auto simp: create_unique_index_if_not_exists_def Let_def split: if_splits option.splits)
  moreover from this(1) have "find_table s' = find_table s" by (simp add: fun_eq_iff find_table_def)
  ultimately show ?thesis by (auto simp: db_extends_def wf_tables_def)
qed (auto intro: create_table_le ensure_column_le)

lemma exec_ddl_goal: "exec_ddl d s = (Inr u, s') \<Longrightarrow> ddl_goal d s'"
proof (cases d)
  case (EnsureColumn n c)
  assume "exec_ddl d s = (Inr u, s')"
  with EnsureColumn show ?thesis
    by (auto simp: ensure_column_def add_column_def table_info_def find_table_update split: if_splits option.splits)
qed (auto simp: create_table_if_not_exists_def create_table_def find_table_None_iff
      create_unique_index_if_not_exists_def Let_def split: if_splits option.splits)

lemma exec_ddl_skip: "ddl_goal d s \<Longrightarrow> exec_ddl d s = (Inr (), s)"
  by (cases d) (auto simp: create_table_if_not_exists_def create_unique_index_if_not_exists_def ensure_column_def)

lemma ddl_goal_mono: "ddl_goal d s \<Longrightarrow> db_extends s s' \<Longrightarrow> ddl_goal d s'"
proof (cases d)
  case (EnsureColumn n c)
  assume "ddl_goal d s" "db_extends s s'"
  with EnsureColumn table_info_extend[of s s' n] show ?thesis by auto
next
  case (CreateTable t)
  assume "ddl_goal d s" "db_extends s s'"
  with CreateTable show ?thesis by (auto elim!: db_extendsD)
qed (auto simp: db_extends_def)

interpretation startup: idempotent_script ddl_wf exec_ddl ddl_goal db_extends
  by unfold_locales
    (simp, erule (1) db_extends_trans, erule (1) exec_ddl_le, erule exec_ddl_goal, erule exec_ddl_skip,
      erule (1) ddl_goal_mono)

section \<open>Rebuilding the deliveries\<close>

definition rename_deliveries :: "sqltable \<Rightarrow> sqltable" where
  "rename_deliveries t = (if tb_name t = ''deliveries'' then t\<lparr>tb_name := LEGACY_NAME\<rparr> else t)"

text \<open>The tables a failed rebuild leaves, and those of a successful one.\<close>

definition stranded :: "database \<Rightarrow> database" where
  "stranded s = s\<lparr>sq_tables := map rename_deliveries (sq_tables s) @ [deliveries_table]\<rparr>"

definition rebuilt :: "sqltable \<Rightarrow> database \<Rightarrow> database" where
  "rebuilt t s = s\<lparr>sq_tables := filter (\<lambda>t. tb_name t \<noteq> ''deliveries'') (sq_tables s) @ [t]\<rparr>"

definition copied :: "sqltable \<Rightarrow> sqlval list list" where
  "copied t = map (map (store_as TEXT)) (select t DELIVERY_COLUMNS)"

lemma deliveries_table_facts:
  "list_all (\<lambda>c. co_affinity c = TEXT) (tb_columns deliveries_table)" "length (tb_columns deliveries_table) = 8"
  "length DELIVERY_COLUMNS = 8" "tb_name deliveries_table = ''deliveries''" "LEGACY_NAME \<noteq> ''deliveries''"
  "''deliveries'' \<noteq> LEGACY_NAME" "wf_table deliveries_table" "tb_refs deliveries_table = []"
  "tb_rows deliveries_table = []" "column_names deliveries_table = DELIVERY_COLUMNS"
  by code_simp+

lemma map2_store_as:
  "length cs = length r \<Longrightarrow> list_all (\<lambda>c. co_affinity c = TEXT) cs \<Longrightarrow>
   map2 (\<lambda>c v. store_as (co_affinity c) v) cs r = map (store_as TEXT) r"
  by (induction cs r rule: list_induct2) simp_all

lemma copied_rows:
  "map (\<lambda>r. map2 (\<lambda>c v. store_as (co_affinity c) v) (tb_columns deliveries_table) r) (select t DELIVERY_COLUMNS) =
   copied t"
  unfolding copied_def
  by (rule map_cong[OF refl], rule map2_store_as) (auto simp: select_def deliveries_table_facts)

lemma try_each_insert:
  assumes "try_each insert_sql_row t rs = Inr t'"
  shows "t' = t\<lparr>tb_rows := tb_rows t @ rs\<rparr>"
  using assms
proof (induction rs arbitrary: t)
  case (Cons r rs)
  then have "try_each insert_sql_row (t\<lparr>tb_rows := tb_rows t @ [r]\<rparr>) rs = Inr t'"
    by (auto simp: insert_sql_row_def[of t r] split: if_splits)
  from Cons.IH[OF this] show ?case by simp
qed simp

lemma tables_stranded:
  assumes "find_table s LEGACY_NAME = None"
  shows "find_table (stranded s) n =
    (if n = ''deliveries'' then Some deliveries_table
     else if n = LEGACY_NAME then map_option rename_deliveries (find_table s ''deliveries'')
     else find_table s n)"
proof -
  have "fetchone (\<lambda>t. tb_name t = n) (map rename_deliveries ts @ [deliveries_table]) =
      (if n = ''deliveries'' then Some deliveries_table
       else if n = LEGACY_NAME then map_option rename_deliveries (fetchone (\<lambda>t. tb_name t = ''deliveries'') ts)
       else fetchone (\<lambda>t. tb_name t = n) ts)"
    if "fetchone (\<lambda>t. tb_name t = LEGACY_NAME) ts = None" for ts
    using that by (induction ts) (auto simp: rename_deliveries_def deliveries_table_facts split: if_splits)
  with assms show ?thesis by (simp add: find_table_def stranded_def)
qed

lemma tables_rebuilt:
  assumes "tb_name t = ''deliveries''"
  shows "find_table (rebuilt t s) n = (if n = ''deliveries'' then Some t else find_table s n)"
proof -
  have "fetchone (\<lambda>t. tb_name t = n) (filter (\<lambda>t. tb_name t \<noteq> ''deliveries'') ts @ [t]) =
      (if n = ''deliveries'' then Some t else fetchone (\<lambda>t. tb_name t = n) ts)" for ts
    using assms by (induction ts) auto
  then show ?thesis by (simp add: find_table_def rebuilt_def)
qed

text \<open>The state in which the body of the transaction starts.\<close>

definition rebuild_ready :: "database \<Rightarrow> bool" where
  "rebuild_ready s \<longleftrightarrow>
     \<not> sq_foreign_keys s \<and> sq_legacy_alter s \<and> sq_saved s = None \<and> find_table s ''deliveries'' \<noteq> None \<and>
     find_table s LEGACY_NAME = None \<and> LEGACY_NAME \<notin> set (sq_indexes s)"

lemma rename_then_create:
  assumes "rebuild_ready s"
  shows "rename_table ''deliveries'' LEGACY_NAME s = (Inr (), s\<lparr>sq_tables := map rename_deliveries (sq_tables s)\<rparr>)"
    and "create_table deliveries_table (s\<lparr>sq_tables := map rename_deliveries (sq_tables s)\<rparr>) = (Inr (), stranded s)"
proof -
  have "(\<lambda>t. t\<lparr>tb_name := (if tb_name t = ''deliveries'' then LEGACY_NAME else tb_name t), tb_refs := tb_refs t\<rparr>) =
      rename_deliveries"
    by (simp add: fun_eq_iff rename_deliveries_def)
  with assms show "rename_table ''deliveries'' LEGACY_NAME s =
      (Inr (), s\<lparr>sq_tables := map rename_deliveries (sq_tables s)\<rparr>)"
    by (simp add: rename_table_def rebuild_ready_def)
  have "''deliveries'' \<notin> tb_name ` rename_deliveries ` A" for A
    by (auto simp: rename_deliveries_def deliveries_table_facts split: if_splits)
  then show "create_table deliveries_table (s\<lparr>sq_tables := map rename_deliveries (sq_tables s)\<rparr>) =
      (Inr (), stranded s)"
    by (simp add: create_table_def find_table_None_iff stranded_def deliveries_table_facts)
qed

lemma copy_tables:
  assumes "find_table s LEGACY_NAME = None" "tb_name t = ''deliveries''"
  shows "filter (\<lambda>u. tb_name u \<noteq> LEGACY_NAME)
      (update_where (\<lambda>u. tb_name u = ''deliveries'') (\<lambda>_. t) (sq_tables (stranded s))) = sq_tables (rebuilt t s)"
proof -
  have "filter (\<lambda>u. tb_name u \<noteq> LEGACY_NAME)
      (update_where (\<lambda>u. tb_name u = ''deliveries'') (\<lambda>_. t) (map rename_deliveries ts)) =
      filter (\<lambda>u. tb_name u \<noteq> ''deliveries'') ts" if "LEGACY_NAME \<notin> tb_name ` set ts" for ts
    using that by (induction ts) (auto simp: update_where_def rename_deliveries_def deliveries_table_facts)
  from this[of "sq_tables s"] assms show ?thesis
    by (simp add: stranded_def rebuilt_def find_table_None_iff update_where_def deliveries_table_facts)
qed

lemma set_update_where_keep: "x \<in> set rows \<Longrightarrow> \<not> P x \<Longrightarrow> x \<in> set (update_where P f rows)"
  by (auto simp: update_where_def)

lemma find_table_saved [simp]: "find_table (s\<lparr>sq_saved := x\<rparr>) n = find_table s n"
  by (simp add: find_table_def)

lemma foreign_key_check_saved [simp]: "foreign_key_check (s\<lparr>sq_saved := x\<rparr>) = foreign_key_check s"
  by (simp add: foreign_key_check_def broken_refs_def[abs_def] parent_has_def ref_mismatch_def[abs_def])

lemma rename_deliveries_reads [simp]:
  "select (rename_deliveries t) cs = select t cs" "column_names (rename_deliveries t) = column_names t"
  by (simp_all add: rename_deliveries_def select_def row_value_def[abs_def] column_names_def)

text \<open>The copy as one statement: on success the rows are in, otherwise only a transaction was opened.\<close>

lemma copy_deliveries:
  assumes ready: "rebuild_ready s" and t: "find_table s ''deliveries'' = Some t"
  defines "sv \<equiv> Some (sq_tables (stranded s), sq_indexes s)"
  shows "insert_select ''deliveries'' DELIVERY_COLUMNS LEGACY_NAME (stranded s) =
    (if \<not> set DELIVERY_COLUMNS \<subseteq> set (column_names t) then (Inl (OperationalError ''no such column''), stranded s)
     else case try_each insert_sql_row deliveries_table (copied t) of
       Inl e \<Rightarrow> (Inl e, (stranded s)\<lparr>sq_saved := sv\<rparr>)
     | Inr t' \<Rightarrow> (Inr (), (stranded s)\<lparr>sq_saved := sv, sq_tables :=
                      update_where (\<lambda>u. tb_name u = ''deliveries'') (\<lambda>_. t') (sq_tables (stranded s))\<rparr>))"
proof -
  have begun: "implicit_begin (stranded s) = (stranded s)\<lparr>sq_saved := sv\<rparr>"
    using ready by (simp add: implicit_begin_def sv_def rebuild_ready_def stranded_def)
  have "find_table (stranded s) ''deliveries'' = Some deliveries_table"
    "find_table (stranded s) LEGACY_NAME = Some (rename_deliveries t)"
    using ready t by (simp_all add: tables_stranded rebuild_ready_def deliveries_table_facts)
  then show ?thesis
    unfolding insert_select_def begun Let_def by (simp add: copied_rows split: sum.splits)
qed

text \<open>Either every row was copied and every reference holds, or the tables are the stranded ones.\<close>

lemma rebuild_outcome:
  assumes ready: "rebuild_ready s" and t: "find_table s ''deliveries'' = Some t"
  shows "with_connection rebuild_deliveries s =
    (if \<not> set DELIVERY_COLUMNS \<subseteq> set (column_names t) then (Inl (OperationalError ''no such column''), stranded s)
     else case try_each insert_sql_row deliveries_table (copied t) of
       Inl e \<Rightarrow> (Inl e, stranded s)
     | Inr t' \<Rightarrow>
       (case check_integrity (rebuilt t' s) of
          (Inl e, _) \<Rightarrow> (Inl e, stranded s)
        | (Inr _, _) \<Rightarrow> (Inr (), rebuilt t' s)))"
proof -
  define sv where "sv = Some (sq_tables (stranded s), sq_indexes s)"
  have undo: "rollback_sql (u\<lparr>sq_saved := sv\<rparr>) = stranded s" "rollback_sql (stranded s) = stranded s"
    if "u = (stranded s)\<lparr>sq_tables := ts\<rparr>" for u ts
    using that ready by (simp_all add: rollback_sql_def sv_def rebuild_ready_def stranded_def)
  note steps = rename_then_create[OF ready] copy_deliveries[OF ready t, folded sv_def]
  show ?thesis
  proof (cases "try_each insert_sql_row deliveries_table (copied t)")
    case (Inl e)
    then show ?thesis
      using undo[of "stranded s" "sq_tables (stranded s)"] by (simp add: with_connection_def rebuild_deliveries_def steps)
  next
    case (Inr t')
    let ?full = "(stranded s)\<lparr>sq_saved := sv, sq_tables :=
      update_where (\<lambda>u. tb_name u = ''deliveries'') (\<lambda>_. t') (sq_tables (stranded s))\<rparr>"
    from try_each_insert[OF Inr] have name: "tb_name t' = ''deliveries''" by (simp add: deliveries_table_facts)
    have "find_table (stranded s) LEGACY_NAME = Some (rename_deliveries t)"
      using ready t tables_stranded[of s LEGACY_NAME] by (simp add: rebuild_ready_def deliveries_table_facts)
    from find_table_SomeD[OF this]
    have "rename_deliveries t \<in> set (sq_tables ?full)" "tb_name (rename_deliveries t) = LEGACY_NAME"
      by (auto simp: deliveries_table_facts intro!: set_update_where_keep)
    then have "find_table ?full LEGACY_NAME \<noteq> None" unfolding find_table_None_iff by (metis image_eqI)
    then have drop: "drop_table LEGACY_NAME ?full = (Inr (), (rebuilt t' s)\<lparr>sq_saved := sv\<rparr>)"
      using copy_tables[OF _ name, of s] ready
      by (simp add: drop_table_def rebuild_ready_def) (simp add: stranded_def rebuilt_def)
    have undo': "rollback_sql ((rebuilt t' s)\<lparr>sq_saved := sv\<rparr>) = stranded s"
      "commit_sql ((rebuilt t' s)\<lparr>sq_saved := sv\<rparr>) = rebuilt t' s"
      using ready by (simp_all add: rollback_sql_def commit_sql_def sv_def rebuild_ready_def stranded_def rebuilt_def)
    from Inr drop undo' undo(2) show ?thesis
      by (simp add: with_connection_def rebuild_deliveries_def steps check_integrity_def split: sum.splits)
  qed
qed

text \<open>A connection between two statements of the store: nothing open, both flags as the store keeps them.\<close>

definition idle :: "database \<Rightarrow> bool" where
  "idle s \<longleftrightarrow> sq_saved s = None \<and> sq_foreign_keys s \<and> \<not> sq_legacy_alter s"

definition legacy_free :: "database \<Rightarrow> bool" where
  "legacy_free s \<longleftrightarrow> find_table s LEGACY_NAME = None \<and> LEGACY_NAME \<notin> set (sq_indexes s)"

abbreviation unguarded :: "database \<Rightarrow> database" where
  "unguarded s \<equiv> s\<lparr>sq_foreign_keys := False, sq_legacy_alter := True\<rparr>"

lemma unguarded_reads [simp]:
  "find_table (unguarded s) n = find_table s n" "foreign_key_check (rebuilt t (unguarded s)) = foreign_key_check (rebuilt t s)"
  by (simp_all add: find_table_def foreign_key_check_def broken_refs_def[abs_def] parent_has_def
      ref_mismatch_def[abs_def] rebuilt_def)

lemma binding_not_null_table: "binding_not_null s \<Longrightarrow> \<exists>t. find_table s ''deliveries'' = Some t"
  by (auto simp: binding_not_null_def table_info_def split: option.splits)

lemma commit_idle [simp]: "sq_saved s = None \<Longrightarrow> commit_sql s = s"
  by (cases s) (simp add: commit_sql_def)

lemma nullable_eq:
  assumes "idle s" "binding_not_null s"
  shows "migrate_nullable_delivery_binding s =
    (case with_connection rebuild_deliveries (unguarded s) of
       (r, s') \<Rightarrow> (r, set_foreign_keys True (set_legacy_alter False s')))"
  using assms
  by (simp add: migrate_nullable_delivery_binding_def idle_def set_foreign_keys_def set_legacy_alter_def)

lemma guards_back:
  assumes "idle s"
  shows "set_foreign_keys True (set_legacy_alter False (stranded (unguarded s))) = stranded s"
    "set_foreign_keys True (set_legacy_alter False (rebuilt t (unguarded s))) = rebuilt t s"
  using assms
  by (cases s, simp_all add: idle_def set_foreign_keys_def set_legacy_alter_def stranded_def rebuilt_def)

lemma nullable_done:
  assumes "idle s" "migrate_nullable_delivery_binding s = (Inr u, s')"
  obtains (kept) "\<not> binding_not_null s" "s' = s"
  | (copied) t t' where "find_table s ''deliveries'' = Some t" "try_each insert_sql_row deliveries_table (copied t) = Inr t'"
      "s' = rebuilt t' s" "binding_not_null s"
proof (cases "binding_not_null s")
  case False
  with assms(2) have "s' = s" by (simp add: migrate_nullable_delivery_binding_def)
  with False show ?thesis by (rule that(1))
next
  case True
  then obtain t where t: "find_table s ''deliveries'' = Some t" using binding_not_null_table by blast
  show ?thesis
  proof (cases "legacy_free s")
    case free: True
    with t assms(1) have ready: "rebuild_ready (unguarded s)"
      by (simp add: rebuild_ready_def legacy_free_def idle_def)
    from assms(2) t show ?thesis
      using that(2)[OF t] unfolding nullable_eq[OF assms(1) True] rebuild_outcome[OF ready, simplified, OF t]
      by (auto simp: guards_back[OF assms(1)] True split: if_splits sum.splits prod.splits)
  next
    case False
    with t have "rename_table ''deliveries'' LEGACY_NAME (unguarded s) =
        (Inl (OperationalError ''there is already another table or index with this name''), unguarded s)"
      by (auto simp: rename_table_def legacy_free_def)
    with assms(2) show ?thesis
      unfolding nullable_eq[OF assms(1) True] by (simp add: with_connection_def rebuild_deliveries_def)
  qed
qed

lemma nullable_failed:
  assumes "idle s" "legacy_free s" "migrate_nullable_delivery_binding s = (Inl e, s')"
  shows "\<exists>t. find_table s ''deliveries'' = Some t \<and> s' = stranded s"
proof -
  from assms(3) have nn: "binding_not_null s"
    by (auto simp: migrate_nullable_delivery_binding_def split: if_splits)
  then obtain t where t: "find_table s ''deliveries'' = Some t" using binding_not_null_table by blast
  with assms(1,2) have ready: "rebuild_ready (unguarded s)"
    by (simp add: rebuild_ready_def legacy_free_def idle_def)
  from assms(3) t show ?thesis
    unfolding nullable_eq[OF assms(1) nn] rebuild_outcome[OF ready, simplified, OF t]
    by (auto simp: guards_back[OF assms(1)] split: if_splits sum.splits prod.splits)
qed

section \<open>Opening a store\<close>

abbreviation startup_script :: "ddl list" where
  "startup_script \<equiv> schema_script @ column_script"

lemma startup_script_wf: "list_all ddl_wf startup_script"
  by code_simp

lemma startup_columns: "EnsureColumn n c \<in> set startup_script \<Longrightarrow> n \<noteq> ''deliveries''"
  by (auto simp: schema_script_def column_script_def)

lemma startup_table: "CreateTable deliveries_table \<in> set startup_script"
  by (simp add: schema_script_def)

lemma exec_ddl_untouched:
  assumes "exec_ddl d s = (r, s')" "\<And>c. d \<noteq> EnsureColumn n c" "find_table s n = Some t"
  shows "find_table s' n = Some t"
proof (cases d)
  case (EnsureColumn m c)
  with assms have "m \<noteq> n" by auto
  with assms(1,3) EnsureColumn show ?thesis
    by (auto simp: ensure_column_def add_column_def find_table_update split: if_splits option.splits)
qed (use assms in \<open>auto simp: create_table_if_not_exists_def create_table_def find_table_def fetchone_append
      create_unique_index_if_not_exists_def Let_def split: if_splits option.splits\<close>)

lemma script_untouched:
  assumes "run_each (map exec_ddl ds) s = (r, s')" "\<And>c. EnsureColumn n c \<notin> set ds" "find_table s n = Some t"
  shows "find_table s' n = Some t"
  using assms
proof (induction ds arbitrary: s)
  case (Cons d ds)
  obtain q u where u: "exec_ddl d s = (q, u)" by fastforce
  from exec_ddl_untouched[OF u _ Cons.prems(3)] Cons.prems(2) have "find_table u n = Some t" by fastforce
  with Cons.IH[of u] Cons.prems(1,2) u show ?case by (auto split: sum.splits)
qed simp

lemma rebuilt_flags [simp]:
  "sq_indexes (rebuilt t s) = sq_indexes s" "idle (rebuilt t s) = idle s"
  "sq_indexes (stranded s) = sq_indexes s" "idle (stranded s) = idle s"
  by (simp_all add: rebuilt_def stranded_def idle_def)

lemma goal_rebuilt:
  assumes "tb_name t = ''deliveries''" "ddl_goal d s" "d \<in> set startup_script"
  shows "ddl_goal d (rebuilt t s)"
proof (cases d)
  case (EnsureColumn n c)
  with assms startup_columns show ?thesis by (auto simp: table_info_def tables_rebuilt)
qed (use assms in \<open>auto simp: tables_rebuilt\<close>)

lemma goal_stranded:
  assumes "find_table s LEGACY_NAME = None" "ddl_goal d s" "d \<in> set startup_script"
  shows "ddl_goal d (stranded s)"
proof (cases d)
  case (EnsureColumn n c)
  with assms startup_columns show ?thesis by (auto simp: table_info_def tables_stranded)
qed (use assms in \<open>auto simp: tables_stranded\<close>)

lemma new_deliveries_nullable:
  "find_table s ''deliveries'' = Some (deliveries_table\<lparr>tb_rows := rs\<rparr>) \<Longrightarrow> \<not> binding_not_null s"
  by (simp add: binding_not_null_def table_info_def deliveries_table_def table_def_def text_column_def text_not_null_def)

lemma migrate_settled:
  assumes "idle s" "\<forall>d \<in> set startup_script. ddl_goal d s" "\<not> binding_not_null s"
  shows "migrate s = (Inr (), s)"
proof -
  from startup.script_skip[of startup_script s] assms(2)
  have "run_each (map exec_ddl startup_script) s = (Inr (), s)" by blast
  with assms show ?thesis by (simp add: migrate_def idle_def migrate_nullable_delivery_binding_def)
qed

lemma migrate_split:
  assumes "idle s" "run_each (map exec_ddl startup_script) s = (Inr u, s1)"
  shows "migrate s = migrate_nullable_delivery_binding s1" "idle s1" "db_extends s s1"
    "\<forall>d \<in> set startup_script. ddl_goal d s1"
    "find_table s ''deliveries'' = Some t \<Longrightarrow> find_table s1 ''deliveries'' = Some t"
proof -
  show ext: "db_extends s s1" using startup.script_le[OF startup_script_wf assms(2)] .
  with assms(1) show idle: "idle s1" by (simp add: db_extends_def idle_def)
  with assms show "migrate s = migrate_nullable_delivery_binding s1" by (simp add: migrate_def idle_def)
  show "\<forall>d \<in> set startup_script. ddl_goal d s1"
    using startup.script_goals[OF startup_script_wf assms(2)] by blast
  show "find_table s ''deliveries'' = Some t \<Longrightarrow> find_table s1 ''deliveries'' = Some t"
    using script_untouched[OF assms(2)] startup_columns by blast
qed

text \<open>The table of deliveries before broadcasts, whose binding column did not allow NULL.\<close>

definition legacy_deliveries :: "sqlval list list \<Rightarrow> sqltable" where
  "legacy_deliveries rows = deliveries_table
     \<lparr>tb_columns := map (\<lambda>c. if co_name c = ''binding_id'' then c\<lparr>co_notnull := True\<rparr> else c) (tb_columns deliveries_table),
      tb_rows := rows\<rparr>"

text \<open>A store of an earlier version with one delivery and a room member of a room that does not exist.\<close>

definition sample_row :: "sqlval list" where
  "sample_row = map Text [''d1'', ''e1'', ''a1'', ''b1'', ''alice'', ''session-bound'', ''queued''] @ [Null]"

definition connected :: "sqltable list \<Rightarrow> database" where
  "connected ts = \<lparr>sq_tables = ts, sq_indexes = [], sq_foreign_keys = True, sq_legacy_alter = False, sq_saved = None\<rparr>"

definition broken_store :: database where
  "broken_store = connected [legacy_deliveries [sample_row],
     room_members_table\<lparr>tb_rows := [[Text ''r1'', Text ''alice'', Integer 0]]\<rparr>]"

text \<open>What a migration that returns did. Tables other than the deliveries keep their keys, their references and every
  value under its column. The deliveries are untouched, or were the table whose binding is NOT NULL and are now the
  current one with the eight columns it declares. A second start changes nothing.\<close>

lemma migrate_outcome:
  assumes "wf_tables s" "idle s" "migrate s = (Inr u, s')"
  shows "(\<forall>n t. find_table s n = Some t \<and> n \<noteq> ''deliveries'' \<longrightarrow>
            (\<exists>t'. find_table s' n = Some t' \<and> tb_keys t' = tb_keys t \<and> tb_refs t' = tb_refs t \<and>
              (\<forall>cs. set cs \<subseteq> set (column_names t) \<longrightarrow> select t' cs = select t cs)))
    \<and> (\<forall>t. find_table s ''deliveries'' = Some t \<longrightarrow>
            find_table s' ''deliveries'' = Some t
            \<or> binding_not_null s \<and> find_table s' ''deliveries'' = Some (deliveries_table\<lparr>tb_rows := copied t\<rparr>))
    \<and> (\<forall>d \<in> set (schema_script @ column_script). ddl_goal d s') \<and> \<not> binding_not_null s' \<and> idle s'
    \<and> migrate s' = (Inr (), s')"
proof -
  from assms(2,3) obtain s1 where s1: "run_each (map exec_ddl startup_script) s = (Inr (), s1)"
    by (auto simp: migrate_def idle_def split: prod.splits sum.splits)
  note m = migrate_split[OF assms(2) s1]
  have other: "\<exists>t'. find_table s1 n = Some t' \<and> tb_keys t' = tb_keys t \<and> tb_refs t' = tb_refs t \<and>
      (\<forall>cs. set cs \<subseteq> set (column_names t) \<longrightarrow> select t' cs = select t cs)" if t: "find_table s n = Some t" for n t
  proof -
    from m(3) t obtain t' where t': "find_table s1 n = Some t'" "extends t t'" by (rule db_extendsD)
    from assms(1) find_table_SomeD[OF t] have "wf_table t" by (auto simp: wf_tables_def)
    with t' select_extend[of t t'] show ?thesis by (auto simp: extends_def)
  qed
  from m(2) assms(3)[unfolded m(1)] show ?thesis
  proof (cases rule: nullable_done)
    case kept
    with m(2,4,5) other migrate_settled[OF m(2,4)] show ?thesis by blast
  next
    case (copied t t')
    then have t': "t' = deliveries_table\<lparr>tb_rows := copied t\<rparr>" "tb_name t' = ''deliveries''"
      using try_each_insert[OF copied(2)] by (simp_all add: deliveries_table_facts)
    have tabs: "find_table s' n = (if n = ''deliveries'' then Some t' else find_table s1 n)" for n
      using tables_rebuilt[OF t'(2)] copied(3) by simp
    have goals: "\<forall>d \<in> set startup_script. ddl_goal d s'" using goal_rebuilt[OF t'(2)] m(4) copied(3) by blast
    have idle': "idle s'" using m(2) copied(3) by simp
    have nn: "\<not> binding_not_null s'" using new_deliveries_nullable[of s'] tabs t'(1) by simp
    have "binding_not_null s \<and> find_table s' ''deliveries'' = Some (deliveries_table\<lparr>tb_rows := copied t0\<rparr>)"
      if "find_table s ''deliveries'' = Some t0" for t0
      using m(5)[OF that] copied(1,4) tabs t'(1) that by (simp add: binding_not_null_def table_info_def)
    with other tabs goals idle' nn migrate_settled[OF idle' goals nn] show ?thesis by simp
  qed
qed

text \<open>C38: A rebuild that fails leaves an empty table of deliveries: the old rows stay in the renamed table,
  since the renaming took effect before the transaction was opened. The next start takes the
  store for migrated and leaves them there. After the start-up script, which returned, the store has no table and
  no index with the name of the renamed table; otherwise the renaming itself is refused.\<close>

theorem failed_rebuild_strands_deliveries:
  assumes "idle s" "find_table s ''deliveries'' = Some t"
    and "run_each (map exec_ddl (schema_script @ column_script)) s = (Inr u, s1)" "legacy_free s1"
    and "migrate s = (Inl e, s')"
  shows "find_table s' ''deliveries'' = Some deliveries_table \<and> tb_rows deliveries_table = []
    \<and> find_table s' LEGACY_NAME = Some (t\<lparr>tb_name := LEGACY_NAME\<rparr>) \<and> migrate s' = (Inr (), s')"
proof -
  note m = migrate_split[OF assms(1,3)]
  from nullable_failed[OF m(2) assms(4)] assms(5) m(1) have s': "s' = stranded s1" by auto
  have free: "find_table s1 LEGACY_NAME = None" using assms(4) by (simp add: legacy_free_def)
  have tabs: "find_table s' ''deliveries'' = Some deliveries_table"
    "find_table s' LEGACY_NAME = Some (t\<lparr>tb_name := LEGACY_NAME\<rparr>)"
    using tables_stranded[OF free] m(5)[OF assms(2)] find_table_SomeD[OF assms(2)]
    by (simp_all add: s' deliveries_table_facts rename_deliveries_def)
  have "\<not> binding_not_null s'" using new_deliveries_nullable[of s' "[]"] tabs(1) by (simp add: deliveries_table_facts)
  moreover have "\<forall>d \<in> set startup_script. ddl_goal d s'" using goal_stranded[OF free] m(4) s' by blast
  moreover have "idle s'" using m(2) s' by simp
  ultimately have "migrate s' = (Inr (), s')" using migrate_settled by blast
  with tabs show ?thesis by (simp add: deliveries_table_facts)
qed

text \<open>Witness of C38: the delivery of the broken store is stranded.\<close>

theorem failed_rebuild_strands_deliveries_witness:
  "\<exists>e s'. migrate broken_store = (Inl e, s') \<and> find_table s' ''deliveries'' = Some deliveries_table
     \<and> find_table s' LEGACY_NAME = Some ((legacy_deliveries [sample_row])\<lparr>tb_name := LEGACY_NAME\<rparr>)
     \<and> migrate s' = (Inr (), s')"
proof -
  let ?e = "RuntimeError ''delivery binding migration broke foreign-key integrity''"
  let ?run = "run_each (map exec_ddl (schema_script @ column_script)) broken_store"
  have "idle broken_store" "find_table broken_store ''deliveries'' = Some (legacy_deliveries [sample_row])"
    "fst ?run = Inr ()" "legacy_free (snd ?run)" "fst (migrate broken_store) = Inl ?e"
    by code_simp+
  moreover from this(3,5) have "?run = (Inr (), snd ?run)" "migrate broken_store = (Inl ?e, snd (migrate broken_store))"
    by (simp_all add: prod_eq_iff)
  ultimately show ?thesis
    using failed_rebuild_strands_deliveries[of broken_store "legacy_deliveries [sample_row]" "()" "snd ?run" ?e
        "snd (migrate broken_store)"] by blast
qed

section \<open>A sound legacy store is migrated\<close>

lemma legacy_deliveries_facts:
  "column_names (legacy_deliveries rows) = DELIVERY_COLUMNS" "tb_keys (legacy_deliveries rows) = tb_keys deliveries_table"
  "tb_refs (legacy_deliveries rows) = []" "tb_rows (legacy_deliveries rows) = rows"
  "tb_name (legacy_deliveries rows) = ''deliveries''"
  by (simp_all add: legacy_deliveries_def column_names_def deliveries_table_facts(4,8)
      deliveries_table_facts(10)[symmetric])

lemma row_value_cong: "column_names t = column_names u \<Longrightarrow> row_value t = row_value u"
  by (simp add: fun_eq_iff row_value_def)

lemma select_all_columns:
  assumes "wf_table t"
  shows "select t (column_names t) = tb_rows t"
proof -
  have "map (row_value t r) (column_names t) = r" if "r \<in> set (tb_rows t)" for r
  proof (rule nth_equalityI)
    fix i assume i: "i < length (map (row_value t r) (column_names t))"
    from assms that have len: "length (column_names t) = length r" "distinct (column_names t)"
      by (auto simp: wf_table_def column_names_def)
    with i have "map_of (zip (column_names t) r) (column_names t ! i) = Some (r ! i)"
      by (intro map_of_zip_nth) auto
    with i show "map (row_value t r) (column_names t) ! i = r ! i" by (simp add: row_value_def)
  qed (use assms that in \<open>auto simp: wf_table_def column_names_def\<close>)
  then show ?thesis by (auto simp: select_def intro: map_idI)
qed

text \<open>Every row that the old table took, the new one takes.\<close>

lemma not_null_relaxed:
  "list_all (\<lambda>c. co_notnull c \<longrightarrow> v (co_name c) \<noteq> Null)
     (map (\<lambda>c. if co_name c = b then c\<lparr>co_notnull := True\<rparr> else c) cs) \<Longrightarrow>
   list_all (\<lambda>c. co_notnull c \<longrightarrow> v (co_name c) \<noteq> Null) cs"
  by (induction cs) (auto split: if_splits)

lemma legacy_row_ok:
  assumes "row_ok (legacy_deliveries xs) r"
  shows "row_ok (deliveries_table\<lparr>tb_rows := xs\<rparr>) r"
proof -
  let ?l = "legacy_deliveries xs" and ?n = "deliveries_table\<lparr>tb_rows := xs\<rparr>"
  have rv: "row_value ?l = row_value ?n"
    by (rule row_value_cong) (simp add: legacy_deliveries_def column_names_def)
  then have "key_free ?l r = key_free ?n r" by (intro ext) (simp add: key_free_def legacy_deliveries_facts)
  with assms rv have "list_all (\<lambda>c. co_notnull c \<longrightarrow> row_value ?n r (co_name c) \<noteq> Null) (tb_columns ?l)"
    "list_all (check_holds (row_value ?n r)) (tb_checks ?n)" "list_all (key_free ?n r) (tb_keys ?n)"
    by (simp_all add: row_ok_def) (simp_all add: legacy_deliveries_def)
  with not_null_relaxed show ?thesis by (simp add: row_ok_def legacy_deliveries_def)
qed

lemma legacy_rows_copy:
  "try_each insert_sql_row (legacy_deliveries xs) rs = Inr t \<Longrightarrow>
   try_each insert_sql_row (deliveries_table\<lparr>tb_rows := xs\<rparr>) rs = Inr (deliveries_table\<lparr>tb_rows := xs @ rs\<rparr>)"
proof (induction rs arbitrary: xs)
  case (Cons r rs)
  then have ok: "row_ok (legacy_deliveries xs) r"
    and rest: "try_each insert_sql_row (legacy_deliveries (xs @ [r])) rs = Inr t"
    by (auto simp: insert_sql_row_def[of _ r] legacy_deliveries_def split: if_splits)
  with Cons.IH[OF rest] legacy_row_ok[OF ok] show ?case by (simp add: insert_sql_row_def[of _ r])
qed simp

text \<open>Replacing a table by one with the same keys and the same values changes no reference.\<close>

lemma foreign_key_check_rebuilt:
  assumes "find_table s ''deliveries'' = Some t" "wf_tables s" "tb_name t' = ''deliveries''"
    and same: "tb_keys t' = tb_keys t" "\<And>cs. select t' cs = select t cs" "tb_refs t = []" "tb_refs t' = []"
    and "foreign_key_check s = Inr []"
  shows "foreign_key_check (rebuilt t' s) = Inr []"
proof -
  have parents: "parent_has (rebuilt t' s) = parent_has s" "ref_mismatch (rebuilt t' s) = ref_mismatch s"
    using assms(1) same
    by (auto simp: fun_eq_iff parent_has_def ref_mismatch_def tables_rebuilt[OF assms(3)])
  then have "broken_refs (rebuilt t' s) = broken_refs s" by (simp add: fun_eq_iff broken_refs_def)
  moreover have "broken_refs s t' = []" using same by (simp add: broken_refs_def concat_eq_Nil_conv)
  ultimately show ?thesis
    using assms(8) same(4) parents unfolding foreign_key_check_def
    by (auto simp: rebuilt_def list_ex_iff split: if_splits)
qed

lemma legacy_copied:
  assumes "wf_table (legacy_deliveries rows)" "\<forall>r \<in> set rows. \<forall>v \<in> set r. store_as TEXT v = v"
  shows "copied (legacy_deliveries rows) = rows"
proof -
  from select_all_columns[OF assms(1)] have "select (legacy_deliveries rows) DELIVERY_COLUMNS = rows"
    by (simp add: legacy_deliveries_facts)
  with assms(2) show ?thesis by (auto simp: copied_def intro!: map_idI)
qed

lemma legacy_select: "select (deliveries_table\<lparr>tb_rows := rows\<rparr>) cs = select (legacy_deliveries rows) cs"
proof -
  have "row_value (deliveries_table\<lparr>tb_rows := rows\<rparr>) = row_value (legacy_deliveries rows)"
    by (rule row_value_cong) (simp add: legacy_deliveries_def column_names_def)
  then show ?thesis by (simp add: select_def legacy_deliveries_facts)
qed

text \<open>After the start-up script, a legacy table whose rows satisfied its constraints and hold text is copied row by
  row, when every reference in the store is sound.\<close>

lemma legacy_rebuild:
  assumes "wf_tables s1" "idle s" "run_each (map exec_ddl (schema_script @ column_script)) s = (Inr u, s1)"
    and "legacy_free s1" "foreign_key_check s1 = Inr []"
    and "find_table s ''deliveries'' = Some (legacy_deliveries rows)"
    and "try_each insert_sql_row (legacy_deliveries []) rows = Inr (legacy_deliveries rows)"
    and "\<forall>r \<in> set rows. \<forall>v \<in> set r. store_as TEXT v = v"
  shows "migrate s = (Inr (), rebuilt (deliveries_table\<lparr>tb_rows := rows\<rparr>) s1)"
proof -
  let ?t = "legacy_deliveries rows" and ?t' = "deliveries_table\<lparr>tb_rows := rows\<rparr>"
  note m = migrate_split[OF assms(2,3)]
  have t: "find_table s1 ''deliveries'' = Some ?t" using m(5) assms(6) by blast
  have nn: "binding_not_null s1"
    by (simp add: binding_not_null_def table_info_def t legacy_deliveries_def deliveries_table_def table_def_def
        text_column_def text_not_null_def)
  have "wf_table ?t" using assms(1) find_table_SomeD[OF t] by (auto simp: wf_tables_def)
  from legacy_copied[OF this assms(8)] have copied: "copied ?t = rows" .
  have copy: "try_each insert_sql_row deliveries_table rows = Inr ?t'"
    using legacy_rows_copy[OF assms(7)] by (simp add: deliveries_table_def table_def_def)
  have "row_value ?t' = row_value ?t"
    by (rule row_value_cong) (simp add: legacy_deliveries_def column_names_def)
  then have "foreign_key_check (rebuilt ?t' s1) = Inr []"
    using foreign_key_check_rebuilt[OF t assms(1), of ?t'] assms(5)
    by (simp add: legacy_deliveries_facts deliveries_table_facts select_def)
  then have check: "check_integrity (rebuilt ?t' (unguarded s1)) = (Inr (), rebuilt ?t' (unguarded s1))"
    by (simp add: check_integrity_def)
  have ready: "rebuild_ready (unguarded s1)"
    using m(2) assms(4) t by (simp add: rebuild_ready_def legacy_free_def idle_def)
  show ?thesis
    unfolding m(1) nullable_eq[OF m(2) nn] rebuild_outcome[OF ready, simplified, OF t]
    by (simp add: legacy_deliveries_facts copied copy check guards_back[OF m(2)])
qed

end
