(* ===== verification/Core_Migration_Versions.thy ===== *)
theory Core_Migration_Versions
  imports Core_Migration_Facts
begin

text \<open>
  The migration on the stores it was written for: databases of earlier versions, whose tables are those of the
  current schema, perhaps without the columns added later and perhaps with the old table of deliveries. For
  them a start reaches the current schema and keeps every value, and it returns when the content is sound.
\<close>

section \<open>Stores of earlier versions\<close>

definition schema_tables :: "sqltable list" where
  "schema_tables =
     [deliveries_table, providers_table, provider_evidence_table, principal_bindings_table, platform_message_bindings_table,
      receipts_table, session_bindings_table, binding_proof_methods_table, audit_log_table, receipt_rejections_table,
      rooms_table, room_members_table, canonical_events_table, broadcasts_table, broadcast_recipients_table,
      broadcast_audit_table]"

text \<open>The columns that an earlier version did not have, by table.\<close>

definition later_columns :: "(string \<times> column) list" where
  "later_columns =
     [(''providers'', (text_not_null ''health'')\<lparr>co_default := Text ''healthy''\<rparr>), (''receipts'', text_column ''session_id''),
      (''receipts'', text_column ''marker_signature''),
      (''receipts'', (text_not_null ''source_event_chain'')\<lparr>co_default := Text ''[]''\<rparr>), (''receipts'', text_column ''turn_id'')]"

text \<open>A table with the constraints of the schema and its columns, up to those that came later.\<close>

definition same_constraints :: "sqltable \<Rightarrow> sqltable \<Rightarrow> bool" where
  "same_constraints T t \<longleftrightarrow>
     tb_name t = tb_name T \<and> tb_keys t = tb_keys T \<and> tb_checks t = tb_checks T \<and> tb_refs t = tb_refs T"

definition same_schema :: "sqltable \<Rightarrow> sqltable \<Rightarrow> bool" where
  "same_schema T t \<longleftrightarrow> same_constraints T t \<and> set (tb_columns t) = set (tb_columns T)"

definition earlier_form :: "sqltable \<Rightarrow> sqltable \<Rightarrow> bool" where
  "earlier_form T t \<longleftrightarrow>
     same_constraints T t \<and> set (tb_columns t) \<subseteq> set (tb_columns T) \<and>
     (\<forall>c \<in> set (tb_columns T). c \<in> set (tb_columns t) \<or> (tb_name T, c) \<in> set later_columns)"

definition known_table :: "sqltable \<Rightarrow> bool" where
  "known_table t \<longleftrightarrow> (\<exists>T \<in> set schema_tables. earlier_form T t) \<or> t = legacy_deliveries (tb_rows t)"

definition earlier_version :: "database \<Rightarrow> bool" where
  "earlier_version s \<longleftrightarrow> (\<forall>t \<in> set (sq_tables s). known_table t) \<and> set (sq_indexes s) \<subseteq> {ACTIVE_INDEX}"

text \<open>The condition of the unique index: no recipient has two active bindings.\<close>

definition one_active_binding :: "database \<Rightarrow> bool" where
  "one_active_binding s \<longleftrightarrow>
     (case find_table s ''session_bindings'' of
        None \<Rightarrow> True
      | Some t \<Rightarrow> distinct (map (\<lambda>r. row_value t r ''recipient_id'')
          (filter (\<lambda>r. row_value t r ''state'' = Text ''active'' \<and> row_value t r ''recipient_id'' \<noteq> Null) (tb_rows t))))"

section \<open>Facts on the schema\<close>

text \<open>The start-up script adds each of the later columns.\<close>

lemma column_script_later: "EnsureColumn n c \<in> set column_script \<longleftrightarrow> (n, c) \<in> set later_columns"
  by (simp add: column_script_def later_columns_def health_column_def chain_column_def)

lemma earlier_form_script:
  "earlier_form T t \<longleftrightarrow>
     same_constraints T t \<and> set (tb_columns t) \<subseteq> set (tb_columns T) \<and>
     (\<forall>c \<in> set (tb_columns T). c \<in> set (tb_columns t) \<or> EnsureColumn (tb_name T) c \<in> set column_script)"
  by (simp add: earlier_form_def column_script_later)

lemma schema_tables_iff: "CreateTable t \<in> set startup_script \<longleftrightarrow> t \<in> set schema_tables"
  by (simp add: schema_tables_def schema_script_def column_script_def)

lemma schema_names: "distinct (map tb_name schema_tables)" "LEGACY_NAME \<notin> tb_name ` set schema_tables"
  "ACTIVE_INDEX \<noteq> LEGACY_NAME" "deliveries_table \<in> set schema_tables" "session_bindings_table \<in> set schema_tables"
  "tb_name session_bindings_table = ''session_bindings''"
  by code_simp+

lemma schema_wf: "T \<in> set schema_tables \<Longrightarrow> distinct (column_names T) \<and> tb_rows T = []"
proof -
  have "list_all (\<lambda>T. distinct (column_names T) \<and> tb_rows T = []) schema_tables" by code_simp
  then show "T \<in> set schema_tables \<Longrightarrow> distinct (column_names T) \<and> tb_rows T = []" by (simp add: list_all_iff)
qed

text \<open>A column that is added later is one of its table, has a default if it is NOT NULL, and is no reference.\<close>

fun column_step_ok :: "ddl \<Rightarrow> bool" where
  "column_step_ok (EnsureColumn n c) \<longleftrightarrow>
     list_ex (\<lambda>T. tb_name T = n \<and> c \<in> set (tb_columns T)) schema_tables \<and> (co_notnull c \<longrightarrow> co_default c \<noteq> Null)"
| "column_step_ok _ \<longleftrightarrow> False"

lemma column_script_ok: "list_all column_step_ok column_script"
  by code_simp

lemma column_stepD:
  assumes "EnsureColumn n c \<in> set column_script"
  shows "\<exists>T \<in> set schema_tables. tb_name T = n \<and> c \<in> set (tb_columns T)" "co_notnull c \<Longrightarrow> co_default c \<noteq> Null"
proof -
  from assms column_script_ok have "column_step_ok (EnsureColumn n c)" unfolding list_all_iff by blast
  then show "\<exists>T \<in> set schema_tables. tb_name T = n \<and> c \<in> set (tb_columns T)" "co_notnull c \<Longrightarrow> co_default c \<noteq> Null"
    by (auto simp: list_ex_iff)
qed

definition reference_ok :: "sqltable \<Rightarrow> string \<times> string \<times> string \<Rightarrow> bool" where
  "reference_ok T ref \<longleftrightarrow>
     (case ref of (c, p, pc) \<Rightarrow>
        list_ex (\<lambda>k. co_name k = c \<and> EnsureColumn (tb_name T) k \<notin> set column_script) (tb_columns T) \<and>
        list_ex (\<lambda>P. tb_name P = p \<and> [pc] \<in> set (tb_keys P)) schema_tables)"

lemma schema_references: "list_all (\<lambda>T. list_all (reference_ok T) (tb_refs T)) schema_tables"
  by code_simp

lemma schema_unique:
  "T \<in> set schema_tables \<Longrightarrow> U \<in> set schema_tables \<Longrightarrow> tb_name T = tb_name U \<Longrightarrow> T = U"
  using schema_names(1) by (auto simp: distinct_map dest: inj_onD)

lemma earlier_form_column:
  "earlier_form T t \<Longrightarrow> k \<in> set (tb_columns T) \<Longrightarrow> EnsureColumn (tb_name T) k \<notin> set column_script \<Longrightarrow>
   co_name k \<in> set (column_names t)"
  by (auto simp: earlier_form_script column_names_def)

lemma known_tableE:
  assumes "known_table t"
  obtains (form) T where "T \<in> set schema_tables" "earlier_form T t" | (legacy) rows where "t = legacy_deliveries rows"
  using assms unfolding known_table_def by blast

text \<open>The constraints of a known table are those of the schema, by its name.\<close>

lemma known_schema:
  assumes "known_table t"
  shows "\<exists>T \<in> set schema_tables. same_constraints T t"
  using assms
proof (cases rule: known_tableE)
  case (form T)
  then show ?thesis by (auto simp: earlier_form_script)
next
  case (legacy rows)
  have "same_constraints deliveries_table t" by (simp add: legacy same_constraints_def legacy_deliveries_def)
  with schema_names(4) show ?thesis by blast
qed

lemma known_constraints:
  assumes "known_table t" "T \<in> set schema_tables" "tb_name t = tb_name T"
  shows "same_constraints T t"
proof -
  from known_schema[OF assms(1)] obtain U where "U \<in> set schema_tables" "same_constraints U t" by blast
  with assms(2,3) schema_unique[of U T] show ?thesis by (simp add: same_constraints_def)
qed

lemma known_form:
  assumes "known_table t" "T \<in> set schema_tables" "tb_name t = tb_name T" "tb_name t \<noteq> ''deliveries''"
  shows "earlier_form T t"
  using assms(1)
proof (cases rule: known_tableE)
  case (form U)
  with assms(2,3) schema_unique[of U T] show ?thesis by (simp add: earlier_form_script same_constraints_def)
next
  case (legacy rows)
  with assms(4) show ?thesis by (simp add: legacy_deliveries_facts)
qed

section \<open>The start-up script on such a store\<close>

lemma earlier_tableD: "earlier_version s \<Longrightarrow> find_table s n = Some t \<Longrightarrow> known_table t"
  using find_table_SomeD by (fastforce simp: earlier_version_def)

lemma earlier_legacy_free: "earlier_version s \<Longrightarrow> legacy_free s"
proof -
  assume s: "earlier_version s"
  have "tb_name t \<noteq> LEGACY_NAME" if t: "t \<in> set (sq_tables s)" for t
  proof -
    from s t have "known_table t" by (simp add: earlier_version_def)
    from known_schema[OF this] show ?thesis using schema_names(2) by (auto simp: same_constraints_def)
  qed
  then have "find_table s LEGACY_NAME = None" unfolding find_table_None_iff by (metis imageE)
  with s schema_names(3) show ?thesis by (auto simp: legacy_free_def earlier_version_def)
qed

lemma create_earlier:
  assumes "earlier_version s" "T \<in> set schema_tables" "create_table_if_not_exists T s = (r, s')"
  shows "earlier_version s'"
proof -
  have "earlier_form T T" by (simp add: earlier_form_script same_constraints_def)
  with assms(2) have "known_table T" by (auto simp: known_table_def)
  with assms(1,3) show ?thesis
    by (auto simp: create_table_if_not_exists_def create_table_def earlier_version_def split: if_splits)
qed

lemma index_earlier:
  assumes "earlier_version s" "exec_ddl CreateActiveIndex s = (r, s')"
  shows "earlier_version s'"
  using assms
  by (auto simp: earlier_version_def create_unique_index_if_not_exists_def Let_def split: if_splits option.splits)

lemma column_earlier:
  assumes s: "earlier_version s" and step: "EnsureColumn n c \<in> set column_script" and run: "ensure_column n c s = (r, s')"
  shows "earlier_version s'"
proof -
  let ?f = "\<lambda>t. t\<lparr>tb_columns := tb_columns t @ [c], tb_rows := map (\<lambda>r. r @ [co_default c]) (tb_rows t)\<rparr>"
  from column_stepD[OF step] obtain T where T: "T \<in> set schema_tables" "tb_name T = n" "c \<in> set (tb_columns T)"
    by blast
  have n: "n \<noteq> ''deliveries''" using startup_columns[of n c] step by simp
  have known: "known_table (?f u)" if "u \<in> set (sq_tables s)" "tb_name u = n" for u
  proof -
    from s that(1) have "known_table u" by (simp add: earlier_version_def)
    with known_form[OF this T(1)] T(2) that(2) n have "earlier_form T u" by simp
    with T(3) have "earlier_form T (?f u)" by (auto simp: earlier_form_script same_constraints_def)
    with T(1) show ?thesis by (auto simp: known_table_def)
  qed
  have "s' = s \<or> s' = s\<lparr>sq_tables := update_where (\<lambda>t. tb_name t = n) ?f (sq_tables s)\<rparr>"
    using run by (auto simp: ensure_column_def add_column_def split: if_splits option.splits)
  then show ?thesis
  proof
    assume s': "s' = s\<lparr>sq_tables := update_where (\<lambda>t. tb_name t = n) ?f (sq_tables s)\<rparr>"
    have "known_table t" if "t \<in> set (sq_tables s')" for t
      using that known s by (auto simp: s' earlier_version_def dest!: set_update_whereD split: if_splits)
    with s show ?thesis by (simp add: earlier_version_def s')
  qed (use s in simp)
qed

lemma script_earlier:
  assumes "earlier_version s" "set ds \<subseteq> set startup_script" "run_each (map exec_ddl ds) s = (r, s')"
  shows "earlier_version s'"
  using assms
proof (induction ds arbitrary: s)
  case (Cons d ds)
  obtain q u where u: "exec_ddl d s = (q, u)" by fastforce
  have d: "d \<in> set startup_script" using Cons.prems(2) by simp
  have "earlier_version u"
  proof (cases d)
    case (CreateTable T)
    with d u Cons.prems(1) create_earlier schema_tables_iff show ?thesis by simp
  next
    case CreateActiveIndex
    with u Cons.prems(1) index_earlier show ?thesis by simp
  next
    case (EnsureColumn n c)
    with d have "EnsureColumn n c \<in> set column_script" by (auto simp: schema_script_def)
    with EnsureColumn u Cons.prems(1) column_earlier show ?thesis by simp
  qed
  with Cons.IH[of u] Cons.prems(2,3) u show ?case by (auto split: sum.splits)
qed simp

section \<open>The script returns\<close>

lemma run_each_append:
  "run_each (xs @ ys) s = (case run_each xs s of (Inl e, s') \<Rightarrow> (Inl e, s') | (Inr _, s') \<Rightarrow> run_each ys s')"
  by (induction xs arbitrary: s) (auto split: prod.splits sum.splits)

lemma creates_return:
  "list_all (\<lambda>d. \<exists>T. d = CreateTable T) ds \<Longrightarrow> \<exists>s'. run_each (map exec_ddl ds) s = (Inr (), s')"
  by (induction ds arbitrary: s) (auto simp: create_table_if_not_exists_def create_table_def)

lemma columns_return:
  assumes "set ds \<subseteq> set column_script" "\<forall>T \<in> set schema_tables. find_table s (tb_name T) \<noteq> None"
  shows "\<exists>s'. run_each (map exec_ddl ds) s = (Inr (), s')"
  using assms
proof (induction ds arbitrary: s)
  case (Cons d ds)
  from Cons.prems(1) column_script_ok have "column_step_ok d" by (auto simp: list_all_iff)
  then obtain n c where d: "d = EnsureColumn n c" by (cases d) auto
  with Cons.prems(1) have step: "EnsureColumn n c \<in> set column_script" by simp
  from column_stepD(1)[OF step] Cons.prems(2) obtain t where "find_table s n = Some t" by blast
  with column_stepD(2)[OF step] have "\<exists>u. ensure_column n c s = (Inr (), u)"
    by (cases "co_name c \<in> co_name ` set (tb_columns t)")
      (auto simp: ensure_column_def add_column_def table_info_def column_names_def)
  then obtain u where u: "ensure_column n c s = (Inr (), u)" ..
  have "\<exists>t. find_table u m = Some t" if "find_table s m = Some t" for m t
    using ensure_column_le[OF u] that by (auto elim: db_extendsD)
  with Cons.prems(2) have "\<forall>T \<in> set schema_tables. find_table u (tb_name T) \<noteq> None" by blast
  with Cons.IH[of u] Cons.prems(1) u d show ?case by auto
qed simp

lemma create_active:
  assumes "one_active_binding s" "tb_rows T = []" "create_table_if_not_exists T s = (r, s')"
  shows "one_active_binding s'"
  using assms
  by (auto simp: one_active_binding_def create_table_if_not_exists_def create_table_def find_table_def fetchone_append
      split: option.splits if_splits)

lemma creates_active:
  assumes "one_active_binding s" "set ds \<subseteq> CreateTable ` set schema_tables" "run_each (map exec_ddl ds) s = (r, s')"
  shows "one_active_binding s'"
  using assms
proof (induction ds arbitrary: s)
  case (Cons d ds)
  then obtain T where T: "d = CreateTable T" "T \<in> set schema_tables" by auto
  obtain q u where u: "create_table_if_not_exists T s = (q, u)" by fastforce
  with create_active[OF Cons.prems(1)] schema_wf[OF T(2)] have "one_active_binding u" by blast
  with Cons.IH[of u] Cons.prems(2,3) u T(1) show ?case by (auto split: sum.splits)
qed simp

lemma index_returns:
  assumes "earlier_version s" "one_active_binding s" "find_table s ''session_bindings'' = Some t"
  shows "\<exists>s'. exec_ddl CreateActiveIndex s = (Inr (), s')"
proof -
  have "earlier_form session_bindings_table t"
    using known_form[OF earlier_tableD[OF assms(1,3)] schema_names(5)] find_table_SomeD[OF assms(3)] schema_names(6)
    by simp
  moreover have "text_not_null ''recipient_id'' \<in> set (tb_columns session_bindings_table)"
    "text_not_null ''state'' \<in> set (tb_columns session_bindings_table)"
    "EnsureColumn (tb_name session_bindings_table) (text_not_null ''recipient_id'') \<notin> set column_script"
    "EnsureColumn (tb_name session_bindings_table) (text_not_null ''state'') \<notin> set column_script"
    "co_name (text_not_null ''recipient_id'') = ''recipient_id''" "co_name (text_not_null ''state'') = ''state''"
    by code_simp+
  ultimately have "''recipient_id'' \<in> set (column_names t)" "''state'' \<in> set (column_names t)"
    by (metis earlier_form_column)+
  with assms(2,3) show ?thesis
    by (simp add: create_unique_index_if_not_exists_def one_active_binding_def Let_def)
qed

lemma startup_returns:
  assumes "earlier_version s" "one_active_binding s"
  shows "\<exists>s'. run_each (map exec_ddl startup_script) s = (Inr (), s')"
proof -
  let ?A = "take 7 schema_script" and ?B = "drop 8 schema_script"
  have split: "startup_script = ?A @ [CreateActiveIndex] @ ?B @ column_script"
    by (simp add: schema_script_def)
  have creates: "list_all (\<lambda>d. \<exists>T. d = CreateTable T) ?A" "list_all (\<lambda>d. \<exists>T. d = CreateTable T) ?B"
    "CreateTable session_bindings_table \<in> set ?A"
    by (simp_all add: schema_script_def)
  have A: "set ?A \<subseteq> set startup_script" "set ?A \<subseteq> CreateTable ` set schema_tables"
    by (auto simp: schema_tables_def schema_script_def)
  from creates_return[OF creates(1)] obtain sa where sa: "run_each (map exec_ddl ?A) s = (Inr (), sa)" by blast
  have "list_all ddl_wf ?A" using startup_script_wf A(1) by (auto simp: list_all_iff)
  from startup.script_goals[OF this sa creates(3)] schema_names(6)
  obtain t where t: "find_table sa ''session_bindings'' = Some t" by auto
  from index_returns[OF script_earlier[OF assms(1) A(1) sa] creates_active[OF assms(2) A(2) sa] t]
  obtain si where si: "exec_ddl CreateActiveIndex sa = (Inr (), si)" by blast
  from creates_return[OF creates(2)] obtain sb where sb: "run_each (map exec_ddl ?B) si = (Inr (), sb)" by blast
  have whole: "run_each (map exec_ddl schema_script) s = (Inr (), sb)"
  proof -
    have "schema_script = ?A @ [CreateActiveIndex] @ ?B" by (simp add: schema_script_def)
    then have "run_each (map exec_ddl schema_script) s = run_each (map exec_ddl ?A @ [exec_ddl CreateActiveIndex] @ map exec_ddl ?B) s"
      by (metis list.simps(8,9) map_append)
    with sa si sb show ?thesis by (simp add: run_each_append)
  qed
  have "list_all ddl_wf schema_script" using startup_script_wf by simp
  from startup.script_goals[OF this whole]
  have "\<forall>T \<in> set schema_tables. find_table sb (tb_name T) \<noteq> None"
    using schema_tables_iff by (fastforce simp: column_script_def)
  from columns_return[OF subset_refl this] whole show ?thesis by (auto simp: run_each_append)
qed

section \<open>References\<close>

lemma foreign_key_check_ok:
  "foreign_key_check s = Inr [] \<longleftrightarrow>
     (\<forall>t \<in> set (sq_tables s). \<forall>ref \<in> set (tb_refs t). \<not> ref_mismatch s ref)
     \<and> (\<forall>t \<in> set (sq_tables s). \<forall>r \<in> set (tb_rows t). \<forall>(c, p, pc) \<in> set (tb_refs t).
          row_value t r c = Null \<or> parent_has s p pc (row_value t r c))"
  by (fastforce simp: foreign_key_check_def list_ex_iff broken_refs_def Let_def split: if_splits)

lemma known_reference:
  assumes "known_table t" "(c, p, pc) \<in> set (tb_refs t)"
  shows "c \<in> set (column_names t)" "\<exists>P \<in> set schema_tables. tb_name P = p \<and> [pc] \<in> set (tb_keys P)"
proof -
  from assms obtain T where T: "T \<in> set schema_tables" "earlier_form T t"
    by (cases rule: known_tableE) (auto simp: legacy_deliveries_facts)
  with assms(2) have "(c, p, pc) \<in> set (tb_refs T)" by (simp add: earlier_form_script same_constraints_def)
  with T(1) schema_references have ok: "reference_ok T (c, p, pc)" by (auto simp: list_all_iff)
  then show "\<exists>P \<in> set schema_tables. tb_name P = p \<and> [pc] \<in> set (tb_keys P)"
    by (auto simp: reference_ok_def list_ex_iff)
  from ok T(2) show "c \<in> set (column_names t)"
    by (auto simp: reference_ok_def list_ex_iff dest: earlier_form_column)
qed

lemma known_parent:
  assumes "known_table q" "known_table t" "(c, p, pc) \<in> set (tb_refs t)" "tb_name q = p"
  shows "[pc] \<in> set (tb_keys q)"
proof -
  from known_reference(2)[OF assms(2,3)] obtain P where P: "P \<in> set schema_tables" "tb_name P = p" "[pc] \<in> set (tb_keys P)"
    by blast
  with known_constraints[OF assms(1) P(1)] assms(4) show ?thesis by (simp add: same_constraints_def)
qed

lemma parent_has_extend:
  assumes "db_extends s s1" "wf_tables s" "parent_has s p pc v" "v \<noteq> Null"
  shows "parent_has s1 p pc v"
proof -
  from assms(3) obtain q where q: "find_table s p = Some q" "[v] \<in> set (select q [pc])"
    by (auto simp: parent_has_def split: option.splits)
  from q(2) assms(4) have pc: "pc \<in> set (column_names q)"
    by (auto simp: select_def row_value_def split: option.splits dest!: map_of_SomeD set_zip_leftD)
  from assms(1) q(1) obtain q1 where q1: "find_table s1 p = Some q1" "extends q q1" by (rule db_extendsD)
  have "wf_table q" using assms(2) find_table_SomeD[OF q(1)] by (simp add: wf_tables_def)
  from select_extend[OF this q1(2), of "[pc]"] pc q(2) q1(1) show ?thesis by (simp add: parent_has_def)
qed

text \<open>The start-up script breaks no reference: what existed is only extended, what is new is empty.\<close>

lemma startup_references:
  assumes wf: "wf_tables s" "wf_tables s1" and v: "earlier_version s" "earlier_version s1"
    and ext: "db_extends s s1" and ok: "foreign_key_check s = Inr []"
  shows "foreign_key_check s1 = Inr []"
  unfolding foreign_key_check_ok
proof (intro conjI ballI)
  fix t ref assume t: "t \<in> set (sq_tables s1)" "ref \<in> set (tb_refs t)"
  with v(2) have "known_table t" by (simp add: earlier_version_def)
  with t(2) known_parent[OF earlier_tableD[OF v(2)]] find_table_SomeD[of s1] show "\<not> ref_mismatch s1 ref"
    by (auto simp: ref_mismatch_def split: option.splits)
next
  fix t r ref assume t: "t \<in> set (sq_tables s1)" "r \<in> set (tb_rows t)" "ref \<in> set (tb_refs t)"
  obtain c p pc where ref: "ref = (c, p, pc)" by (cases ref)
  have t1: "find_table s1 (tb_name t) = Some t"
    using wf(2) t(1) fetchone_key[of tb_name "sq_tables s1" t] by (simp add: find_table_def wf_tables_def)
  from ext t1 t(2) obtain t0 where t0: "find_table s (tb_name t) = Some t0"
    by (cases "find_table s (tb_name t)") (auto simp: db_extends_def)
  from ext t0 t1 have e: "extends t0 t" by (auto elim: db_extendsD)
  with t(2) obtain r0 vs where r0: "r0 \<in> set (tb_rows t0)" "r = r0 @ vs" by (auto simp: extends_def)
  have in0: "t0 \<in> set (sq_tables s)" using find_table_SomeD[OF t0] by simp
  have refs: "(c, p, pc) \<in> set (tb_refs t0)" using e t(3) ref by (simp add: extends_def)
  have "length r0 = length (tb_columns t0)" using wf(1) in0 r0(1) by (auto simp: wf_tables_def wf_table_def)
  from row_value_extend[OF this known_reference(1)[OF earlier_tableD[OF v(1) t0] refs] e]
  have val: "row_value t r c = row_value t0 r0 c" by (simp add: r0(2))
  from ok in0 r0(1) refs have "row_value t0 r0 c = Null \<or> parent_has s p pc (row_value t0 r0 c)"
    unfolding foreign_key_check_ok by fastforce
  with parent_has_extend[OF ext wf(1)] val ref
  show "case ref of (c, p, pc) \<Rightarrow> row_value t r c = Null \<or> parent_has s1 p pc (row_value t r c)"
    by auto
qed

section \<open>Properties\<close>

lemma migrate_earlier:
  assumes "earlier_version s" "idle s" "migrate s = (Inr u, s')"
  shows "earlier_version s'"
proof -
  from assms(2,3) obtain s1 where s1: "run_each (map exec_ddl startup_script) s = (Inr (), s1)"
    by (auto simp: migrate_def idle_def split: prod.splits sum.splits)
  note m = migrate_split[OF assms(2) s1]
  have v: "earlier_version s1" using script_earlier[OF assms(1) subset_refl s1] .
  from m(2) assms(3)[unfolded m(1)] show ?thesis
  proof (cases rule: nullable_done)
    case (copied t t')
    from try_each_insert[OF copied(2)] have "earlier_form deliveries_table t'"
      by (simp add: earlier_form_script same_constraints_def)
    with schema_names(4) have "known_table t'" by (auto simp: known_table_def)
    with v copied(3) show ?thesis by (auto simp: earlier_version_def rebuilt_def)
  qed (use v in simp)
qed

lemma deliveries_nullable: "c \<in> set (tb_columns deliveries_table) \<Longrightarrow> co_name c = ''binding_id'' \<Longrightarrow> \<not> co_notnull c"
proof -
  have "list_all (\<lambda>c. co_name c = ''binding_id'' \<longrightarrow> \<not> co_notnull c) (tb_columns deliveries_table)" by code_simp
  then show "c \<in> set (tb_columns deliveries_table) \<Longrightarrow> co_name c = ''binding_id'' \<Longrightarrow> \<not> co_notnull c"
    by (simp add: list_all_iff)
qed

lemma form_nullable:
  assumes "earlier_form T t" "T \<in> set schema_tables" "find_table s ''deliveries'' = Some t"
  shows "\<not> binding_not_null s"
proof -
  from assms(1) find_table_SomeD[OF assms(3)] have "tb_name T = tb_name deliveries_table"
    by (simp add: earlier_form_script same_constraints_def deliveries_table_facts)
  with schema_unique[OF assms(2) schema_names(4)] assms(1) have "set (tb_columns t) \<subseteq> set (tb_columns deliveries_table)"
    by (simp add: earlier_form_script)
  with assms(3) deliveries_nullable show ?thesis
    by (fastforce simp: binding_not_null_def table_info_def split: option.splits dest: fetchone_SomeD)
qed

lemma legacy_not_null: "find_table s ''deliveries'' = Some (legacy_deliveries rows) \<Longrightarrow> binding_not_null s"
  by (simp add: binding_not_null_def table_info_def legacy_deliveries_def deliveries_table_def table_def_def
      text_column_def text_not_null_def)

text \<open>A known table to which every later column was added has the current schema.\<close>

lemma settled_schema:
  assumes v: "earlier_version s" and goals: "\<forall>d \<in> set startup_script. ddl_goal d s" and nn: "\<not> binding_not_null s"
    and T: "T \<in> set schema_tables"
  shows "\<exists>t. find_table s (tb_name T) = Some t \<and> same_schema T t"
proof -
  from goals T schema_tables_iff have "ddl_goal (CreateTable T) s" by blast
  then obtain t where t: "find_table s (tb_name T) = Some t" by auto
  have name: "tb_name t = tb_name T" using find_table_SomeD[OF t] by simp
  from earlier_tableD[OF v t] have form: "earlier_form T t"
  proof (cases rule: known_tableE)
    case (form U)
    with name T schema_unique[of U T] show ?thesis by (simp add: earlier_form_script same_constraints_def)
  next
    case (legacy rows)
    with t name nn legacy_not_null show ?thesis by (metis legacy_deliveries_facts(5))
  qed
  have "c \<in> set (tb_columns t)" if c: "c \<in> set (tb_columns T)" for c
  proof (cases "EnsureColumn (tb_name T) c \<in> set column_script")
    case True
    then have "EnsureColumn (tb_name T) c \<in> set startup_script" by simp
    with goals have "ddl_goal (EnsureColumn (tb_name T) c) s" by blast
    then obtain c' where "c' \<in> set (tb_columns t)" "co_name c' = co_name c" by (auto simp: table_info_def t)
    moreover from this form have "c' \<in> set (tb_columns T)" by (auto simp: earlier_form_script)
    moreover have "inj_on co_name (set (tb_columns T))" using schema_wf[OF T] by (simp add: column_names_def distinct_map)
    ultimately show ?thesis using c by (metis inj_onD)
  qed (use form c in \<open>auto simp: earlier_form_script\<close>)
  with t form show ?thesis by (auto simp: same_schema_def earlier_form_script)
qed

text \<open>A store of an earlier version: a provider without the column of its health, and the old table of deliveries.\<close>

definition old_providers :: sqltable where
  "old_providers = providers_table
     \<lparr>tb_columns := [text_column ''provider_id'', text_not_null ''kind''], tb_rows := [[Text ''p1'', Text ''session-transport'']]\<rparr>"

definition earlier_store :: database where
  "earlier_store = connected [old_providers, legacy_deliveries [sample_row]]"

lemma earlier_store_facts:
  "wf_tables earlier_store" "idle earlier_store" "earlier_version earlier_store" "one_active_binding earlier_store"
  "foreign_key_check earlier_store = Inr []"
  "find_table earlier_store ''deliveries'' = Some (legacy_deliveries [sample_row])"
  "try_each insert_sql_row (legacy_deliveries []) [sample_row] = Inr (legacy_deliveries [sample_row])"
  by code_simp+

lemma sample_row_text: "r \<in> set [sample_row] \<Longrightarrow> v \<in> set r \<Longrightarrow> store_as TEXT v = v"
  by (auto simp: sample_row_def)

text \<open>C12: A start on the store of an earlier version, when it returns, reaches the current schema: every table of the schema
  is there with exactly its columns, keys, checks and references, and the index too. No value is lost: every
  table that was there, the deliveries included, reads the same under each of its columns. The next start
  changes nothing. The store is assumed to hold only tables of the schema, each with its constraints and without some of
  the later columns, or the old table of deliveries; delivery values are text or NULL.\<close>

theorem migrate_reaches_schema:
  assumes "wf_tables s" "idle s" "earlier_version s"
    and "\<forall>t. find_table s ''deliveries'' = Some t \<longrightarrow> (\<forall>r \<in> set (tb_rows t). \<forall>v \<in> set r. store_as TEXT v = v)"
    and "migrate s = (Inr u, s')"
  shows "(\<forall>T \<in> set schema_tables. \<exists>t. find_table s' (tb_name T) = Some t \<and> same_schema T t)
    \<and> ACTIVE_INDEX \<in> set (sq_indexes s')
    \<and> (\<forall>n t. find_table s n = Some t \<longrightarrow>
          (\<exists>t'. find_table s' n = Some t' \<and> (\<forall>cs. set cs \<subseteq> set (column_names t) \<longrightarrow> select t' cs = select t cs)))
    \<and> idle s' \<and> migrate s' = (Inr (), s')"
proof -
  note m = migrate_outcome[OF assms(1,2,5)]
  have goals: "\<forall>d \<in> set startup_script. ddl_goal d s'" using m by blast
  have "ddl_goal CreateActiveIndex s'" using goals by (simp add: schema_script_def)
  moreover have "\<exists>t'. find_table s' n = Some t' \<and> (\<forall>cs. set cs \<subseteq> set (column_names t) \<longrightarrow> select t' cs = select t cs)"
    if t: "find_table s n = Some t" for n t
  proof (cases "n = ''deliveries'' \<and> find_table s' n \<noteq> Some t")
    case True
    with m t have nn: "binding_not_null s" and t': "find_table s' n = Some (deliveries_table\<lparr>tb_rows := copied t\<rparr>)" by auto
    from earlier_tableD[OF assms(3) t] obtain rows where rows: "t = legacy_deliveries rows"
      by (cases rule: known_tableE) (use form_nullable nn t True in auto)
    have "wf_table t" using assms(1) find_table_SomeD[OF t] by (simp add: wf_tables_def)
    with assms(4) t True rows legacy_copied[of rows] have "copied t = rows" by (simp add: legacy_deliveries_facts)
    with t' rows legacy_select show ?thesis by simp
  next
    case False
    with m t have "find_table s' n = Some t \<or> (\<exists>t'. find_table s' n = Some t' \<and>
        (\<forall>cs. set cs \<subseteq> set (column_names t) \<longrightarrow> select t' cs = select t cs))" by blast
    then show ?thesis by blast
  qed
  ultimately show ?thesis
    using m settled_schema[OF migrate_earlier[OF assms(3,2,5)] goals] by auto
qed

text \<open>Witness of C12: the start on the sample store.\<close>

theorem migrate_reaches_schema_witness:
  "\<exists>s' t. migrate earlier_store = (Inr (), s') \<and> find_table s' ''providers'' = Some t \<and> same_schema providers_table t
     \<and> select t [''provider_id''] = [[Text ''p1'']] \<and> migrate s' = (Inr (), s')"
proof -
  have "fst (migrate earlier_store) = Inr ()" by code_simp
  then have run: "migrate earlier_store = (Inr (), snd (migrate earlier_store))" by (simp add: prod_eq_iff)
  have "\<forall>t. find_table earlier_store ''deliveries'' = Some t \<longrightarrow> (\<forall>r \<in> set (tb_rows t). \<forall>v \<in> set r. store_as TEXT v = v)"
    using sample_row_text by (simp add: earlier_store_facts legacy_deliveries_facts)
  note reached = migrate_reaches_schema[OF earlier_store_facts(1-3) this run]
  have old: "providers_table \<in> set schema_tables" "find_table earlier_store ''providers'' = Some old_providers"
    "tb_name providers_table = ''providers''" "set [''provider_id''] \<subseteq> set (column_names old_providers)"
    "select old_providers [''provider_id''] = [[Text ''p1'']]"
    by code_simp+
  from reached old(1,3) obtain t where t: "find_table (snd (migrate earlier_store)) ''providers'' = Some t" "same_schema providers_table t"
    by metis
  from reached old(2) t(1) have "\<forall>cs. set cs \<subseteq> set (column_names old_providers) \<longrightarrow> select t cs = select old_providers cs"
    by fastforce
  with old(4,5) have "select t [''provider_id''] = [[Text ''p1'']]" by metis
  with t run reached show ?thesis by blast
qed

text \<open>C13: A sound store of an earlier version with the old table of deliveries is migrated: the start returns and
  the new table has exactly the old rows. Sound means that the rows satisfied the constraints of the old table and hold
  text or NULL, every reference in the store is sound, and no recipient has two active bindings.\<close>

theorem legacy_store_migrates:
  assumes "wf_tables s" "idle s" "earlier_version s" "one_active_binding s" "foreign_key_check s = Inr []"
    and "find_table s ''deliveries'' = Some (legacy_deliveries rows)"
    and "try_each insert_sql_row (legacy_deliveries []) rows = Inr (legacy_deliveries rows)"
    and "\<forall>r \<in> set rows. \<forall>v \<in> set r. store_as TEXT v = v"
  shows "\<exists>s'. migrate s = (Inr (), s') \<and> find_table s' ''deliveries'' = Some (deliveries_table\<lparr>tb_rows := rows\<rparr>)"
proof -
  from startup_returns[OF assms(3,4)] obtain s1 where s1: "run_each (map exec_ddl startup_script) s = (Inr (), s1)" by blast
  have ext: "db_extends s s1" using startup.script_le[OF startup_script_wf s1] .
  then have wf1: "wf_tables s1" using assms(1) by (simp add: db_extends_def)
  have v1: "earlier_version s1" using script_earlier[OF assms(3) subset_refl s1] .
  have "foreign_key_check s1 = Inr []" using startup_references[OF assms(1) wf1 assms(3) v1 ext assms(5)] .
  from legacy_rebuild[OF wf1 assms(2) s1 earlier_legacy_free[OF v1] this assms(6,7,8)] show ?thesis
    by (simp add: tables_rebuilt deliveries_table_facts)
qed

text \<open>Witness of C13: the delivery of the sample store is kept.\<close>

theorem legacy_store_migrates_witness:
  "\<exists>s'. migrate earlier_store = (Inr (), s')
     \<and> find_table s' ''deliveries'' = Some (deliveries_table\<lparr>tb_rows := [sample_row]\<rparr>)"
  using legacy_store_migrates[OF earlier_store_facts] sample_row_text by blast

end
