(* ===== verification/Cmux_Transport.thy ===== *)
theory Cmux_Transport
  imports Core_Reducer
begin

text \<open>
  The cmux plugin's vocabulary: \<open>outcome.py\<close> (three submit outcomes), \<open>receipt_translation.py\<close> (a proven
  submit becomes a core receipt, nothing else does) and \<open>harness_profiles.py\<close> (the text and keys
  that request a non-interrupting next turn). Delays are in milliseconds. The text of an
  exception whose message quotes a value is abbreviated to its fixed part.
\<close>

section \<open>Submit outcomes\<close>

datatype SubmitOutcome = SUBMITTED | NOT_SUBMITTED | UNKNOWN

fun submit_outcome_value :: "SubmitOutcome \<Rightarrow> string" where
  "submit_outcome_value SUBMITTED = ''submitted''"
| "submit_outcome_value NOT_SUBMITTED = ''not_submitted''"
| "submit_outcome_value UNKNOWN = ''unknown''"

record SubmitResult =
  sm_outcome :: SubmitOutcome
  sm_delivery_id :: string
  sm_source_events :: "string list"
  sm_detail :: string

definition is_proven :: "SubmitResult \<Rightarrow> bool" where
  "is_proven r = (sm_outcome r = SUBMITTED)"

definition may_requeue :: "SubmitResult \<Rightarrow> bool" where
  "may_requeue r = (sm_outcome r = NOT_SUBMITTED)"

definition must_hold :: "SubmitResult \<Rightarrow> bool" where
  "must_hold r = (sm_outcome r = UNKNOWN)"

definition submit_result_text :: "SubmitResult \<Rightarrow> string" where
  "submit_result_text r =
     submit_outcome_value (sm_outcome r) @ '' delivery='' @ sm_delivery_id r @ '' chain=['' @
     (if sm_source_events r = [] then ''none'' else join '' -> '' (sm_source_events r)) @ '']'' @
     (if sm_detail r = [] then [] else '' '' @ sm_detail r)"

section \<open>From a submit to a receipt\<close>

definition PROOF_METHOD :: string where
  "PROOF_METHOD = ''cmux.transport.submit_ack''"

definition submit_ack_receipt ::
  "SubmitResult \<Rightarrow> Delivery \<Rightarrow> string \<Rightarrow> string \<Rightarrow> string \<Rightarrow> string option \<Rightarrow> Receipt option res" where
  "submit_ack_receipt r d evidence_provider_id observed_at receipt_id source_event_id =
     (if sm_outcome r \<noteq> SUBMITTED then Inr None
      else if sm_delivery_id r \<noteq> dl_delivery_id d
        then Inl (ValueError ''submit result is for another delivery'')
      else case dl_binding_id d of
        None \<Rightarrow> Inl (ValueError ''delivery has no binding'')
      | Some b \<Rightarrow> Inr (Some
          \<lparr>rc_receipt_id = receipt_id, rc_event_id = dl_event_id d,
           rc_delivery_id = dl_delivery_id d, rc_attempt_id = dl_attempt_id d, rc_binding_id = b,
           rc_evidence_provider_id = evidence_provider_id,
           rc_evidence_class = TRANSPORT_SUBMIT_ACK, rc_proof_method = PROOF_METHOD,
           rc_observed_at = observed_at, rc_source_event_id = source_event_id,
           rc_platform_principal_id = None, rc_platform_message_id = None, rc_disposition = None,
           rc_authored_by_provider = False, rc_infrastructure_event = False, rc_proof = None\<rparr>))"

section \<open>Harness profiles\<close>

datatype HarnessKind = CLAUDE_CODE | CODEX | HERMES

fun harness_value :: "HarnessKind \<Rightarrow> string" where
  "harness_value CLAUDE_CODE = ''claude-code''"
| "harness_value CODEX = ''codex''"
| "harness_value HERMES = ''hermes''"

datatype BusyEnterBehavior = QUEUE | STEER | INTERRUPT

record HarnessProfile =
  hp_kind :: HarnessKind
  hp_submit_keys :: "string list"
  hp_busy_enter_behavior :: BusyEnterBehavior
  hp_text_prefix :: string
  hp_inter_key_delay_ms :: nat

definition render :: "HarnessProfile \<Rightarrow> string \<Rightarrow> string res" where
  "render p envelope =
     (if envelope = [] then Inl (ValueError ''cannot submit an empty envelope'')
      else Inr (hp_text_prefix p @ envelope))"

fun profiles :: "HarnessKind \<Rightarrow> HarnessProfile" where
  "profiles CLAUDE_CODE =
     \<lparr>hp_kind = CLAUDE_CODE, hp_submit_keys = [''enter''], hp_busy_enter_behavior = QUEUE,
      hp_text_prefix = [], hp_inter_key_delay_ms = 0\<rparr>"
| "profiles CODEX =
     \<lparr>hp_kind = CODEX, hp_submit_keys = [''tab'', ''enter''], hp_busy_enter_behavior = STEER,
      hp_text_prefix = [], hp_inter_key_delay_ms = 400\<rparr>"
| "profiles HERMES =
     \<lparr>hp_kind = HERMES, hp_submit_keys = [''enter''], hp_busy_enter_behavior = INTERRUPT,
      hp_text_prefix = ''/queue '', hp_inter_key_delay_ms = 0\<rparr>"

definition profile_for :: "string \<Rightarrow> HarnessProfile res" where
  "profile_for kind =
     (case find (\<lambda>k. harness_value k = kind) [CLAUDE_CODE, CODEX, HERMES] of
        None \<Rightarrow> Inl (ValueError ''unsupported harness'')
      | Some k \<Rightarrow> Inr (profiles k))"

section \<open>Facts\<close>

lemma profile_for_value [simp]: "profile_for (harness_value k) = Inr (profiles k)"
  by (cases k) (simp_all add: profile_for_def)

lemma profile_for_Inr: "profile_for v = Inr p \<Longrightarrow> \<exists>k. p = profiles k \<and> v = harness_value k"
  by (cases "find (\<lambda>k. harness_value k = v) [CLAUDE_CODE, CODEX, HERMES]")
    (auto simp add: profile_for_def find_Some_iff simp del: find.simps)

lemma outcome_exclusive:
  "(is_proven r \<longleftrightarrow> \<not> may_requeue r \<and> \<not> must_hold r) \<and> \<not> (may_requeue r \<and> must_hold r)"
  by (cases "sm_outcome r") (simp_all add: is_proven_def may_requeue_def must_hold_def)

text \<open>The receipt translated from a proven submit moves its dispatching delivery to
  \<open>transport-submitted\<close>: the core accepts it, provided the provider is a session transport that
  declares the class, and the receipt id and source event are unused. A submit that is not
  proven yields no receipt.\<close>

theorem submit_ack_advances_delivery:
  assumes wf: "wf_db (db s)"
    and d: "get_delivery (db s) (dl_delivery_id d) = Some d" "dl_state d = DISPATCHING"
      "dl_delivery_mode d = SESSION_BOUND" "dl_binding_id d = Some b" "sm_delivery_id r = dl_delivery_id d"
    and p: "provider (db s) p = Some row" "pv_kind row = SESSION_TRANSPORT"
      "provider_declares (db s) p TRANSPORT_SUBMIT_ACK"
    and ids: "observed \<noteq> []" "receipt_record (db s) rid = None"
      "\<And>e. source = Some e \<Longrightarrow> \<not> source_seen (db s) p e"
  shows "(case submit_ack_receipt r d p observed rid source of
      Inr (Some q) \<Rightarrow> is_proven r \<and>
        fst (submit authority q s) = Inr (accepted_result TRANSPORT_SUBMITTED None)
    | Inr None \<Rightarrow> \<not> is_proven r
    | Inl _ \<Rightarrow> False)"
proof (cases "sm_outcome r = SUBMITTED")
  case True
  then obtain q where q: "submit_ack_receipt r d p observed rid source = Inr (Some q)"
    and f: "rc_receipt_id q = rid" "rc_delivery_id q = dl_delivery_id d" "rc_event_id q = dl_event_id d"
      "rc_attempt_id q = dl_attempt_id d" "rc_binding_id q = b" "rc_evidence_provider_id q = p"
      "rc_evidence_class q = TRANSPORT_SUBMIT_ACK" "rc_proof_method q = PROOF_METHOD"
      "rc_observed_at q = observed" "rc_source_event_id q = source" "rc_disposition q = None"
    using d(4,5) by (simp add: submit_ack_receipt_def)
  have "admissible authority (db s) q d TRANSPORT_SUBMITTED None"
    using d p ids(1,2)
    by (simp add: admissible_def f PROOF_METHOD_def legal_simps canonical_disposition_def
        PARTICIPANT_EVIDENCE_def SESSION_PROOF_EVIDENCE_def)
  then have "accepted q d TRANSPORT_SUBMITTED None (fst (submit authority q s)) s (snd (submit authority q s))"
    by (rule submit_accept_commits[OF wf]) (use ids(3) in \<open>simp add: f\<close>)
  then show ?thesis using q True by (simp add: accepted_def is_proven_def)
qed (simp add: submit_ack_receipt_def is_proven_def)

text \<open>An instance.\<close>

theorem submit_ack_advances_delivery_witness:
  "case submit_ack_receipt \<lparr>sm_outcome = SUBMITTED, sm_delivery_id = ''d1'', sm_source_events = [], sm_detail = []\<rparr>
      example_delivery ''cmux'' ''2026-07-01T00:00:01Z'' ''r9'' None of
    Inr (Some q) \<Rightarrow> fst (submit None q example_ready) = Inr (accepted_result TRANSPORT_SUBMITTED None)
  | _ \<Rightarrow> False"
proof -
  have f: "get_delivery (db example_ready) (dl_delivery_id example_delivery) = Some example_delivery"
    "provider (db example_ready) ''cmux'' =
       Some \<lparr>pv_provider_id = ''cmux'', pv_kind = SESSION_TRANSPORT, pv_health = ''healthy''\<rparr>"
    "provider_declares (db example_ready) ''cmux'' TRANSPORT_SUBMIT_ACK"
    "receipt_record (db example_ready) ''r9'' = None"
    by code_simp+
  from submit_ack_advances_delivery[OF wf_example_ready f(1) _ _ _ _ f(2) _ f(3) _ f(4),
      of "''b1''" "\<lparr>sm_outcome = SUBMITTED, sm_delivery_id = ''d1'', sm_source_events = [], sm_detail = []\<rparr>"
        "''2026-07-01T00:00:01Z''" None None]
  show ?thesis
    by (auto simp: example_delivery_def is_proven_def split: sum.splits option.splits)
qed

end
