(* ===== verification/Cmux_Marker.thy ===== *)
theory Cmux_Marker
  imports Cmux_Transport
begin

text \<open>
  \<open>plugins/cmux/yatagarasu_cmux/marker.py\<close>: the short wire marker that fits a cmux preview, its
  extraction from arbitrary text, and the older bracketed token. The regular expressions are
  written as the deterministic matchers they are: a run of token characters never contains the
  dot or the bracket that has to follow it, so backtracking cannot find another match.
  \<open>secrets.token_hex\<close> is a parameter.
\<close>

section \<open>The bracketed token\<close>

record Marker =
  tk_delivery_id :: string
  tk_nonce :: string
  tk_signature :: string

definition marker_token_text :: "Marker \<Rightarrow> string" where
  "marker_token_text m =
     ''[ygr:'' @ tk_delivery_id m @ '':'' @ tk_nonce m @ '':'' @ tk_signature m @ '']''"

definition sign_token :: "byte list \<Rightarrow> string \<Rightarrow> string \<Rightarrow> string" where
  "sign_token key delivery_id nonce = take 16 (hex (hmac_sha256 key (utf8 (delivery_id @ '':'' @ nonce))))"

text \<open>The pattern of an identifier: one to sixty-four token characters.\<close>

definition is_token_id :: "string \<Rightarrow> bool" where
  "is_token_id s = (s \<noteq> [] \<and> length s \<le> 64 \<and> list_all is_token_char s)"

definition mint_token :: "byte list \<Rightarrow> byte list \<Rightarrow> string \<Rightarrow> Marker res" where
  "mint_token random_bytes key delivery_id =
     (if key = [] then Inl (CmuxMarkerError ''signing key must not be empty'')
      else if delivery_id = [] \<or> \<not> is_token_id delivery_id
        then Inl (CmuxMarkerError ''delivery_id is not a valid token'')
      else let nonce = hex random_bytes
      in Inr \<lparr>tk_delivery_id = delivery_id, tk_nonce = nonce, tk_signature = sign_token key delivery_id nonce\<rparr>)"

section \<open>The short marker\<close>

record ShortMarker =
  sh_delivery_id :: string
  sh_binding_id :: string
  sh_signature :: string

definition MAX_SHORT_MARKER_CHARS :: nat where
  "MAX_SHORT_MARKER_CHARS = 180"

definition short_text :: "ShortMarker \<Rightarrow> string res" where
  "short_text m =
     (case fromhex (sh_signature m) of
        None \<Rightarrow> Inl Unmodelled
      | Some bs \<Rightarrow> Inr (''ygr1s.'' @ sh_delivery_id m @ ''.'' @ sh_binding_id m @ ''.'' @
          rstrip_pad (urlsafe_b64encode bs)))"

definition is_hex_digest :: "string \<Rightarrow> bool" where
  "is_hex_digest s = (length s = 64 \<and> list_all (\<lambda>c. hex_val c \<noteq> None) s)"

definition encode_short :: "DeliveryMarker \<Rightarrow> string res" where
  "encode_short m =
     (if \<not> is_token_id (mk_delivery_id m)
        then Inl (CmuxMarkerError ''delivery_id cannot be represented in a short marker'')
      else if \<not> is_token_id (mk_binding_id m)
        then Inl (CmuxMarkerError ''binding_id cannot be represented in a short marker'')
      else if \<not> is_hex_digest (mk_signature m)
        then Inl (CmuxMarkerError ''marker signature is not a full SHA-256 hex digest'')
      else case short_text \<lparr>sh_delivery_id = mk_delivery_id m, sh_binding_id = mk_binding_id m,
                            sh_signature = mk_signature m\<rparr> of
        Inl e \<Rightarrow> Inl e
      | Inr token \<Rightarrow>
          if length token > MAX_SHORT_MARKER_CHARS
            then Inl (CmuxMarkerError ''short marker exceeds the CMUX preview budget'')
          else Inr token)"

section \<open>Extraction\<close>

text \<open>One identifier group and the dot after it: the run of token characters, of length 1 to 64.\<close>

definition match_id :: "string \<Rightarrow> (string \<times> string) option" where
  "match_id s =
     (let run = takeWhile is_token_char s; rest = dropWhile is_token_char s
      in if is_token_id run \<and> take 1 rest = ''.'' then Some (run, drop 1 rest) else None)"

text \<open>\<open>_SHORT_MARKER_RE\<close> at one position: the groups \<open>delivery_id\<close>, \<open>binding_id\<close>, \<open>signature\<close>.\<close>

definition match_short :: "string \<Rightarrow> (string \<times> string \<times> string) option" where
  "match_short s =
     (if take 6 s \<noteq> ''ygr1s.'' then None
      else case match_id (drop 6 s) of
        None \<Rightarrow> None
      | Some (delivery_id, r) \<Rightarrow>
        (case match_id r of
           None \<Rightarrow> None
         | Some (binding_id, r') \<Rightarrow>
           let sig = takeWhile is_token_char r'
           in if length sig = 43 then Some (delivery_id, binding_id, sig) else None))"

text \<open>\<open>search\<close>: the leftmost match.\<close>

fun search_short :: "string \<Rightarrow> (string \<times> string \<times> string) option" where
  "search_short [] = None"
| "search_short (c # s) =
     (case match_short (c # s) of None \<Rightarrow> search_short s | Some g \<Rightarrow> Some g)"

text \<open>\<open>_YGR1_RE.finditer\<close>: the non-overlapping matches from left to right.\<close>

function ygr1_matches :: "string \<Rightarrow> string list" where
  "ygr1_matches s =
     (case s of
        [] \<Rightarrow> []
      | c # r \<Rightarrow>
        let run = takeWhile is_token_char (drop 5 s)
        in if take 5 s = ''ygr1.'' \<and> run \<noteq> []
           then (''ygr1.'' @ run) # ygr1_matches (dropWhile is_token_char (drop 5 s))
           else ygr1_matches r)"
  by pat_completeness auto

termination
  by (relation "measure length")
    (auto simp: Let_def intro!: le_imp_less_Suc le_trans[OF length_dropWhile_le])

declare ygr1_matches.simps [simp del]

datatype AnyMarker = Full DeliveryMarker | Short ShortMarker

fun any_delivery_id :: "AnyMarker \<Rightarrow> string" where
  "any_delivery_id (Full m) = mk_delivery_id m"
| "any_delivery_id (Short m) = sh_delivery_id m"

fun any_binding_id :: "AnyMarker \<Rightarrow> string" where
  "any_binding_id (Full m) = mk_binding_id m"
| "any_binding_id (Short m) = sh_binding_id m"

fun any_signature :: "AnyMarker \<Rightarrow> string" where
  "any_signature (Full m) = mk_signature m"
| "any_signature (Short m) = sh_signature m"

text \<open>The loop over the long markers: the first that decodes, skipping core marker errors only.\<close>

fun first_decodable :: "string list \<Rightarrow> DeliveryMarker option res" where
  "first_decodable [] = Inr None"
| "first_decodable (t # ts) =
     (case decode t of
        Inr m \<Rightarrow> Inr (Some m)
      | Inl (MarkerError _) \<Rightarrow> first_decodable ts
      | Inl e \<Rightarrow> Inl e)"

text \<open>The signature group as bytes, empty when it does not decode.\<close>

definition decode_signature :: "string \<Rightarrow> byte list" where
  "decode_signature s = (case urlsafe_b64decode (s @ ''='') of Inl e \<Rightarrow> [] | Inr bs \<Rightarrow> bs)"

definition extract_short :: "string \<Rightarrow> ShortMarker option" where
  "extract_short s =
     (case search_short s of
        None \<Rightarrow> None
      | Some (delivery_id, binding_id, encoded_signature) \<Rightarrow>
        let signature_bytes = decode_signature encoded_signature;
            canonical = rstrip_pad (urlsafe_b64encode signature_bytes)
        in if length signature_bytes = 32 \<and> canonical = encoded_signature
           then Some \<lparr>sh_delivery_id = delivery_id, sh_binding_id = binding_id,
                      sh_signature = hex signature_bytes\<rparr>
           else None)"

definition extract_marker :: "string option \<Rightarrow> AnyMarker option res" where
  "extract_marker haystack =
     (case haystack of
        None \<Rightarrow> Inr None
      | Some s \<Rightarrow>
        if s = [] then Inr None
        else case extract_short s of
          Some m \<Rightarrow> Inr (Some (Short m))
        | None \<Rightarrow> map_sum id (map_option Full) (first_decodable (ygr1_matches s)))"

definition marker_text :: "AnyMarker \<Rightarrow> string res" where
  "marker_text m = (case m of Short s \<Rightarrow> short_text s | Full d \<Rightarrow> Inr (encode d))"

definition redact :: "string option \<Rightarrow> string" where
  "redact haystack =
     (case haystack of
        None \<Rightarrow> ''<empty>''
      | Some s \<Rightarrow> if s = [] then ''<empty>'' else ''<redacted len='' @ nat_text (length s) @ ''>'')"

section \<open>Facts\<close>

lemma hex_digit_hex_val: "hex_val c = Some v \<Longrightarrow> hex_digit v = c \<and> v < 16"
  by (auto simp: hex_val_def hex_digit_def Let_def split: if_splits)

lemma fromhex_digest:
  "length s = 2 * n \<Longrightarrow> list_all (\<lambda>c. hex_val c \<noteq> None) s \<Longrightarrow>
   \<exists>bs. fromhex s = Some bs \<and> length bs = n \<and> hex bs = s"
proof (induction s arbitrary: n rule: fromhex.induct)
  case (2 a b cs)
  from "2.prems" obtain x y where v: "hex_val a = Some x" "hex_val b = Some y" by auto
  from "2.prems" obtain k where k: "n = Suc k" "length cs = 2 * k" by (cases n) auto
  with "2.IH"[of k] "2.prems" obtain bs where bs: "fromhex cs = Some bs" "length bs = k" "hex bs = cs"
    by auto
  have "unat (word_of_nat (16 * x + y) :: byte) = 16 * x + y"
    using hex_digit_hex_val[OF v(1)] hex_digit_hex_val[OF v(2)] by (intro unat_small) simp
  then show ?case
    using v bs k hex_digit_hex_val[OF v(1)] hex_digit_hex_val[OF v(2)] by (simp add: hex_Cons)
qed (auto simp: hex_def)

lemma hex_digest_of_hex [simp]: "length bs = 32 \<Longrightarrow> is_hex_digest (hex bs)"
proof -
  have "list_all (\<lambda>c. hex_val c \<noteq> None) (hex bs)"
  proof (induction bs)
    case (Cons b bs)
    have "unat b div 16 < 16" using unat_byte_lt[of b] by simp
    with Cons show ?case by (simp add: hex_Cons)
  qed (simp add: hex_def)
  then show "length bs = 32 \<Longrightarrow> is_hex_digest (hex bs)" by (simp add: is_hex_digest_def)
qed

lemma is_hex_digestE:
  assumes "is_hex_digest s" obtains bs where "s = hex bs" "length bs = 32"
  using fromhex_digest[of s 32] assms by (auto simp: is_hex_digest_def)

lemma minted_signature_digest: "mint auth d i e = Inr m \<Longrightarrow> is_hex_digest (mk_signature m)"
  by (auto simp: mint_def sign_def Let_def split: option.splits sum.splits if_splits)

text \<open>The token a short marker is written as.\<close>

definition short_token :: "string \<Rightarrow> string \<Rightarrow> byte list \<Rightarrow> string" where
  "short_token d b bs = ''ygr1s.'' @ d @ ''.'' @ b @ ''.'' @ b64_core bs"

lemma short_text_hex:
  "short_text \<lparr>sh_delivery_id = d, sh_binding_id = b, sh_signature = hex bs\<rparr> = Inr (short_token d b bs)"
  by (simp add: short_text_def short_token_def)

lemma length_short_token:
  "is_token_id d \<Longrightarrow> is_token_id b \<Longrightarrow> length bs = 32 \<Longrightarrow> length (short_token d b bs) \<le> 179"
  by (simp add: short_token_def is_token_id_def length_b64_core)

lemma encode_short_Inr_iff:
  "encode_short m = Inr t \<longleftrightarrow>
     is_token_id (mk_delivery_id m) \<and> is_token_id (mk_binding_id m) \<and>
     (\<exists>bs. length bs = 32 \<and> mk_signature m = hex bs \<and>
        t = short_token (mk_delivery_id m) (mk_binding_id m) bs)"
proof (cases "is_token_id (mk_delivery_id m) \<and> is_token_id (mk_binding_id m) \<and> is_hex_digest (mk_signature m)")
  case True
  then obtain bs where bs: "mk_signature m = hex bs" "length bs = 32" by (auto elim: is_hex_digestE)
  have "encode_short m = Inr (short_token (mk_delivery_id m) (mk_binding_id m) bs)"
    using True bs length_short_token[of "mk_delivery_id m" "mk_binding_id m" bs]
    by (simp add: encode_short_def short_text_hex MAX_SHORT_MARKER_CHARS_def)
  moreover have "bs' = bs" if "hex bs' = hex bs" for bs' using that fromhex_hex by (metis option.inject)
  ultimately show ?thesis using True bs by auto
next
  case False
  then show ?thesis by (auto simp: encode_short_def)
qed

text \<open>Matching what was written.\<close>

lemma takeWhile_tokens:
  "list_all is_token_char xs \<Longrightarrow> ys = [] \<or> \<not> is_token_char (hd ys) \<Longrightarrow>
   takeWhile is_token_char (xs @ ys) = xs \<and> dropWhile is_token_char (xs @ ys) = ys"
  by (induction xs) (auto simp: takeWhile_eq_Nil_iff dropWhile_eq_self_iff)

lemma not_token_marks [simp]: "\<not> is_token_char (CHR ''.'')" "\<not> is_token_char (CHR '' '')"
  by (simp_all add: is_token_char_def)

lemma match_id_run: "is_token_id d \<Longrightarrow> match_id (d @ CHR ''.'' # r) = Some (d, r)"
  using takeWhile_tokens[of d "CHR ''.'' # r"] by (simp add: match_id_def is_token_id_def Let_def)

lemma match_short_token:
  assumes "is_token_id d" "is_token_id b" "length bs = 32" "r = [] \<or> \<not> is_token_char (hd r)"
  shows "match_short (short_token d b bs @ r) = Some (d, b, b64_core bs)"
  using assms takeWhile_tokens[OF b64_core_tokens[of bs] assms(4)]
  by (simp add: match_short_def short_token_def match_id_run length_b64_core)

lemma decode_signature_core: "length bs = 32 \<Longrightarrow> decode_signature (b64_core bs) = bs"
  using urlsafe_b64decode_core[of bs] by (simp add: decode_signature_def length_b64_core b64_pad_def)

lemma match_short_prefix: "match_short s \<noteq> None \<Longrightarrow> s \<noteq> [] \<and> hd s = CHR ''y''"
  by (cases s) (auto simp: match_short_def split: if_splits)

lemma search_short_skip: "CHR ''y'' \<notin> set p \<Longrightarrow> search_short (p @ s) = search_short s"
proof (induction p)
  case (Cons c p)
  then have "match_short (c # p @ s) = None" using match_short_prefix[of "c # p @ s"]
    by (cases "match_short (c # p @ s)") auto
  with Cons show ?case by simp
qed simp

lemma search_short_here: "match_short s = Some g \<Longrightarrow> search_short s = Some g"
  using match_short_prefix[of s] by (cases s) auto

lemma extract_written:
  assumes "is_token_id d" "is_token_id b" "length bs = 32" "r = [] \<or> \<not> is_token_char (hd r)"
    and "CHR ''y'' \<notin> set p"
  shows "extract_marker (Some (p @ short_token d b bs @ r)) =
    Inr (Some (Short \<lparr>sh_delivery_id = d, sh_binding_id = b, sh_signature = hex bs\<rparr>))"
proof -
  have "search_short (p @ short_token d b bs @ r) = Some (d, b, b64_core bs)"
    using assms by (simp add: search_short_skip search_short_here match_short_token)
  with assms(3) show ?thesis
    by (simp add: extract_marker_def extract_short_def decode_signature_core Let_def short_token_def)
qed

text \<open>What a match says about the text it was found in.\<close>

lemma match_id_Some: "match_id s = Some (i, r) \<Longrightarrow> is_token_id i \<and> s = i @ CHR ''.'' # r"
  by (cases "dropWhile is_token_char s")
    (auto simp: match_id_def Let_def split: if_splits, metis takeWhile_dropWhile_id)

lemma match_short_Some:
  assumes "match_short s = Some (d, b, g)"
  shows "is_token_id d \<and> is_token_id b \<and> (\<exists>r. s = ''ygr1s.'' @ d @ ''.'' @ b @ ''.'' @ g @ r)"
proof -
  from assms obtain r r' where
    m: "take 6 s = ''ygr1s.''" "match_id (drop 6 s) = Some (d, r)" "match_id r = Some (b, r')"
      "g = takeWhile is_token_char r'"
    by (auto simp: match_short_def Let_def split: if_splits option.splits)
  have "s = ''ygr1s.'' @ d @ ''.'' @ b @ ''.'' @ g @ dropWhile is_token_char r'"
    using m match_id_Some[OF m(2)] match_id_Some[OF m(3)] append_take_drop_id[of 6 s]
    by (metis append_Cons append_Nil takeWhile_dropWhile_id)
  with match_id_Some[OF m(2)] match_id_Some[OF m(3)] show ?thesis by blast
qed

lemma search_short_Some:
  "search_short s = Some (d, b, g) \<Longrightarrow>
   is_token_id d \<and> is_token_id b \<and> (\<exists>p r. s = p @ ''ygr1s.'' @ d @ ''.'' @ b @ ''.'' @ g @ r)"
proof (induction s)
  case (Cons c s)
  show ?case
  proof (cases "match_short (c # s)")
    case None
    with Cons obtain p r where "is_token_id d" "is_token_id b" "s = p @ ''ygr1s.'' @ d @ ''.'' @ b @ ''.'' @ g @ r"
      by auto
    moreover from this(3) have "c # s = (c # p) @ ''ygr1s.'' @ d @ ''.'' @ b @ ''.'' @ g @ r" by simp
    ultimately show ?thesis by blast
  next
    case (Some m)
    with Cons.prems have "match_short (c # s) = Some (d, b, g)" by simp
    from match_short_Some[OF this] show ?thesis by (metis append_Nil)
  qed
qed simp

lemma extract_short_Some:
  assumes "extract_short s = Some m"
  obtains p r bs where "is_token_id (sh_delivery_id m)" "is_token_id (sh_binding_id m)"
    "length bs = 32" "sh_signature m = hex bs"
    "s = p @ short_token (sh_delivery_id m) (sh_binding_id m) bs @ r"
proof -
  from assms obtain d b g where g: "search_short s = Some (d, b, g)"
    and c: "length (decode_signature g) = 32" "b64_core (decode_signature g) = g"
      "m = \<lparr>sh_delivery_id = d, sh_binding_id = b, sh_signature = hex (decode_signature g)\<rparr>"
    by (auto simp: extract_short_def Let_def split: option.splits prod.splits if_splits)
  from search_short_Some[OF g] obtain p r where
    "is_token_id d" "is_token_id b" "s = p @ ''ygr1s.'' @ d @ ''.'' @ b @ ''.'' @ g @ r" by blast
  with c show ?thesis by (intro that[of "decode_signature g" p r]) (simp_all add: short_token_def)
qed

lemma profile_prefix_no_y: "CHR ''y'' \<notin> set (hp_text_prefix (profiles k))"
  by (cases k) simp_all

lemma length_profile_prefix: "length (hp_text_prefix (profiles k)) \<le> 7"
  by (cases k) simp_all

lemma encode_short_cases:
  "case encode_short m of
     Inr t \<Rightarrow> is_token_id (mk_delivery_id m) \<and> is_token_id (mk_binding_id m)
       \<and> is_hex_digest (mk_signature m) \<and> length t \<le> 179
   | Inl e \<Rightarrow> \<not> (is_token_id (mk_delivery_id m) \<and> is_token_id (mk_binding_id m)
       \<and> is_hex_digest (mk_signature m)) \<and> is_ValueError e"
proof (cases "is_token_id (mk_delivery_id m) \<and> is_token_id (mk_binding_id m) \<and> is_hex_digest (mk_signature m)")
  case True
  then obtain bs where bs: "mk_signature m = hex bs" "length bs = 32" by (auto elim: is_hex_digestE)
  then have "encode_short m = Inr (short_token (mk_delivery_id m) (mk_binding_id m) bs)"
    using True by (auto simp: encode_short_Inr_iff)
  with True bs(2) show ?thesis by (simp add: length_short_token)
next
  case False
  then show ?thesis by (auto simp: encode_short_def)
qed

lemma encode_short_error: "encode_short m = Inl e \<Longrightarrow> is_ValueError e"
  using encode_short_cases[of m] by simp

section \<open>Properties\<close>

text \<open>C28: The marker survives the trip through the host. Whatever the body, and however the host
  cuts the text to a preview of at least 186 characters (cmux keeps 240), extraction from the text
  that the harness profile renders gives back the delivery, the binding and the full signature of the
  marker that was encoded, and nothing of the body.\<close>

theorem extract_rendered_marker:
  assumes "encode_short m = Inr t" and "render (profiles k) (t @ '' '' @ body) = Inr text" and "186 \<le> n"
  shows "extract_marker (Some (take n text)) =
    Inr (Some (Short \<lparr>sh_delivery_id = mk_delivery_id m, sh_binding_id = mk_binding_id m,
                      sh_signature = mk_signature m\<rparr>))"
proof -
  from assms(1) obtain bs where bs: "length bs = 32" "mk_signature m = hex bs"
    and t: "t = short_token (mk_delivery_id m) (mk_binding_id m) bs"
    and ids: "is_token_id (mk_delivery_id m)" "is_token_id (mk_binding_id m)"
    by (auto simp: encode_short_Inr_iff)
  let ?p = "hp_text_prefix (profiles k)"
  have "length (?p @ t) \<le> n"
    using length_short_token[OF ids bs(1)] length_profile_prefix[of k] assms(3) t by simp
  then have "take n text = ?p @ t @ take (n - length (?p @ t)) ('' '' @ body)"
    using assms(2) by (auto simp: render_def split: if_splits)
  moreover have "take j ('' '' @ body) = [] \<or> \<not> is_token_char (hd (take j ('' '' @ body)))" for j
    by (cases j) simp_all
  ultimately show ?thesis
    using extract_written[OF ids bs(1) _ profile_prefix_no_y] bs(2) t by metis
qed

text \<open>Witness of C28.\<close>

definition short_sample :: DeliveryMarker where
  "short_sample =
     \<lparr>mk_schema_version = 1, mk_event_id = ''e1'', mk_delivery_id = ''d-1'', mk_attempt_id = ''a1'',
      mk_binding_id = ''b_1'', mk_authority_scope = ''conversation'',
      mk_issued_at = ''2026-07-01T00:00:00Z'', mk_expires_at = ''2026-07-01T00:05:00Z'',
      mk_signature = replicate 64 (CHR ''a'')\<rparr>"

theorem extract_rendered_marker_witness:
  "\<exists>t text. encode_short short_sample = Inr t \<and> render (profiles HERMES) (t @ '' '' @ ''hello'') = Inr text
     \<and> extract_marker (Some (take 240 text)) =
        Inr (Some (Short \<lparr>sh_delivery_id = ''d-1'', sh_binding_id = ''b_1'',
                          sh_signature = replicate 64 (CHR ''a'')\<rparr>))"
proof -
  obtain t where t: "encode_short short_sample = Inr t"
    by (cases "encode_short short_sample") (simp_all, code_simp)
  then have "render (profiles HERMES) (t @ '' '' @ ''hello'') = Inr (''/queue '' @ t @ '' '' @ ''hello'')"
    by (simp add: render_def)
  with extract_rendered_marker[OF t this, of 240] t show ?thesis by (simp add: short_sample_def)
qed

text \<open>A marker has a short form exactly when its delivery and binding are tokens of at most 64
  characters and its signature is a full digest; the form then has at most 179 characters, so the check
  against the preview budget never fails.\<close>

theorem encode_short_total:
  "case encode_short m of
     Inr t \<Rightarrow> is_token_id (mk_delivery_id m) \<and> is_token_id (mk_binding_id m)
       \<and> is_hex_digest (mk_signature m) \<and> length t \<le> 179
   | Inl e \<Rightarrow> \<not> (is_token_id (mk_delivery_id m) \<and> is_token_id (mk_binding_id m)
       \<and> is_hex_digest (mk_signature m)) \<and> is_ValueError e"
  by (rule encode_short_cases)

text \<open>Every short marker found in a text was written there: its token is a contiguous part of the
  text, is exactly what \<open>marker_text\<close> reproduces, and encodes again to itself. So what is kept of a
  preview is the token and nothing around it.\<close>

theorem extracted_token_occurs:
  assumes "extract_marker (Some s) = Inr (Some (Short m))"
  shows "\<exists>p t r. s = p @ t @ r \<and> marker_text (Short m) = Inr t \<and> length t \<le> 179
    \<and> list_all (\<lambda>c. is_token_char c \<or> c = CHR ''.'') t"
proof -
  from assms have "extract_short s = Some m"
    by (cases "first_decodable (ygr1_matches s)")
      (auto simp: extract_marker_def split: if_splits option.splits)
  then obtain p r bs where i: "is_token_id (sh_delivery_id m)" "is_token_id (sh_binding_id m)"
    and b: "length bs = 32" "sh_signature m = hex bs"
    and s: "s = p @ short_token (sh_delivery_id m) (sh_binding_id m) bs @ r"
    by (rule extract_short_Some)
  let ?t = "short_token (sh_delivery_id m) (sh_binding_id m) bs"
  have "marker_text (Short m) = Inr ?t"
    using b(2) by (simp add: marker_text_def short_text_def short_token_def)
  moreover have "list_all (\<lambda>c. is_token_char c \<or> c = CHR ''.'') ?t"
    using i b64_core_tokens[of bs]
    by (auto simp: short_token_def is_token_id_def list_all_iff) (simp_all add: is_token_char_def)
  ultimately show ?thesis using s length_short_token[OF i b(1)] by blast
qed

text \<open>An instance.\<close>

theorem extracted_token_occurs_witness:
  "\<exists>p t r. short_token ''d'' ''b'' (replicate 32 170) @ '' hi'' = p @ t @ r
     \<and> marker_text (Short \<lparr>sh_delivery_id = ''d'', sh_binding_id = ''b'',
                           sh_signature = hex (replicate 32 170)\<rparr>) = Inr t \<and> length t \<le> 179"
proof -
  have "extract_marker (Some ([] @ short_token ''d'' ''b'' (replicate 32 170) @ '' hi'')) =
      Inr (Some (Short \<lparr>sh_delivery_id = ''d'', sh_binding_id = ''b'',
                        sh_signature = hex (replicate 32 170)\<rparr>))"
    by (rule extract_written) (simp_all add: is_token_id_def is_token_char_def)
  from extracted_token_occurs[OF this] show ?thesis by simp blast
qed

end
