(* ===== verification/Cmux_Injector.thy ===== *)
theory Cmux_Injector
  imports Cmux_Marker "HOL-Library.Sublist"
begin

text \<open>
  \<open>plugins/cmux/yatagarasu_cmux/injector.py\<close>: one injection into a live session and its verdict. Resolver,
  transport, observer and the callback before the effect are injected by the caller; here they
  are fields of the injector record. What the transport and the observer do may depend on
  everything done before, so they receive the trace of effects so far. The callback changes a
  state of its own, threaded through \<open>deliver\<close>. The result of a call is its return value or
  exception, the trace of effects, and that state.
\<close>

section \<open>Effects\<close>

datatype effect =
    Pending string string
  | SendText string string
  | Sleep nat
  | SubmitKey string string

definition EVENT_INPUT_SENT :: string where
  "EVENT_INPUT_SENT = ''surface.input_sent''"

definition EVENT_PROMPT_SUBMITTED :: string where
  "EVENT_PROMPT_SUBMITTED = ''workspace.prompt.submitted''"

definition REQUIRED_EVENTS :: "string list" where
  "REQUIRED_EVENTS = [EVENT_INPUT_SENT, EVENT_PROMPT_SUBMITTED]"

text \<open>The observer yields names and then stops or raises.\<close>

record 'j Injector =
  ij_resolve :: "string \<Rightarrow> string res"
  ij_transport :: "effect list \<Rightarrow> effect \<Rightarrow> py_exc option"
  ij_observe :: "effect list \<Rightarrow> DeliveryMarker \<Rightarrow> string list \<times> py_exc option"
  ij_marker_authority :: MarkerAuthority
  ij_on_effect_pending :: "(string \<Rightarrow> string \<Rightarrow> 'j \<Rightarrow> py_exc option \<times> 'j) option"

text \<open>\<open>str(exc)\<close> for the exceptions that carry a message.\<close>

fun exc_text :: "py_exc \<Rightarrow> string" where
  "exc_text (ValueError m) = m"
| "exc_text (TypeError m) = m"
| "exc_text (RuntimeError m) = m"
| "exc_text (MarkerError m) = m"
| "exc_text (CmuxMarkerError m) = m"
| "exc_text (StreamProtocolError m) = m"
| "exc_text (ExternalError m) = m"
| "exc_text e = []"

definition submit_result :: "SubmitOutcome \<Rightarrow> string \<Rightarrow> string list \<Rightarrow> string \<Rightarrow> SubmitResult" where
  "submit_result out d evs detail =
     \<lparr>sm_outcome = out, sm_delivery_id = d, sm_source_events = evs, sm_detail = detail\<rparr>"

section \<open>Waiting for evidence\<close>

definition classify_shortfall :: "string \<Rightarrow> string list \<Rightarrow> SubmitResult" where
  "classify_shortfall d seen =
     (if seen = [] then submit_result NOT_SUBMITTED d [] ''no host events observed within window''
      else if EVENT_INPUT_SENT \<in> set seen \<and> EVENT_PROMPT_SUBMITTED \<notin> set seen
        then submit_result UNKNOWN d seen
          ''input accepted but submit unobserved; holding to avoid a duplicate turn''
      else submit_result UNKNOWN d seen ''incomplete evidence chain'')"

text \<open>The loop over the observed names: \<open>Inl\<close> is the early return, \<open>Inr\<close> the names seen at the end.\<close>

fun await_loop :: "string \<Rightarrow> string list \<Rightarrow> string list \<Rightarrow> SubmitResult + string list" where
  "await_loop d seen [] = Inr seen"
| "await_loop d seen (name # names) =
     (let seen' = (if name \<in> set seen then seen else seen @ [name])
      in if list_all (\<lambda>required. required \<in> set seen') REQUIRED_EVENTS
           then Inl (submit_result SUBMITTED d seen' [])
         else await_loop d seen' names)"

definition await_proof :: "'j Injector \<Rightarrow> effect list \<Rightarrow> DeliveryMarker \<Rightarrow> string \<Rightarrow> SubmitResult res" where
  "await_proof ij tr m d =
     (case ij_observe ij tr m of
        (names, failure) \<Rightarrow>
          (case await_loop d [] names of
             Inl r \<Rightarrow> Inr r
           | Inr seen \<Rightarrow>
             (case failure of Some e \<Rightarrow> Inl e | None \<Rightarrow> Inr (classify_shortfall d seen))))"

section \<open>Delivery\<close>

text \<open>The text and the keys, with the pause between keys that the profile asks for.\<close>

fun key_effects :: "string \<Rightarrow> nat \<Rightarrow> nat \<Rightarrow> string list \<Rightarrow> effect list" where
  "key_effects surface delay index [] = []"
| "key_effects surface delay index (key # keys) =
     (if index \<noteq> 0 \<and> delay \<noteq> 0 then [Sleep delay] else []) @
     SubmitKey surface key # key_effects surface delay (Suc index) keys"

definition surface_effects :: "string \<Rightarrow> string \<Rightarrow> HarnessProfile \<Rightarrow> effect list" where
  "surface_effects surface text p =
     SendText surface text # key_effects surface (hp_inter_key_delay_ms p) 0 (hp_submit_keys p)"

text \<open>The \<open>try\<close> block around the transport: effects in order until one raises.\<close>

definition call_effect :: "'j Injector \<Rightarrow> effect list \<Rightarrow> effect \<Rightarrow> py_exc option" where
  "call_effect ij tr e = (case e of Sleep _ \<Rightarrow> None | _ \<Rightarrow> ij_transport ij tr e)"

fun perform :: "'j Injector \<Rightarrow> effect list \<Rightarrow> effect list \<Rightarrow> py_exc option \<times> effect list" where
  "perform ij tr [] = (None, tr)"
| "perform ij tr (e # es) =
     (case call_effect ij tr e of
        Some x \<Rightarrow> (Some x, tr @ [e])
      | None \<Rightarrow> perform ij (tr @ [e]) es)"

definition injection_text :: "string \<Rightarrow> DeliveryMarker \<Rightarrow> string \<Rightarrow> (HarnessProfile \<times> string) res" where
  "injection_text harness m body =
     (case profile_for harness of
        Inl e \<Rightarrow> Inl e
      | Inr p \<Rightarrow>
        (case encode_short m of
           Inl e \<Rightarrow> Inl e
         | Inr encoded_marker \<Rightarrow> map_sum id (Pair p) (render p (encoded_marker @ '' '' @ body))))"

text \<open>What follows once the surface is known: the callback, the effects, the evidence.\<close>

definition inject ::
  "'j Injector \<Rightarrow> Delivery \<Rightarrow> DeliveryMarker \<Rightarrow> HarnessProfile \<Rightarrow> string \<Rightarrow> string \<Rightarrow> 'j
    \<Rightarrow> SubmitResult res \<times> effect list \<times> 'j" where
  "inject ij d m p text surface j =
     (case (case ij_on_effect_pending ij of
              None \<Rightarrow> (None, [], j)
            | Some f \<Rightarrow> (case f (dl_delivery_id d) surface j of
                (x, j') \<Rightarrow> (x, [Pending (dl_delivery_id d) surface], j'))) of
        (Some e, tr, j') \<Rightarrow> (Inl e, tr, j')
      | (None, tr, j') \<Rightarrow>
        (case perform ij tr (surface_effects surface text p) of
           (Some e, tr') \<Rightarrow>
             (Inr (submit_result UNKNOWN (dl_delivery_id d) [] (''transport error: '' @ exc_text e)), tr', j')
         | (None, tr') \<Rightarrow> (await_proof ij tr' m (dl_delivery_id d), tr', j')))"

definition deliver ::
  "'j Injector \<Rightarrow> string \<Rightarrow> Delivery \<Rightarrow> string \<Rightarrow> string \<Rightarrow> string \<Rightarrow> string \<Rightarrow> 'j
    \<Rightarrow> SubmitResult res \<times> effect list \<times> 'j" where
  "deliver ij identity d body issued_at expires_at harness j =
     (case mint (ij_marker_authority ij) d issued_at expires_at of
        Inl e \<Rightarrow>
          if is_ValueError e
            then (Inr (submit_result NOT_SUBMITTED (dl_delivery_id d) [] (''marker error: '' @ exc_text e)), [], j)
          else (Inl e, [], j)
      | Inr m \<Rightarrow>
        (case injection_text harness m body of
           Inl e \<Rightarrow>
             if is_ValueError e
               then (Inr (submit_result NOT_SUBMITTED (dl_delivery_id d) []
                      (''harness profile error: '' @ exc_text e)), [], j)
             else (Inl e, [], j)
         | Inr (p, text) \<Rightarrow>
           (case ij_resolve ij identity of
              Inl e \<Rightarrow>
                (Inr (submit_result NOT_SUBMITTED (dl_delivery_id d) [] (''unresolved: '' @ exc_text e)), [], j)
            | Inr surface \<Rightarrow> inject ij d m p text surface j)))"

section \<open>Facts\<close>

fun is_surface :: "effect \<Rightarrow> bool" where
  "is_surface (SendText s t) = True"
| "is_surface (SubmitKey s k) = True"
| "is_surface _ = False"

definition touched :: "effect list \<Rightarrow> bool" where
  "touched tr = list_ex is_surface tr"

lemma outcome_submit_result [simp]:
  "is_proven (submit_result out d evs detail) = (out = SUBMITTED)"
  "may_requeue (submit_result out d evs detail) = (out = NOT_SUBMITTED)"
  "must_hold (submit_result out d evs detail) = (out = UNKNOWN)"
  "sm_delivery_id (submit_result out d evs detail) = d"
  "sm_source_events (submit_result out d evs detail) = evs"
  by (simp_all add: submit_result_def is_proven_def may_requeue_def must_hold_def)

lemma await_loop_Inl:
  "await_loop d seen names = Inl r \<Longrightarrow> is_proven r \<and> sm_delivery_id r = d
     \<and> set REQUIRED_EVENTS \<subseteq> set (sm_source_events r) \<and> set (sm_source_events r) \<subseteq> set seen \<union> set names"
proof (induction names arbitrary: seen)
  case (Cons name names)
  show ?case
  proof (cases "list_all (\<lambda>q. q \<in> set (if name \<in> set seen then seen else seen @ [name])) REQUIRED_EVENTS")
    case True
    with Cons.prems have "r = submit_result SUBMITTED d (if name \<in> set seen then seen else seen @ [name]) []"
      by (simp add: Let_def)
    with True show ?thesis by (auto simp: list_all_iff split: if_splits)
  next
    case False
    with Cons.prems have "await_loop d (if name \<in> set seen then seen else seen @ [name]) names = Inl r"
      by (simp add: Let_def)
    from Cons.IH[OF this] show ?thesis by (auto split: if_splits)
  qed
qed simp

lemma await_loop_Inr:
  "await_loop d seen names = Inr seen' \<Longrightarrow> \<not> set REQUIRED_EVENTS \<subseteq> set seen \<Longrightarrow>
   set seen' = set seen \<union> set names \<and> \<not> set REQUIRED_EVENTS \<subseteq> set seen'"
proof (induction names arbitrary: seen)
  case (Cons name names)
  let ?s = "if name \<in> set seen then seen else seen @ [name]"
  from Cons.prems(1) have s: "\<not> set REQUIRED_EVENTS \<subseteq> set ?s" "await_loop d ?s names = Inr seen'"
    by (auto simp: Let_def list_all_iff subset_iff split: if_splits)
  from Cons.IH[OF s(2,1)] show ?case by (auto split: if_splits)
qed simp

text \<open>Both required events, and only they, give a proven result.\<close>

lemma required_not_Nil: "\<not> set REQUIRED_EVENTS \<subseteq> {}"
  by (simp add: REQUIRED_EVENTS_def)

lemma classify_shortfall_outcome:
  "\<not> is_proven (classify_shortfall d seen)" "may_requeue (classify_shortfall d seen) \<longleftrightarrow> seen = []"
  "sm_delivery_id (classify_shortfall d seen) = d"
  by (simp_all add: classify_shortfall_def)

lemma await_proof_proven_iff:
  "(\<exists>r. await_proof ij tr m d = Inr r \<and> is_proven r) \<longleftrightarrow>
   set REQUIRED_EVENTS \<subseteq> set (fst (ij_observe ij tr m))"
proof (cases "ij_observe ij tr m")
  case (Pair names failure)
  show ?thesis
  proof (cases "await_loop d [] names")
    case (Inl r)
    with await_loop_Inl[OF Inl] Pair show ?thesis by (auto simp: await_proof_def)
  next
    case (Inr seen)
    with await_loop_Inr[OF Inr] required_not_Nil Pair show ?thesis
      by (auto simp: await_proof_def classify_shortfall_outcome split: option.splits)
  qed
qed

lemma await_proof_cases:
  assumes "ij_observe ij tr m = (names, failure)"
  shows "case await_proof ij tr m d of
      Inl e \<Rightarrow> failure = Some e \<and> \<not> set REQUIRED_EVENTS \<subseteq> set names
    | Inr r \<Rightarrow> sm_delivery_id r = d \<and> (may_requeue r \<longleftrightarrow> names = [] \<and> failure = None)
        \<and> (set REQUIRED_EVENTS \<subseteq> set names \<or> failure = None)"
proof (cases "await_loop d [] names")
  case (Inl r)
  with await_loop_Inl[OF Inl] assms have "names \<noteq> []" by auto
  with await_loop_Inl[OF Inl] Inl assms show ?thesis
    by (auto simp: await_proof_def is_proven_def may_requeue_def)
next
  case (Inr seen)
  from await_loop_Inr[OF Inr] required_not_Nil have s: "set seen = set names" "\<not> set REQUIRED_EVENTS \<subseteq> set names"
    by auto
  then have "seen = [] \<longleftrightarrow> names = []" by (metis set_empty2)
  with s Inr assms show ?thesis
    by (auto simp: await_proof_def classify_shortfall_outcome split: option.splits)
qed

lemma perform_trace:
  "perform ij tr es = (x, tr') \<Longrightarrow> \<exists>n. tr' = tr @ take n es \<and> (x = None \<longrightarrow> tr' = tr @ es)"
proof (induction es arbitrary: tr)
  case (Cons e es)
  show ?case
  proof (cases "call_effect ij tr e")
    case None
    with Cons.prems have "perform ij (tr @ [e]) es = (x, tr')" by simp
    from Cons.IH[OF this] obtain n where "tr' = (tr @ [e]) @ take n es" "x = None \<longrightarrow> tr' = (tr @ [e]) @ es"
      by blast
    then show ?thesis by (intro exI[of _ "Suc n"]) auto
  next
    case (Some y)
    with Cons.prems show ?thesis by (intro exI[of _ 1]) auto
  qed
qed simp

lemma key_effects_pending: "Pending a b \<notin> set (key_effects s n i ks)"
  by (induction ks arbitrary: i) auto

lemma surface_effects_pending: "Pending a b \<notin> set (surface_effects s t p)"
  by (simp add: surface_effects_def key_effects_pending)

text \<open>The first effect is the text, so an attempt that got to the surface has touched it.\<close>

lemma perform_touches:
  assumes "perform ij tr (surface_effects s t p) = (x, tr')"
  shows "\<exists>n. tr' = tr @ take n (surface_effects s t p) \<and> touched tr'"
proof -
  have "SendText s t \<in> set tr'"
  proof (cases "call_effect ij tr (SendText s t)")
    case None
    with assms have "perform ij (tr @ [SendText s t]) (key_effects s (hp_inter_key_delay_ms p) 0 (hp_submit_keys p)) = (x, tr')"
      by (simp add: surface_effects_def)
    from perform_trace[OF this] show ?thesis by auto
  next
    case (Some e)
    with assms show ?thesis by (auto simp: surface_effects_def)
  qed
  then have "touched tr'" by (force simp: touched_def list_ex_iff)
  with perform_trace[OF assms] show ?thesis by blast
qed

text \<open>Everything that is settled before a surface may be touched.\<close>

definition planned ::
  "'j Injector \<Rightarrow> string \<Rightarrow> Delivery \<Rightarrow> string \<Rightarrow> string \<Rightarrow> string \<Rightarrow> string
    \<Rightarrow> (DeliveryMarker \<times> HarnessProfile \<times> string \<times> string) option" where
  "planned ij identity d body issued_at expires_at harness =
     (case mint (ij_marker_authority ij) d issued_at expires_at of
        Inl _ \<Rightarrow> None
      | Inr m \<Rightarrow>
        (case injection_text harness m body of
           Inl _ \<Rightarrow> None
         | Inr (p, text) \<Rightarrow>
           (case ij_resolve ij identity of Inl _ \<Rightarrow> None | Inr s \<Rightarrow> Some (m, p, text, s))))"

lemma injection_text_error: "injection_text h m body = Inl e \<Longrightarrow> is_ValueError e"
proof -
  assume a: "injection_text h m body = Inl e"
  have "is_ValueError e" if "profile_for h = Inl e" for e
    using that by (auto simp: profile_for_def split: option.splits)
  moreover have "is_ValueError e" if "render p x = Inl e" for p x e
    using that by (auto simp: render_def split: if_splits)
  ultimately show ?thesis
    using a encode_short_error[of m] by (auto simp: injection_text_def map_sum_def split: sum.splits)
qed

lemma deliver_planned:
  "planned ij i d body t0 t1 h = Some (m, p, text, s) \<Longrightarrow> deliver ij i d body t0 t1 h j = inject ij d m p text s j"
  by (auto simp: planned_def deliver_def split: sum.splits prod.splits)

lemma deliver_unplanned:
  assumes "planned ij i d body t0 t1 h = None"
  shows "(\<exists>r. deliver ij i d body t0 t1 h j = (Inr r, [], j) \<and> may_requeue r \<and> sm_delivery_id r = dl_delivery_id d)
    \<or> (\<exists>e. deliver ij i d body t0 t1 h j = (Inl e, [], j)
        \<and> mint (ij_marker_authority ij) d t0 t1 = Inl e \<and> \<not> is_ValueError e)"
  using assms injection_text_error
  by (auto simp: planned_def deliver_def split: sum.splits prod.splits if_splits)

text \<open>The steps of an injection: the callback if there is one, then the surface.\<close>

definition pending_call :: "'j Injector \<Rightarrow> string \<Rightarrow> string \<Rightarrow> 'j \<Rightarrow> py_exc option \<times> effect list \<times> 'j" where
  "pending_call ij d s j =
     (case ij_on_effect_pending ij of
        None \<Rightarrow> (None, [], j)
      | Some f \<Rightarrow> (case f d s j of (x, j') \<Rightarrow> (x, [Pending d s], j')))"

lemma inject_eq:
  "inject ij d m p text s j =
     (case pending_call ij (dl_delivery_id d) s j of
        (Some e, tr, j') \<Rightarrow> (Inl e, tr, j')
      | (None, tr, j') \<Rightarrow>
        (case perform ij tr (surface_effects s text p) of
           (Some e, tr') \<Rightarrow>
             (Inr (submit_result UNKNOWN (dl_delivery_id d) [] (''transport error: '' @ exc_text e)), tr', j')
         | (None, tr') \<Rightarrow> (await_proof ij tr' m (dl_delivery_id d), tr', j')))"
  by (simp add: inject_def pending_call_def)

lemma pending_call_trace:
  "pending_call ij d s j = (x, tr, j') \<Longrightarrow>
   tr = (if ij_on_effect_pending ij = None then [] else [Pending d s]) \<and> (ij_on_effect_pending ij = None \<longrightarrow> x = None)"
  by (auto simp: pending_call_def split: option.splits prod.splits)

lemma pending_call_Some:
  "ij_on_effect_pending ij = Some f \<Longrightarrow>
   pending_call ij d s j = (fst (f d s j), [Pending d s], snd (f d s j))"
  by (simp add: pending_call_def split: prod.split)

lemma inject_cases:
  assumes "inject ij d m p text s j = (r, tr, j')"
  obtains (refused) e where "pending_call ij (dl_delivery_id d) s j = (Some e, tr, j')" "r = Inl e"
  | (broken) tr0 e where "pending_call ij (dl_delivery_id d) s j = (None, tr0, j')"
      "perform ij tr0 (surface_effects s text p) = (Some e, tr)"
      "r = Inr (submit_result UNKNOWN (dl_delivery_id d) [] (''transport error: '' @ exc_text e))"
  | (sent) tr0 where "pending_call ij (dl_delivery_id d) s j = (None, tr0, j')"
      "perform ij tr0 (surface_effects s text p) = (None, tr)" "r = await_proof ij tr m (dl_delivery_id d)"
  using assms by (auto simp: inject_eq split: prod.splits option.splits)

text \<open>With a callback: it runs first, and its exception ends the injection before the surface.\<close>

lemma inject_with_callback:
  assumes "ij_on_effect_pending ij = Some f" "inject ij d m p msg s j = (r, tr, j')"
  shows "(\<exists>e. f (dl_delivery_id d) s j = (Some e, j') \<and> r = Inl e \<and> tr = [Pending (dl_delivery_id d) s])
    \<or> (f (dl_delivery_id d) s j = (None, j') \<and> touched tr
        \<and> (\<exists>n. tr = Pending (dl_delivery_id d) s # take n (surface_effects s msg p)))"
proof -
  have go: ?thesis if "pending_call ij (dl_delivery_id d) s j = (None, tr0, j')"
    "perform ij tr0 (surface_effects s msg p) = (x, tr)" for tr0 x
  proof -
    from perform_touches[OF that(2)] obtain n where
      "tr = tr0 @ take n (surface_effects s msg p)" "touched tr" by blast
    with that(1) show ?thesis by (auto simp: pending_call_Some[OF assms(1)] prod_eq_iff)
  qed
  from assms(2) show ?thesis
  proof (cases rule: inject_cases)
    case (refused e)
    then show ?thesis by (simp add: pending_call_Some[OF assms(1)] prod_eq_iff)
  qed (use go in blast)+
qed

end
