(* ===== verification/Cmux_Journal.thy ===== *)
theory Cmux_Journal
  imports Core_Types "HOL-Library.Sublist"
begin

text \<open>
  \<open>plugins/cmux/yatagarasu_cmux/journal.py\<close>: the durable record of injection attempts. The table is the
  list of its raw rows, with the event names kept as JSON text as the column has them; clock
  readings are integers, which the code only stores and compares. A statement in \<open>_transaction\<close>
  commits or leaves the table as it was; the directory sync after the commit has no
  counterpart here. Rows that \<open>ORDER BY prepared_at\<close> leaves tied keep their table order.

  The concrete operations refine operations on a map from delivery to journal row, and every
  run of them follows the lifecycle.
\<close>

section \<open>Rows\<close>

datatype JournalState = PREPARED | INJECTED | ACKED | AMBIGUOUS

fun journal_state_value :: "JournalState \<Rightarrow> string" where
  "journal_state_value PREPARED = ''prepared''"
| "journal_state_value INJECTED = ''injected''"
| "journal_state_value ACKED = ''acked''"
| "journal_state_value AMBIGUOUS = ''ambiguous''"

definition journal_state_of_value :: "string \<Rightarrow> JournalState res" where
  "journal_state_of_value v =
     (case find (\<lambda>s. journal_state_value s = v) [PREPARED, INJECTED, ACKED, AMBIGUOUS] of
        None \<Rightarrow> Inl (ValueError ''not a valid JournalState'')
      | Some s \<Rightarrow> Inr s)"

definition TERMINAL :: "JournalState list" where
  "TERMINAL = [ACKED, AMBIGUOUS]"

fun LEGAL_TRANSITIONS :: "JournalState \<Rightarrow> JournalState list" where
  "LEGAL_TRANSITIONS PREPARED = [INJECTED, AMBIGUOUS]"
| "LEGAL_TRANSITIONS INJECTED = [ACKED]"
| "LEGAL_TRANSITIONS ACKED = []"
| "LEGAL_TRANSITIONS AMBIGUOUS = []"

record JournalRaw =
  jr_delivery_id :: string
  jr_binding_id :: string
  jr_seat_id :: string
  jr_marker :: string
  jr_state :: string
  jr_prepared_at :: int
  jr_settled_at :: "int option"
  jr_source_events :: string
  jr_detail :: string

record injection_journal =
  jn_rows :: "JournalRaw list"

record JournalRow =
  jw_delivery_id :: string
  jw_binding_id :: string
  jw_seat_id :: string
  jw_marker :: string
  jw_state :: JournalState
  jw_prepared_at :: int
  jw_settled_at :: "int option"
  jw_source_events :: "string list"
  jw_detail :: string

definition is_terminal :: "JournalRow \<Rightarrow> bool" where
  "is_terminal r = (jw_state r \<in> set TERMINAL)"

definition needs_reconciliation :: "JournalRow \<Rightarrow> bool" where
  "needs_reconciliation r = (jw_state r = PREPARED)"

section \<open>Reads\<close>

text \<open>\<open>tuple(json.loads(text))\<close> on each JSON value; an array with an element that is no text has no
  counterpart in the row type.\<close>

definition events_of_json :: "json \<Rightarrow> string list res" where
  "events_of_json v =
     (case v of
        JArr vs \<Rightarrow>
          if list_all (\<lambda>x. case x of JStr s \<Rightarrow> True | _ \<Rightarrow> False) vs
            then Inr (map (\<lambda>x. case x of JStr s \<Rightarrow> s | _ \<Rightarrow> []) vs)
          else Inl Unmodelled
      | JObj kvs \<Rightarrow> Inr (map fst kvs)
      | JStr s \<Rightarrow> Inr (map (\<lambda>c. [c]) s)
      | _ \<Rightarrow> Inl (TypeError ''object is not iterable''))"

definition to_row :: "JournalRaw \<Rightarrow> JournalRow res" where
  "to_row raw =
     (case journal_state_of_value (jr_state raw) of
        Inl e \<Rightarrow> Inl e
      | Inr st \<Rightarrow>
        (case loads (jr_source_events raw) of
           Inl e \<Rightarrow> Inl e
         | Inr v \<Rightarrow>
           (case events_of_json v of
              Inl e \<Rightarrow> Inl e
            | Inr evs \<Rightarrow> Inr
                \<lparr>jw_delivery_id = jr_delivery_id raw, jw_binding_id = jr_binding_id raw,
                 jw_seat_id = jr_seat_id raw, jw_marker = jr_marker raw, jw_state = st,
                 jw_prepared_at = jr_prepared_at raw, jw_settled_at = jr_settled_at raw,
                 jw_source_events = evs, jw_detail = jr_detail raw\<rparr>)))"

definition journal_get :: "injection_journal \<Rightarrow> string \<Rightarrow> JournalRow option res" where
  "journal_get j delivery_id =
     (case fetchone (\<lambda>r. jr_delivery_id r = delivery_id) (jn_rows j) of
        None \<Rightarrow> Inr None
      | Some raw \<Rightarrow> map_sum id Some (to_row raw))"

fun to_rows :: "JournalRaw list \<Rightarrow> JournalRow list res" where
  "to_rows [] = Inr []"
| "to_rows (r # rs) =
     (case to_row r of
        Inl e \<Rightarrow> Inl e
      | Inr w \<Rightarrow> (case to_rows rs of Inl e \<Rightarrow> Inl e | Inr ws \<Rightarrow> Inr (w # ws)))"

definition unsettled :: "injection_journal \<Rightarrow> JournalRow list res" where
  "unsettled j =
     to_rows (sort_key jr_prepared_at (filter (\<lambda>r. jr_state r = journal_state_value PREPARED) (jn_rows j)))"

section \<open>Writes\<close>

definition insert_journal :: "JournalRaw \<Rightarrow> injection_journal \<Rightarrow> injection_journal res" where
  "insert_journal r j =
     (if jr_delivery_id r \<in> jr_delivery_id ` set (jn_rows j) then Inl IntegrityError
      else Inr (j\<lparr>jn_rows := jn_rows j @ [r]\<rparr>))"

definition prepare ::
  "string \<Rightarrow> string \<Rightarrow> string \<Rightarrow> string \<Rightarrow> int \<Rightarrow> injection_journal \<Rightarrow> JournalRow res \<times> injection_journal" where
  "prepare delivery_id binding_id seat_id marker now j =
     (case insert_journal
        \<lparr>jr_delivery_id = delivery_id, jr_binding_id = binding_id, jr_seat_id = seat_id,
         jr_marker = marker, jr_state = journal_state_value PREPARED, jr_prepared_at = now,
         jr_settled_at = None, jr_source_events = ''[]'', jr_detail = []\<rparr> j of
        Inl _ \<Rightarrow>
          (case journal_get j delivery_id of
             Inl e \<Rightarrow> (Inl e, j)
           | Inr _ \<Rightarrow> (Inl (JournalError ''already journaled''), j))
      | Inr j' \<Rightarrow>
          (case journal_get j' delivery_id of
             Inl e \<Rightarrow> (Inl e, j')
           | Inr None \<Rightarrow> (Inl (AssertionError), j')
           | Inr (Some row) \<Rightarrow> (Inr row, j')))"

definition merge_events :: "string list \<Rightarrow> string list \<Rightarrow> string list" where
  "merge_events old new = foldl (\<lambda>m e. if e \<in> set m then m else m @ [e]) old new"

definition journal_settle ::
  "string \<Rightarrow> JournalState \<Rightarrow> int \<Rightarrow> string list \<Rightarrow> string \<Rightarrow> injection_journal
    \<Rightarrow> JournalRow res \<times> injection_journal" where
  "journal_settle delivery_id state now source_events detail j =
     (if state = PREPARED then (Inl (JournalError ''settle() cannot move a row back to prepared''), j)
      else case journal_get j delivery_id of
        Inl e \<Rightarrow> (Inl e, j)
      | Inr None \<Rightarrow> (Inl (JournalError ''was never prepared''), j)
      | Inr (Some row) \<Rightarrow>
          if jw_state row \<noteq> state \<and> state \<notin> set (LEGAL_TRANSITIONS (jw_state row))
            then (Inl (JournalError ''illegal transition''), j)
          else let merged_events = merge_events (jw_source_events row) source_events;
                   merged_detail = (if detail \<noteq> [] then detail else jw_detail row);
                   j' = j\<lparr>jn_rows := update_where (\<lambda>r. jr_delivery_id r = delivery_id)
                     (\<lambda>r. r\<lparr>jr_state := journal_state_value state, jr_settled_at := Some now,
                            jr_source_events := dumps_default (JArr (map JStr merged_events)),
                            jr_detail := merged_detail\<rparr>) (jn_rows j)\<rparr>
          in case journal_get j' delivery_id of
               Inl e \<Rightarrow> (Inl e, j')
             | Inr None \<Rightarrow> (Inl (AssertionError), j')
             | Inr (Some settled) \<Rightarrow> (Inr settled, j'))"

text \<open>\<open>_fsync_dir\<close> after a commit: an \<open>OSError\<close> of \<open>fsync\<close> is swallowed, one of \<open>open\<close> is not. A transaction whose body raises is
  rolled back; one whose directory sync raises is committed nevertheless. \<open>prepare\<close> with a sync that may
  fail; with one that works it is the operation above.\<close>

definition fsync_dir :: "(py_exc \<Rightarrow> bool) \<Rightarrow> py_exc option \<Rightarrow> py_exc option \<Rightarrow> py_exc option" where
  "fsync_dir is_OSError opened synced =
     (case opened of
        Some e \<Rightarrow> Some e
      | None \<Rightarrow> (case synced of None \<Rightarrow> None | Some e \<Rightarrow> if is_OSError e then None else Some e))"

definition journal_transaction ::
  "py_exc option \<Rightarrow> (injection_journal \<Rightarrow> injection_journal res) \<Rightarrow> injection_journal \<Rightarrow> unit res \<times> injection_journal" where
  "journal_transaction sync body j =
     (case body j of
        Inl e \<Rightarrow> (Inl e, j)
      | Inr j' \<Rightarrow> (case sync of Some e \<Rightarrow> (Inl e, j') | None \<Rightarrow> (Inr (), j')))"

definition prepare_synced ::
  "py_exc option \<Rightarrow> string \<Rightarrow> string \<Rightarrow> string \<Rightarrow> string \<Rightarrow> int \<Rightarrow> injection_journal
    \<Rightarrow> JournalRow res \<times> injection_journal" where
  "prepare_synced sync delivery_id binding_id seat_id marker now j =
     (case journal_transaction sync (insert_journal
        \<lparr>jr_delivery_id = delivery_id, jr_binding_id = binding_id, jr_seat_id = seat_id,
         jr_marker = marker, jr_state = journal_state_value PREPARED, jr_prepared_at = now,
         jr_settled_at = None, jr_source_events = ''[]'', jr_detail = []\<rparr>) j of
        (Inl e, j') \<Rightarrow>
          if e \<noteq> IntegrityError then (Inl e, j')
          else (case journal_get j' delivery_id of
             Inl e' \<Rightarrow> (Inl e', j')
           | Inr _ \<Rightarrow> (Inl (JournalError ''already journaled''), j'))
      | (Inr _, j') \<Rightarrow>
          (case journal_get j' delivery_id of
             Inl e \<Rightarrow> (Inl e, j')
           | Inr None \<Rightarrow> (Inl (AssertionError), j')
           | Inr (Some row) \<Rightarrow> (Inr row, j')))"

text \<open>A failing sync changes the answer, never the table.\<close>

lemma prepare_synced_table: "snd (prepare_synced sync d b s m now j) = snd (prepare d b s m now j)"
  by (auto simp: prepare_synced_def prepare_def journal_transaction_def split: sum.splits option.splits)

lemma prepare_synced_None: "prepare_synced None d b s m now j = prepare d b s m now j"
  by (auto simp: prepare_synced_def prepare_def journal_transaction_def insert_journal_def
      split: sum.splits option.splits if_splits)

lemma prepare_synced_Inr:
  "prepare_synced sync d b s m now j = (Inr row, j') \<Longrightarrow> sync = None \<and> prepare d b s m now j = (Inr row, j')"
  by (cases sync)
    (auto simp: prepare_synced_None, auto simp: prepare_synced_def journal_transaction_def split: sum.splits if_splits)

section \<open>Well-formed tables\<close>

lemma journal_state_roundtrip [simp]: "journal_state_of_value (journal_state_value s) = Inr s"
  by (cases s) (simp_all add: journal_state_of_value_def)

lemma journal_state_value_inject [simp]: "journal_state_value a = journal_state_value b \<longleftrightarrow> a = b"
  by (metis journal_state_roundtrip sum.inject(2))

text \<open>The raw row of a journal row, and the tables whose rows are all of this form.\<close>

definition raw_of :: "JournalRow \<Rightarrow> JournalRaw" where
  "raw_of w =
     \<lparr>jr_delivery_id = jw_delivery_id w, jr_binding_id = jw_binding_id w, jr_seat_id = jw_seat_id w,
      jr_marker = jw_marker w, jr_state = journal_state_value (jw_state w),
      jr_prepared_at = jw_prepared_at w, jr_settled_at = jw_settled_at w,
      jr_source_events = dumps_default (JArr (map JStr (jw_source_events w))), jr_detail = jw_detail w\<rparr>"

lemma canon_strings [simp]: "map (canon b) (map JStr evs) = map JStr evs"
  by simp

lemma to_row_raw_of [simp]: "to_row (raw_of w) = Inr w"
proof -
  have "loads (dumps_default (JArr (map JStr evs))) = Inr (JArr (map JStr evs))" for evs
    using loads_dumps_default[of "JArr (map JStr evs)"] by (simp add: list_all_iff o_def)
  then show ?thesis
    by (simp add: to_row_def raw_of_def events_of_json_def list_all_iff o_def)
qed

definition journal_of :: "JournalRow list \<Rightarrow> injection_journal" where
  "journal_of ws = \<lparr>jn_rows = map raw_of ws\<rparr>"

definition wf_journal :: "injection_journal \<Rightarrow> bool" where
  "wf_journal j = (distinct (map jr_delivery_id (jn_rows j)) \<and> (\<forall>r \<in> set (jn_rows j). \<exists>w. r = raw_of w))"

lemma raw_of_fields [simp]:
  "jr_delivery_id (raw_of w) = jw_delivery_id w" "jr_prepared_at (raw_of w) = jw_prepared_at w"
  "jr_state (raw_of w) = journal_state_value (jw_state w)"
  by (simp_all add: raw_of_def)

lemma wf_journalE:
  assumes "wf_journal j"
  obtains ws where "j = journal_of ws" "distinct (map jw_delivery_id ws)"
proof -
  have "\<forall>r \<in> set (jn_rows j). \<exists>w. r = raw_of w" using assms by (simp add: wf_journal_def)
  then obtain ws where ws: "jn_rows j = map raw_of ws"
    by (metis ex_map_conv)
  moreover from this assms have "distinct (map jw_delivery_id ws)" by (simp add: wf_journal_def o_def)
  ultimately show ?thesis by (intro that[of ws]) (simp_all add: journal_of_def)
qed

lemma wf_journal_of: "distinct (map jw_delivery_id ws) \<Longrightarrow> wf_journal (journal_of ws)"
  by (auto simp: wf_journal_def journal_of_def o_def)

lemma fetchone_map: "fetchone P (map f xs) = map_option f (fetchone (\<lambda>x. P (f x)) xs)"
  by (induction xs) auto

lemma journal_get_of [simp]: "journal_get (journal_of ws) d = Inr (fetchone (\<lambda>w. jw_delivery_id w = d) ws)"
  by (simp add: journal_get_def journal_of_def fetchone_map split: option.split)

lemma to_rows_raw_of [simp]: "to_rows (map raw_of ws) = Inr ws"
  by (induction ws) simp_all

lemma unsettled_of:
  "unsettled (journal_of ws) = Inr (sort_key jw_prepared_at (filter needs_reconciliation ws))"
proof -
  have "filter (\<lambda>r. jr_state r = journal_state_value PREPARED) (map raw_of ws) =
      map raw_of (filter needs_reconciliation ws)"
    by (induction ws) (simp_all add: needs_reconciliation_def del: journal_state_value.simps)
  then show ?thesis
    by (simp add: unsettled_def journal_of_def sort_key_map o_def del: journal_state_value.simps)
qed

section \<open>The abstract journal\<close>

text \<open>A map from delivery to row; preparing adds an entry, settling moves one along the lifecycle.\<close>

type_synonym journal_map = "string \<rightharpoonup> JournalRow"

definition journal_map :: "injection_journal \<Rightarrow> journal_map" where
  "journal_map j d = (case journal_get j d of Inl _ \<Rightarrow> None | Inr r \<Rightarrow> r)"

definition prepared_row :: "string \<Rightarrow> string \<Rightarrow> string \<Rightarrow> string \<Rightarrow> int \<Rightarrow> JournalRow" where
  "prepared_row d b s m now =
     \<lparr>jw_delivery_id = d, jw_binding_id = b, jw_seat_id = s, jw_marker = m, jw_state = PREPARED,
      jw_prepared_at = now, jw_settled_at = None, jw_source_events = [], jw_detail = []\<rparr>"

definition settled_row :: "JournalState \<Rightarrow> int \<Rightarrow> string list \<Rightarrow> string \<Rightarrow> JournalRow \<Rightarrow> JournalRow" where
  "settled_row st now evs detail w =
     w\<lparr>jw_state := st, jw_settled_at := Some now,
       jw_source_events := jw_source_events w @ filter (\<lambda>e. e \<notin> set (jw_source_events w)) (rev (remdups (rev evs))),
       jw_detail := (if detail = [] then jw_detail w else detail)\<rparr>"

definition spec_prepare ::
  "string \<Rightarrow> string \<Rightarrow> string \<Rightarrow> string \<Rightarrow> int \<Rightarrow> journal_map \<Rightarrow> JournalRow res \<times> journal_map" where
  "spec_prepare d b s m now M =
     (case M d of
        Some _ \<Rightarrow> (Inl (JournalError ''already journaled''), M)
      | None \<Rightarrow> (Inr (prepared_row d b s m now), M(d \<mapsto> prepared_row d b s m now)))"

definition spec_settle ::
  "string \<Rightarrow> JournalState \<Rightarrow> int \<Rightarrow> string list \<Rightarrow> string \<Rightarrow> journal_map \<Rightarrow> JournalRow res \<times> journal_map" where
  "spec_settle d st now evs detail M =
     (if st = PREPARED then (Inl (JournalError ''settle() cannot move a row back to prepared''), M)
      else case M d of
        None \<Rightarrow> (Inl (JournalError ''was never prepared''), M)
      | Some w \<Rightarrow>
          if st = jw_state w \<or> st \<in> set (LEGAL_TRANSITIONS (jw_state w))
            then (Inr (settled_row st now evs detail w), M(d \<mapsto> settled_row st now evs detail w))
          else (Inl (JournalError ''illegal transition''), M))"

lemma merge_events_eq:
  "merge_events old new = old @ filter (\<lambda>e. e \<notin> set old) (rev (remdups (rev new)))"
proof (induction new rule: rev_induct)
  case Nil
  then show ?case by (simp add: merge_events_def)
next
  case (snoc e new)
  then show ?case by (auto simp: merge_events_def)
qed

lemma journal_map_of: "journal_map (journal_of ws) d = fetchone (\<lambda>w. jw_delivery_id w = d) ws"
  by (simp add: journal_map_def)

lemma prepare_of:
  "prepare d b s m now (journal_of ws) =
     (if d \<in> jw_delivery_id ` set ws then (Inl (JournalError ''already journaled''), journal_of ws)
      else (Inr (prepared_row d b s m now), journal_of (ws @ [prepared_row d b s m now])))"
proof -
  have raw: "\<lparr>jr_delivery_id = d, jr_binding_id = b, jr_seat_id = s, jr_marker = m,
      jr_state = journal_state_value PREPARED, jr_prepared_at = now, jr_settled_at = None,
      jr_source_events = ''[]'', jr_detail = []\<rparr> = raw_of (prepared_row d b s m now)"
    by (simp add: raw_of_def prepared_row_def dumps_default_def)
  have ins: "insert_journal (raw_of w) (journal_of ws) =
      (if jw_delivery_id w \<in> jw_delivery_id ` set ws then Inl IntegrityError else Inr (journal_of (ws @ [w])))" for w
    by (auto simp: insert_journal_def journal_of_def image_iff)
  have "fetchone (\<lambda>w. jw_delivery_id w = d) ws = None" if "d \<notin> jw_delivery_id ` set ws"
    using that by (rule fetchone_absent)
  moreover have "jw_delivery_id (prepared_row d b s m now) = d" by (simp add: prepared_row_def)
  ultimately show ?thesis
    unfolding prepare_def raw by (simp add: ins fetchone_append)
qed

lemma journal_settle_of:
  assumes "distinct (map jw_delivery_id ws)"
  shows "journal_settle d st now evs detail (journal_of ws) =
    (if st = PREPARED then (Inl (JournalError ''settle() cannot move a row back to prepared''), journal_of ws)
     else case fetchone (\<lambda>w. jw_delivery_id w = d) ws of
       None \<Rightarrow> (Inl (JournalError ''was never prepared''), journal_of ws)
     | Some w \<Rightarrow>
         if st = jw_state w \<or> st \<in> set (LEGAL_TRANSITIONS (jw_state w))
           then (Inr (settled_row st now evs detail w),
                 journal_of (update_where (\<lambda>w. jw_delivery_id w = d) (settled_row st now evs detail) ws))
         else (Inl (JournalError ''illegal transition''), journal_of ws))"
proof (cases "fetchone (\<lambda>w. jw_delivery_id w = d) ws")
  case None
  then show ?thesis by (simp add: journal_settle_def)
next
  case (Some w)
  let ?f = "\<lambda>r. r\<lparr>jr_state := journal_state_value st, jr_settled_at := Some now,
      jr_source_events := dumps_default (JArr (map JStr (merge_events (jw_source_events w) evs))),
      jr_detail := (if detail \<noteq> [] then detail else jw_detail w)\<rparr>"
  have w: "w \<in> set ws" "jw_delivery_id w = d" using fetchone_SomeD[OF Some] by auto
  have one: "v = w" if "v \<in> set ws" "jw_delivery_id v = d" for v
    using that w assms by (auto simp: distinct_map dest: inj_onD)
  have "update_where (\<lambda>r. jr_delivery_id r = d) ?f (map raw_of ws) =
      map raw_of (update_where (\<lambda>w. jw_delivery_id w = d) (settled_row st now evs detail) ws)"
    using one by (auto simp: update_where_def settled_row_def raw_of_def merge_events_eq)
  then have upd: "journal_of ws\<lparr>jn_rows := update_where (\<lambda>r. jr_delivery_id r = d) ?f (jn_rows (journal_of ws))\<rparr> =
      journal_of (update_where (\<lambda>w. jw_delivery_id w = d) (settled_row st now evs detail) ws)"
    by (simp add: journal_of_def)
  have "fetchone (\<lambda>w. jw_delivery_id w = d)
      (update_where (\<lambda>w. jw_delivery_id w = d) (settled_row st now evs detail) ws) =
      Some (settled_row st now evs detail w)"
    using fetchone_update_where_key[OF assms, of "settled_row st now evs detail" d d "\<lambda>_. True"] Some
    by (simp add: settled_row_def)
  then show ?thesis
    by (auto simp: journal_settle_def Some upd)
qed

lemma journal_map_snoc:
  "jw_delivery_id w \<notin> jw_delivery_id ` set ws \<Longrightarrow>
   journal_map (journal_of (ws @ [w])) = (journal_map (journal_of ws))(jw_delivery_id w \<mapsto> w)"
proof
  fix x
  assume "jw_delivery_id w \<notin> jw_delivery_id ` set ws"
  then have "fetchone (\<lambda>v. jw_delivery_id v = jw_delivery_id w) ws = None"
    by (rule fetchone_absent)
  then show "journal_map (journal_of (ws @ [w])) x = ((journal_map (journal_of ws))(jw_delivery_id w \<mapsto> w)) x"
    by (cases "fetchone (\<lambda>v. jw_delivery_id v = x) ws") (auto simp: journal_map_of fetchone_append)
qed

lemma journal_map_settled:
  assumes "distinct (map jw_delivery_id ws)" "fetchone (\<lambda>w. jw_delivery_id w = d) ws = Some w"
  shows "journal_map (journal_of (update_where (\<lambda>w. jw_delivery_id w = d) (settled_row st now evs detail) ws)) =
    (journal_map (journal_of ws))(d \<mapsto> settled_row st now evs detail w)"
proof
  fix x
  show "journal_map (journal_of (update_where (\<lambda>w. jw_delivery_id w = d) (settled_row st now evs detail) ws)) x =
    ((journal_map (journal_of ws))(d \<mapsto> settled_row st now evs detail w)) x"
    using fetchone_update_where_key[OF assms(1), of "settled_row st now evs detail" x d "\<lambda>_. True"] assms(2)
    by (cases "fetchone (\<lambda>w. jw_delivery_id w = x) ws") (auto simp: journal_map_of settled_row_def)
qed

lemma settled_row_id [simp]: "jw_delivery_id (settled_row st now evs detail w) = jw_delivery_id w"
  by (simp add: settled_row_def)

lemma map_id_settled:
  "map jw_delivery_id (update_where P (settled_row st now evs detail) ws) = map jw_delivery_id ws"
  by (rule update_where_map_key) simp

interpretation jtab: keyed_table jn_rows "jn_rows_update" jr_delivery_id insert_journal
  by unfold_locales (auto simp: insert_journal_def split: if_splits)

section \<open>The journal as a transition system\<close>

inductive journal_step :: "injection_journal \<Rightarrow> injection_journal \<Rightarrow> bool" where
  prepare_step: "journal_step j (snd (prepare d b s m now j))"
| settle_step: "journal_step j (snd (journal_settle d st now evs detail j))"

inductive_cases journal_stepE: "journal_step j j'"

text \<open>What a row keeps: identity fields, evidence already recorded, and its place in the lifecycle.\<close>

definition row_advances :: "JournalRow \<Rightarrow> JournalRow \<Rightarrow> bool" where
  "row_advances w w' =
     (jw_delivery_id w' = jw_delivery_id w \<and> jw_binding_id w' = jw_binding_id w
      \<and> jw_seat_id w' = jw_seat_id w \<and> jw_marker w' = jw_marker w \<and> jw_prepared_at w' = jw_prepared_at w
      \<and> (\<lambda>a b. b \<in> set (LEGAL_TRANSITIONS a))\<^sup>*\<^sup>* (jw_state w) (jw_state w')
      \<and> prefix (jw_source_events w) (jw_source_events w'))"

definition journal_advances :: "injection_journal \<Rightarrow> injection_journal \<Rightarrow> bool" where
  "journal_advances j j' =
     (\<forall>d w. journal_get j d = Inr (Some w) \<longrightarrow>
        (\<exists>w'. journal_get j' d = Inr (Some w') \<and> row_advances w w'))"

lemma row_advances_refl: "row_advances w w"
  by (simp add: row_advances_def)

lemma row_advances_trans: "row_advances u v \<Longrightarrow> row_advances v w \<Longrightarrow> row_advances u w"
  by (auto simp: row_advances_def intro: prefix_order.trans)

lemma row_advances_settled:
  "st = jw_state w \<or> st \<in> set (LEGAL_TRANSITIONS (jw_state w)) \<Longrightarrow>
   row_advances w (settled_row st now evs detail w)"
  by (auto simp: row_advances_def settled_row_def)

lemma journal_step_wf: "wf_journal j \<Longrightarrow> journal_step j j' \<Longrightarrow> wf_journal j'"
proof (elim journal_stepE wf_journalE)
  fix ws d b s m now
  assume "distinct (map jw_delivery_id ws)" "j' = snd (prepare d b s m now j)" "j = journal_of ws"
  then show ?thesis
    by (auto simp: prepare_of prepared_row_def image_iff intro!: wf_journal_of)
next
  fix ws d st now evs detail
  assume a: "distinct (map jw_delivery_id ws)" "j' = snd (journal_settle d st now evs detail j)" "j = journal_of ws"
  then show ?thesis
    by (auto simp: journal_settle_of map_id_settled intro!: wf_journal_of split: option.split)
qed

lemma journal_step_advances: "wf_journal j \<Longrightarrow> journal_step j j' \<Longrightarrow> journal_advances j j'"
proof (elim journal_stepE wf_journalE)
  fix ws d b s m now
  assume "distinct (map jw_delivery_id ws)" "j' = snd (prepare d b s m now j)" "j = journal_of ws"
  then show ?thesis
    by (auto simp: journal_advances_def prepare_of fetchone_append row_advances_refl split: option.split)
next
  fix ws d st now evs detail
  assume a: "distinct (map jw_delivery_id ws)" "j' = snd (journal_settle d st now evs detail j)" "j = journal_of ws"
  show ?thesis
  proof (cases "j' = j")
    case True
    then show ?thesis by (auto simp: journal_advances_def intro: row_advances_refl)
  next
    case False
    with a obtain w where w: "fetchone (\<lambda>w. jw_delivery_id w = d) ws = Some w"
      "st = jw_state w \<or> st \<in> set (LEGAL_TRANSITIONS (jw_state w))"
      "j' = journal_of (update_where (\<lambda>w. jw_delivery_id w = d) (settled_row st now evs detail) ws)"
      by (auto simp: journal_settle_of split: option.splits if_splits)
    show ?thesis
      using fetchone_update_where_key[OF a(1), of "settled_row st now evs detail" _ d "\<lambda>_. True"] w
      by (auto simp: journal_advances_def a(3) row_advances_refl intro!: row_advances_settled)
  qed
qed

lemma journal_advances_trans: "journal_advances i j \<Longrightarrow> journal_advances j k \<Longrightarrow> journal_advances i k"
  unfolding journal_advances_def using row_advances_trans by blast

interpretation journal: progress_system "\<lambda>j. jn_rows j = []" journal_step wf_journal journal_advances
  by unfold_locales
    (auto simp: wf_journal_def[of "\<lparr>jn_rows = _\<rparr>"] journal_advances_def[of s s for s]
      intro: journal_step_wf journal_step_advances row_advances_refl journal_advances_trans,
     simp add: wf_journal_def)

text \<open>Each operation against the abstract one.\<close>

lemma wf_journal_get: "wf_journal j \<Longrightarrow> journal_get j d = Inr (journal_map j d)"
  by (auto elim!: wf_journalE simp: journal_map_of)

lemma prepare_refines:
  assumes "wf_journal j"
  shows "map_prod id journal_map (prepare d b s m now j) = spec_prepare d b s m now (journal_map j)"
proof -
  from assms obtain ws where ws: "j = journal_of ws" by (rule wf_journalE)
  have id: "jw_delivery_id (prepared_row d b s m now) = d" by (simp add: prepared_row_def)
  show ?thesis
  proof (cases "fetchone (\<lambda>w. jw_delivery_id w = d) ws")
    case None
    then have "d \<notin> jw_delivery_id ` set ws" by (auto simp: fetchone_None_iff)
    with None journal_map_snoc[of "prepared_row d b s m now" ws] show ?thesis
      by (simp add: ws prepare_of spec_prepare_def journal_map_of[of ws d] id)
  next
    case (Some w)
    from fetchone_SomeD[OF Some] Some show ?thesis
      by (auto simp: ws prepare_of spec_prepare_def journal_map_of[of ws d])
  qed
qed

lemma journal_settle_refines:
  assumes "wf_journal j"
  shows "map_prod id journal_map (journal_settle d st now evs detail j) =
    spec_settle d st now evs detail (journal_map j)"
proof -
  from assms obtain ws where ws: "j = journal_of ws" "distinct (map jw_delivery_id ws)" by (rule wf_journalE)
  then show ?thesis
    using journal_map_settled[OF ws(2)]
    by (auto simp: spec_settle_def journal_settle_of journal_map_of[of ws d] split: option.split)
qed

lemma unsettled_prepared:
  assumes "wf_journal j"
  shows "\<exists>rows. unsettled j = Inr rows \<and> sorted (map jw_prepared_at rows)
      \<and> set rows = {w. \<exists>d. journal_map j d = Some w \<and> jw_state w = PREPARED}"
proof -
  from assms obtain ws where ws: "j = journal_of ws" "distinct (map jw_delivery_id ws)" by (rule wf_journalE)
  then have "(\<exists>d. journal_map j d = Some w) \<longleftrightarrow> w \<in> set ws" for w
    using fetchone_key_iff[OF ws(2)] by (auto simp: journal_map_of)
  then show ?thesis by (auto simp: ws(1) unsettled_of needs_reconciliation_def)
qed

section \<open>Properties\<close>

text \<open>C26: The journal implements a map from delivery to row. On every table that preparing and settling
  produce, a read returns the entry of the map, \<open>prepare\<close> adds an entry or refuses with the table
  unchanged when the delivery is already journaled, \<open>settle\<close> moves an entry along the lifecycle or
  refuses with the table unchanged, and the recovery scan lists exactly the prepared rows by
  preparation time.\<close>

theorem journal_refines_map:
  assumes "jn_rows j0 = []" "journal_step\<^sup>*\<^sup>* j0 j"
  shows "journal_get j d = Inr (journal_map j d)
    \<and> map_prod id journal_map (prepare d b s m now j) = spec_prepare d b s m now (journal_map j)
    \<and> map_prod id journal_map (journal_settle d st now evs detail j) = spec_settle d st now evs detail (journal_map j)
    \<and> (\<exists>rows. unsettled j = Inr rows \<and> sorted (map jw_prepared_at rows)
        \<and> set rows = {w. \<exists>d. journal_map j d = Some w \<and> jw_state w = PREPARED})"
  using journal.reachable_inv[OF assms]
  by (intro conjI wf_journal_get prepare_refines journal_settle_refines unsettled_prepared)

text \<open>C27: Whatever is run, a journaled delivery stays journaled with its binding, seat, marker and
  preparation time; its state only moves along the lifecycle prepared, injected, acked or
  prepared, ambiguous; and the recorded evidence is only extended. A terminal row keeps its state.\<close>

theorem journal_lifecycle:
  assumes "jn_rows j0 = []" "journal_step\<^sup>*\<^sup>* j0 j" "journal_step\<^sup>*\<^sup>* j j'"
    and "journal_get j d = Inr (Some w)"
  shows "\<exists>w'. journal_get j' d = Inr (Some w') \<and> row_advances w w' \<and> (is_terminal w \<longrightarrow> jw_state w' = jw_state w)"
proof -
  obtain w' where w': "journal_get j' d = Inr (Some w')" "row_advances w w'"
    using journal.reachable_le[OF assms(1,2,3)] assms(4) by (auto simp: journal_advances_def)
  have "a = jw_state w'" if "(\<lambda>a b. b \<in> set (LEGAL_TRANSITIONS a))\<^sup>*\<^sup>* a (jw_state w')" "a \<in> set TERMINAL" for a
    using that by (cases rule: converse_rtranclpE) (auto simp: TERMINAL_def)
  from this[of "jw_state w"] w' show ?thesis by (auto simp: row_advances_def is_terminal_def)
qed

text \<open>Witnesses: one attempt prepared, injected and acknowledged.\<close>

definition journal_prepared :: injection_journal where
  "journal_prepared = snd (prepare ''d1'' ''b1'' ''seat'' ''ygr1s'' 5 \<lparr>jn_rows = []\<rparr>)"

definition journal_injected :: injection_journal where
  "journal_injected = snd (journal_settle ''d1'' INJECTED 6 [''surface.input_sent''] [] journal_prepared)"

lemma journal_example_steps:
  "journal_step\<^sup>*\<^sup>* \<lparr>jn_rows = []\<rparr> journal_prepared" "journal_step\<^sup>*\<^sup>* journal_prepared journal_injected"
  unfolding journal_injected_def journal_prepared_def
  by (blast intro: r_into_rtranclp prepare_step settle_step)+

text \<open>Witness of C26.\<close>

theorem journal_refines_map_witness:
  "map_prod id journal_map (prepare ''d1'' ''b2'' ''seat'' ''m'' 7 journal_prepared) =
     (Inl (JournalError ''already journaled''), journal_map journal_prepared)"
proof -
  have "journal_map journal_prepared ''d1'' \<noteq> None" by code_simp
  then show ?thesis
    using journal_refines_map[OF _ journal_example_steps(1), of "''d1''" "''b2''" "''seat''" "''m''" 7]
    by (auto simp: spec_prepare_def)
qed

text \<open>Witness of C27.\<close>

theorem journal_lifecycle_witness:
  "\<exists>w'. journal_get journal_injected ''d1'' = Inr (Some w')
     \<and> row_advances (prepared_row ''d1'' ''b1'' ''seat'' ''ygr1s'' 5) w'"
proof -
  have "journal_get journal_prepared ''d1'' = Inr (Some (prepared_row ''d1'' ''b1'' ''seat'' ''ygr1s'' 5))"
    by code_simp
  from journal_lifecycle[OF _ journal_example_steps this] show ?thesis by auto
qed

end
