(* ===== verification/Cmux_Injection.thy ===== *)
theory Cmux_Injection
  imports Cmux_Injector Cmux_Journal
begin

text \<open>
  The promises of an injection: what a verdict means, in which order the effects happen, and,
  with the journal's \<open>prepare\<close> as the callback before the effect, that a delivery is injected at most
  once whatever is retried.
\<close>

section \<open>Verdicts\<close>

text \<open>C23: An injection reports \<open>submitted\<close> exactly when the marker was minted, the msg rendered and the
  surface resolved, the callback and every transport call returned, and both required host events were
  observed. Seeing only one of them, or an error anywhere, never counts as success.\<close>

theorem deliver_proven_iff:
  "(\<exists>r tr j'. deliver ij identity d body t0 t1 harness j = (Inr r, tr, j') \<and> is_proven r) \<longleftrightarrow>
   (\<exists>m p msg s tr0 tr j'. planned ij identity d body t0 t1 harness = Some (m, p, msg, s)
      \<and> pending_call ij (dl_delivery_id d) s j = (None, tr0, j')
      \<and> perform ij tr0 (surface_effects s msg p) = (None, tr)
      \<and> {EVENT_INPUT_SENT, EVENT_PROMPT_SUBMITTED} \<subseteq> set (fst (ij_observe ij tr m)))"
  (is "?L \<longleftrightarrow> ?R")
proof (cases "planned ij identity d body t0 t1 harness")
  case None
  then show ?thesis
    using deliver_unplanned[OF None, of j] by (auto simp: is_proven_def may_requeue_def)
next
  case (Some plan)
  obtain m p msg s where plan: "plan = (m, p, msg, s)" by (cases plan) auto
  note dp = deliver_planned[OF Some[unfolded plan], of j]
  have req: "set REQUIRED_EVENTS = {EVENT_INPUT_SENT, EVENT_PROMPT_SUBMITTED}"
    by (simp add: REQUIRED_EVENTS_def)
  show ?thesis
  proof
    assume ?L
    then obtain r tr j' where r: "inject ij d m p msg s j = (Inr r, tr, j')" "is_proven r"
      using dp by auto
    from r(1) show ?R
    proof (cases rule: inject_cases)
      case (sent tr0)
      with r(2) have "set REQUIRED_EVENTS \<subseteq> set (fst (ij_observe ij tr m))"
        using await_proof_proven_iff[of ij tr m "dl_delivery_id d"] by metis
      with sent req Some plan show ?thesis by auto
    qed (use r(2) in auto)
  next
    assume ?R
    with Some plan obtain tr0 tr j' where
      q: "pending_call ij (dl_delivery_id d) s j = (None, tr0, j')"
        "perform ij tr0 (surface_effects s msg p) = (None, tr)"
        "set REQUIRED_EVENTS \<subseteq> set (fst (ij_observe ij tr m))"
      by (auto simp: req)
    then have "inject ij d m p msg s j = (await_proof ij tr m (dl_delivery_id d), tr, j')"
      by (simp add: inject_eq)
    moreover obtain r where "await_proof ij tr m (dl_delivery_id d) = Inr r" "is_proven r"
      using q(3) await_proof_proven_iff by metis
    ultimately show ?L using dp by auto
  qed
qed

text \<open>C24: A verdict that allows the message to be queued again is safe: either no surface was touched,
  or the whole effect was carried out and the host reported not a single event. A verdict is always
  about the delivery it was asked for.\<close>

theorem deliver_requeue_safe:
  assumes "deliver ij identity d body t0 t1 harness j = (Inr r, tr, j')"
  shows "sm_delivery_id r = dl_delivery_id d
    \<and> (may_requeue r \<longrightarrow> \<not> touched tr \<or> (\<exists>m. ij_observe ij tr m = ([], None)))"
proof (cases "planned ij identity d body t0 t1 harness")
  case None
  then show ?thesis using deliver_unplanned[OF None, of j] assms by (auto simp: touched_def)
next
  case (Some plan)
  obtain m p msg s where plan: "plan = (m, p, msg, s)" by (cases plan) auto
  have "inject ij d m p msg s j = (Inr r, tr, j')"
    using assms deliver_planned[OF Some[unfolded plan], of j] by simp
  then show ?thesis
  proof (cases rule: inject_cases)
    case (sent tr0)
    obtain names failure where o: "ij_observe ij tr m = (names, failure)" by fastforce
    have "await_proof ij tr m (dl_delivery_id d) = Inr r" using sent(3) by simp
    with await_proof_cases[OF o, of "dl_delivery_id d"] o show ?thesis by auto
  qed auto
qed

text \<open>Witness of C24.\<close>

definition sample_injector :: "string list \<Rightarrow> unit Injector" where
  "sample_injector names =
     \<lparr>ij_resolve = (\<lambda>_. Inr ''surface:1''), ij_transport = (\<lambda>_ _. None), ij_observe = (\<lambda>_ _. (names, None)),
      ij_marker_authority = sample_authority, ij_on_effect_pending = None\<rparr>"

lemma sample_planned:
  assumes "ij_marker_authority ij = sample_authority" "ij_resolve ij = (\<lambda>_. Inr ''surface:1'')"
  shows "\<exists>m p msg. planned ij ''ana'' sample_delivery ''hi'' ''2026-07-01T00:00:00Z'' ''2026-07-01T00:01:00Z'' ''codex'' =
     Some (m, p, msg, ''surface:1'')"
proof -
  obtain m where m: "mint sample_authority sample_delivery ''2026-07-01T00:00:00Z'' ''2026-07-01T00:01:00Z'' = Inr m"
    using sample_minted by blast
  have "mk_delivery_id m = ''d1'' \<and> mk_binding_id m = ''b1''"
    using m by (auto simp: mint_def sample_delivery_def Let_def split: sum.splits if_splits)
  moreover from minted_signature_digest[OF m] obtain bs where "mk_signature m = hex bs" "length bs = 32"
    by (rule is_hex_digestE)
  ultimately obtain t where t: "encode_short m = Inr t"
    by (auto simp: encode_short_Inr_iff is_token_id_def is_token_char_def)
  with m show ?thesis
    using profile_for_value[of CODEX] by (simp add: planned_def assms injection_text_def render_def)
qed

theorem deliver_requeue_safe_witness:
  "\<exists>r tr. deliver (sample_injector []) ''ana'' sample_delivery ''hi'' ''2026-07-01T00:00:00Z'' ''2026-07-01T00:01:00Z''
      ''codex'' () = (Inr r, tr, ()) \<and> may_requeue r \<and> sm_delivery_id r = ''d1'' \<and> touched tr"
proof -
  obtain m p msg where "planned (sample_injector []) ''ana'' sample_delivery ''hi'' ''2026-07-01T00:00:00Z''
      ''2026-07-01T00:01:00Z'' ''codex'' = Some (m, p, msg, ''surface:1'')"
    using sample_planned[of "sample_injector []"] by (auto simp: sample_injector_def)
  note dp = deliver_planned[OF this, of "()"]
  have "perform (sample_injector []) tr es = (None, tr @ es)" for tr es
    by (induction es arbitrary: tr) (simp_all add: call_effect_def sample_injector_def split: effect.split)
  then have "inject (sample_injector []) sample_delivery m p msg ''surface:1'' () =
      (Inr (classify_shortfall ''d1'' []), surface_effects ''surface:1'' msg p, ())"
    by (simp add: inject_eq pending_call_def)
      (simp add: sample_injector_def sample_delivery_def await_proof_def)
  with dp have d: "deliver (sample_injector []) ''ana'' sample_delivery ''hi'' ''2026-07-01T00:00:00Z'' ''2026-07-01T00:01:00Z''
      ''codex'' () = (Inr (classify_shortfall ''d1'' []), surface_effects ''surface:1'' msg p, ())" by simp
  from deliver_requeue_safe[OF d] d show ?thesis
    by (auto simp: classify_shortfall_outcome touched_def surface_effects_def sample_delivery_def)
qed

section \<open>Order of effects\<close>

text \<open>With a callback configured, whatever happens, the trace of an injection is empty or starts
  with that callback, and what follows is an initial part of: send the msg once, then the submit keys
  of the profile in order. An injection whose callback raises touches no surface.\<close>

theorem deliver_pending_first:
  assumes "ij_on_effect_pending ij = Some f" and "deliver ij identity d body t0 t1 harness j = (r, tr, j')"
  shows "tr = [] \<or> (\<exists>s msg k n. tr = Pending (dl_delivery_id d) s # take n (surface_effects s msg (profiles k))
    \<and> (case f (dl_delivery_id d) s j of
         (Some e, i) \<Rightarrow> r = Inl e \<and> tr = [Pending (dl_delivery_id d) s] \<and> j' = i
       | (None, i) \<Rightarrow> touched tr \<and> j' = i))"
proof (cases "planned ij identity d body t0 t1 harness")
  case None
  then show ?thesis using deliver_unplanned[OF None, of j] assms(2) by auto
next
  case (Some plan)
  obtain m p msg s where plan: "plan = (m, p, msg, s)" by (cases plan) auto
  have "injection_text harness m body = Inr (p, msg)"
    using Some plan by (auto simp: planned_def split: sum.splits prod.splits)
  then have "\<exists>k. p = profiles k"
    by (auto simp: injection_text_def render_def split: sum.splits if_splits dest!: profile_for_Inr)
  then obtain k where k: "p = profiles k" by blast
  have "inject ij d m p msg s j = (r, tr, j')"
    using assms(2) deliver_planned[OF Some[unfolded plan], of j] by simp
  from inject_with_callback[OF assms(1) this] show ?thesis
  proof (elim disjE exE conjE)
    fix e
    assume a: "f (dl_delivery_id d) s j = (Some e, j')" "r = Inl e" "tr = [Pending (dl_delivery_id d) s]"
    then have "tr = Pending (dl_delivery_id d) s # take 0 (surface_effects s msg (profiles k))" by simp
    with a show ?thesis by fastforce
  next
    fix n
    assume "f (dl_delivery_id d) s j = (None, j')" "touched tr"
      "tr = Pending (dl_delivery_id d) s # take n (surface_effects s msg p)"
    with k show ?thesis by fastforce
  qed
qed

text \<open>An instance.\<close>

theorem deliver_pending_first_witness:
  "\<exists>r tr j' s. deliver ((sample_injector [])\<lparr>ij_on_effect_pending := Some (\<lambda>_ _ j. (Some (JournalError []), j))\<rparr>)
      ''ana'' sample_delivery ''hi'' ''2026-07-01T00:00:00Z'' ''2026-07-01T00:01:00Z'' ''codex'' () = (r, tr, j')
     \<and> (tr = [] \<or> r = Inl (JournalError []) \<and> tr = [Pending ''d1'' s])"
proof -
  let ?ij = "(sample_injector [])\<lparr>ij_on_effect_pending := Some (\<lambda>_ _ j. (Some (JournalError []), j))\<rparr>"
  obtain r tr j' where d: "deliver ?ij ''ana'' sample_delivery ''hi'' ''2026-07-01T00:00:00Z''
      ''2026-07-01T00:01:00Z'' ''codex'' () = (r, tr, j')" by (metis prod_cases3)
  from deliver_pending_first[OF _ d, of "\<lambda>_ _ j. (Some (JournalError []), j)"] d show ?thesis
    by (auto simp: sample_delivery_def)
qed

text \<open>C25: An exception leaves an injection only where the callback raised it, and then the surface was
  not touched; where the observer raised it before both required events were seen; or where minting
  raised something other than a \<open>ValueError\<close>. Failures of the resolver and of the transport are verdicts.\<close>

theorem deliver_exceptions:
  assumes "deliver ij identity d body t0 t1 harness j = (Inl e, tr, j')"
  shows "(\<exists>f s. ij_on_effect_pending ij = Some f \<and> f (dl_delivery_id d) s j = (Some e, j') \<and> \<not> touched tr)
    \<or> (\<exists>m names. ij_observe ij tr m = (names, Some e) \<and> touched tr
        \<and> \<not> {EVENT_INPUT_SENT, EVENT_PROMPT_SUBMITTED} \<subseteq> set names)
    \<or> (mint (ij_marker_authority ij) d t0 t1 = Inl e \<and> \<not> is_ValueError e \<and> tr = [])"
proof (cases "planned ij identity d body t0 t1 harness")
  case None
  then show ?thesis using deliver_unplanned[OF None, of j] assms by auto
next
  case (Some plan)
  obtain m p msg s where plan: "plan = (m, p, msg, s)" by (cases plan) auto
  have "inject ij d m p msg s j = (Inl e, tr, j')"
    using assms deliver_planned[OF Some[unfolded plan], of j] by simp
  then show ?thesis
  proof (cases rule: inject_cases)
    case (refused e')
    with pending_call_trace[OF refused(1)] show ?thesis
      by (auto simp: pending_call_def touched_def split: option.splits prod.splits)
  next
    case (sent tr0)
    obtain names failure where o: "ij_observe ij tr m = (names, failure)" by fastforce
    have "await_proof ij tr m (dl_delivery_id d) = Inl e" using sent(3) by simp
    with await_proof_cases[OF o, of "dl_delivery_id d"] o perform_touches[OF sent(2)] show ?thesis
      by (auto simp: REQUIRED_EVENTS_def)
  qed auto
qed

text \<open>Witness of C25: an observer that fails after the text was sent.\<close>

theorem deliver_exceptions_witness:
  "\<exists>tr. deliver ((sample_injector [])\<lparr>ij_observe := \<lambda>_ _. ([], Some (StreamProtocolError []))\<rparr>)
      ''ana'' sample_delivery ''hi'' ''2026-07-01T00:00:00Z'' ''2026-07-01T00:01:00Z'' ''codex'' () =
        (Inl (StreamProtocolError []), tr, ()) \<and> touched tr"
proof -
  let ?ij = "(sample_injector [])\<lparr>ij_observe := \<lambda>_ _. ([], Some (StreamProtocolError []))\<rparr>"
  obtain m p msg where pl: "planned ?ij ''ana'' sample_delivery ''hi'' ''2026-07-01T00:00:00Z''
      ''2026-07-01T00:01:00Z'' ''codex'' = Some (m, p, msg, ''surface:1'')"
    using sample_planned[of ?ij] by (auto simp: sample_injector_def)
  have "perform ?ij tr es = (None, tr @ es)" for tr es
    by (induction es arbitrary: tr) (simp_all add: call_effect_def sample_injector_def split: effect.split)
  then have "inject ?ij sample_delivery m p msg ''surface:1'' () =
      (Inl (StreamProtocolError []), surface_effects ''surface:1'' msg p, ())"
    by (simp add: inject_eq pending_call_def)
      (simp add: sample_injector_def sample_delivery_def await_proof_def)
  with deliver_planned[OF pl, of "()"] have d: "deliver ?ij ''ana'' sample_delivery ''hi'' ''2026-07-01T00:00:00Z''
      ''2026-07-01T00:01:00Z'' ''codex'' () = (Inl (StreamProtocolError []), surface_effects ''surface:1'' msg p, ())"
    by simp
  from deliver_exceptions[OF d] d show ?thesis
    by (auto simp: sample_injector_def surface_effects_def)
qed

section \<open>With the journal\<close>

text \<open>The callback that records intent: \<open>prepare\<close> for the delivery about to be injected, with a directory sync that may
  fail.\<close>

definition journal_pending ::
  "py_exc option \<Rightarrow> string \<Rightarrow> string \<Rightarrow> string \<Rightarrow> int \<Rightarrow> string \<Rightarrow> string \<Rightarrow> injection_journal \<Rightarrow> py_exc option \<times> injection_journal" where
  "journal_pending sync binding_id seat_id marker now delivery_id surface j =
     (case prepare_synced sync delivery_id binding_id seat_id marker now j of
        (Inl e, j') \<Rightarrow> (Some e, j')
      | (Inr _, j') \<Rightarrow> (None, j'))"

lemma journal_pending_cases:
  assumes "wf_journal j"
  shows "snd (journal_pending sync b seat mk now d s j) = snd (prepare d b seat mk now j)"
    and "fst (journal_pending sync b seat mk now d s j) = None \<longleftrightarrow> sync = None \<and> journal_map j d = None"
    and "journal_map j d = None \<Longrightarrow>
      journal_map (snd (prepare d b seat mk now j)) d = Some (prepared_row d b seat mk now)"
proof -
  from assms obtain ws where ws: "j = journal_of ws" by (rule wf_journalE)
  have "journal_map j d = None \<longleftrightarrow> d \<notin> jw_delivery_id ` set ws"
    by (auto simp: ws journal_map_of fetchone_None_iff)
  then have "isl (fst (prepare d b seat mk now j)) \<longleftrightarrow> journal_map j d \<noteq> None" by (simp add: ws prepare_of)
  moreover have "isl (fst (prepare_synced sync d b seat mk now j)) \<longleftrightarrow>
      sync \<noteq> None \<or> isl (fst (prepare d b seat mk now j))"
  proof (cases sync)
    case (Some e)
    then show ?thesis
      using prepare_synced_Inr[of sync d b seat mk now j]
      by (cases "prepare_synced sync d b seat mk now j"; cases "fst (prepare_synced sync d b seat mk now j)") auto
  qed (simp add: prepare_synced_None)
  moreover have "fst (journal_pending sync b seat mk now d s j) = None \<longleftrightarrow>
      \<not> isl (fst (prepare_synced sync d b seat mk now j))"
    by (auto simp: journal_pending_def split: prod.splits sum.splits)
  ultimately show "fst (journal_pending sync b seat mk now d s j) = None \<longleftrightarrow> sync = None \<and> journal_map j d = None"
    by simp
  show "snd (journal_pending sync b seat mk now d s j) = snd (prepare d b seat mk now j)"
    using prepare_synced_table[of sync d b seat mk now j]
    by (auto simp: journal_pending_def split: prod.splits sum.splits)
  show "journal_map (snd (prepare d b seat mk now j)) d = Some (prepared_row d b seat mk now)" if "journal_map j d = None"
    using prepare_refines[OF assms, of d b seat mk now] that
    by (cases "prepare d b seat mk now j") (auto simp: spec_prepare_def)
qed

lemma deliver_journaled:
  assumes "wf_journal j" "ij_on_effect_pending ij = Some (journal_pending sync b seat mk now)"
    and "deliver ij identity d body t0 t1 harness j = (r, tr, j')"
  shows "journal_step\<^sup>*\<^sup>* j j' \<and> (touched tr \<longleftrightarrow> sync = None \<and> journal_map j (dl_delivery_id d) = None \<and> tr \<noteq> [])
    \<and> (touched tr \<longrightarrow> journal_map j' (dl_delivery_id d) = Some (prepared_row (dl_delivery_id d) b seat mk now))"
proof (cases "planned ij identity d body t0 t1 harness")
  case None
  then show ?thesis using deliver_unplanned[OF None, of j] assms(3) by (auto simp: touched_def)
next
  case (Some plan)
  obtain m p msg s where plan: "plan = (m, p, msg, s)" by (cases plan) auto
  have "inject ij d m p msg s j = (r, tr, j')"
    using assms(3) deliver_planned[OF Some[unfolded plan], of j] by simp
  from inject_with_callback[OF assms(2) this]
  show ?thesis
    using journal_pending_cases(1,2)[OF assms(1), of sync b seat mk now "dl_delivery_id d" s]
      journal_pending_cases(3)[OF assms(1), of "dl_delivery_id d" b seat mk now]
      prepare_step[of j "dl_delivery_id d" b seat mk now]
    by (auto simp: touched_def)
qed

text \<open>C3: No double injection. Once an injection has touched a surface, no later injection of the same
  delivery touches one, whatever the journal went through in between and whichever injector, identity,
  body or harness is used: the journal's row outlives every settlement, and \<open>prepare\<close> refuses. This holds also
  when the directory sync of the journal fails, which stops the injection although the row is stored.\<close>

theorem never_injected_twice:
  assumes j0: "jn_rows j0 = []" "journal_step\<^sup>*\<^sup>* j0 j"
    and f: "ij_on_effect_pending ij = Some (journal_pending sync b seat mk now)"
      "ij_on_effect_pending ij2 = Some (journal_pending sync2 b2 seat2 mk2 now2)"
    and first: "deliver ij identity d body t0 t1 harness j = (r, tr, j1)" "touched tr"
    and between: "journal_step\<^sup>*\<^sup>* j1 j2"
    and again: "deliver ij2 identity2 d2 body2 u0 u1 harness2 j2 = (r2, tr2, j3)"
      "dl_delivery_id d2 = dl_delivery_id d"
  shows "\<not> touched tr2"
proof -
  have wf: "wf_journal j" using journal.reachable_inv[OF j0] .
  have s: "journal_step\<^sup>*\<^sup>* j j1" "journal_map j1 (dl_delivery_id d) \<noteq> None"
    using deliver_journaled[OF wf f(1) first(1)] first(2) by auto
  have wf1: "wf_journal j1" and wf2: "wf_journal j2"
    using journal.inv_steps wf s(1) between by blast+
  have "journal_advances j1 j2" using journal.steps_le[OF between wf1] .
  then have "journal_map j2 (dl_delivery_id d) \<noteq> None"
    using s(2) wf_journal_get[OF wf1] wf_journal_get[OF wf2]
    by (force simp: journal_advances_def)
  with deliver_journaled[OF wf2 f(2) again(1)] again(2) show ?thesis by simp
qed

text \<open>Witness of C3.\<close>

definition journaled_injector :: "injection_journal Injector" where
  "journaled_injector =
     \<lparr>ij_resolve = (\<lambda>_. Inr ''surface:1''), ij_transport = (\<lambda>_ _. None), ij_observe = (\<lambda>_ _. ([], None)),
      ij_marker_authority = sample_authority,
      ij_on_effect_pending = Some (journal_pending None ''b1'' ''ana'' ''m'' 1)\<rparr>"

theorem never_injected_twice_witness:
  "\<exists>r tr j1 r2 tr2 j3. deliver journaled_injector ''ana'' sample_delivery ''hi'' ''2026-07-01T00:00:00Z''
      ''2026-07-01T00:01:00Z'' ''codex'' \<lparr>jn_rows = []\<rparr> = (r, tr, j1) \<and> touched tr
     \<and> deliver journaled_injector ''ana'' sample_delivery ''hi'' ''2026-07-01T00:00:00Z''
      ''2026-07-01T00:01:00Z'' ''codex'' j1 = (r2, tr2, j3) \<and> \<not> touched tr2"
proof -
  let ?d = "deliver journaled_injector ''ana'' sample_delivery ''hi'' ''2026-07-01T00:00:00Z''
      ''2026-07-01T00:01:00Z'' ''codex''"
  have cb: "ij_on_effect_pending journaled_injector = Some (journal_pending None ''b1'' ''ana'' ''m'' 1)"
    by (simp add: journaled_injector_def)
  obtain m p msg where pl: "planned journaled_injector ''ana'' sample_delivery ''hi'' ''2026-07-01T00:00:00Z''
      ''2026-07-01T00:01:00Z'' ''codex'' = Some (m, p, msg, ''surface:1'')"
    using sample_planned[of journaled_injector] by (auto simp: journaled_injector_def)
  obtain r tr j1 where d1: "?d \<lparr>jn_rows = []\<rparr> = (r, tr, j1)" by (metis prod_cases3)
  have wf: "wf_journal \<lparr>jn_rows = []\<rparr>" by (simp add: wf_journal_def)
  have "journal_map \<lparr>jn_rows = []\<rparr> (dl_delivery_id sample_delivery) = None"
    by (simp add: journal_map_def journal_get_def)
  moreover have "tr \<noteq> []"
    using inject_with_callback[OF cb] d1 deliver_planned[OF pl] by fastforce
  ultimately have t: "touched tr" using deliver_journaled[OF wf cb d1] by simp
  obtain r2 tr2 j3 where d2: "?d j1 = (r2, tr2, j3)" by (metis prod_cases3)
  from never_injected_twice[OF _ _ cb cb d1 t _ d2, of "\<lparr>jn_rows = []\<rparr>"] d1 t d2 show ?thesis by simp
qed

end
