(* ===== verification/Cmux_Outbox.thy ===== *)
theory Cmux_Outbox
  imports Core_Types "HOL-Library.Sublist"
begin

text \<open>
  \<open>plugins/cmux/yatagarasu_cmux/event_outbox.py\<close>: the durable plane of observed source events. The four
  tables are row lists in \<open>rowid\<close> order with their keys and \<open>CHECK\<close> constraints; integers bound to a
  statement are checked against SQLite's 64 bits. Every operation runs in one explicit
  transaction, so an exception leaves the tables as they were. The time stamp
  \<open>captured_at\<close> of a snapshot, which no code reads, and the directory sync are left out.
\<close>

section \<open>Tables\<close>

datatype CommitDisposition = INSERTED | DUPLICATE

record EventCursor =
  cu_source_instance_id :: string
  cu_boot_id :: string
  cu_seq :: int

record DerivedEvent =
  de_source_instance_id :: string
  de_boot_id :: string
  de_seq :: int
  de_source_event_id :: string
  de_event_name :: string
  de_event_json :: string

definition event_cursor :: "DerivedEvent \<Rightarrow> EventCursor" where
  "event_cursor e =
     \<lparr>cu_source_instance_id = de_source_instance_id e, cu_boot_id = de_boot_id e, cu_seq = de_seq e\<rparr>"

record SnapshotBaseline =
  bl_method :: string
  bl_snapshot_json :: string

record StreamAudit =
  sa_audit_id :: nat
  sa_source_instance_id :: string
  sa_kind :: string
  sa_boot_id :: string
  sa_seq :: int
  sa_detail_json :: string

record SnapshotRow =
  sn_source_instance_id :: string
  sn_method :: string
  sn_boot_id :: string
  sn_seq :: int
  sn_snapshot_json :: string

record event_outbox =
  ob_cursors :: "EventCursor list"
  ob_events :: "DerivedEvent list"
  ob_audit :: "StreamAudit list"
  ob_snapshots :: "SnapshotRow list"

definition empty_outbox :: event_outbox where
  "empty_outbox = \<lparr>ob_cursors = [], ob_events = [], ob_audit = [], ob_snapshots = []\<rparr>"

section \<open>Queries\<close>

definition cursor :: "event_outbox \<Rightarrow> string \<Rightarrow> EventCursor option" where
  "cursor ob source = fetchone (\<lambda>c. cu_source_instance_id c = source) (ob_cursors ob)"

definition outbox_events :: "event_outbox \<Rightarrow> string \<Rightarrow> DerivedEvent list" where
  "outbox_events ob source = filter (\<lambda>e. de_source_instance_id e = source) (ob_events ob)"

definition audit_rows :: "event_outbox \<Rightarrow> string \<Rightarrow> StreamAudit list" where
  "audit_rows ob source =
     sort_key sa_audit_id (filter (\<lambda>a. sa_source_instance_id a = source) (ob_audit ob))"

definition snapshot_rows :: "event_outbox \<Rightarrow> string \<Rightarrow> SnapshotRow list" where
  "snapshot_rows ob source =
     sort_key sn_method (filter (\<lambda>r. sn_source_instance_id r = source) (ob_snapshots ob))"

section \<open>Statements\<close>

text \<open>A Python integer bound to a statement must fit SQLite's signed 64 bits.\<close>

definition sql_int :: "int \<Rightarrow> bool" where
  "sql_int n = (- (2 ^ 63) \<le> n \<and> n < 2 ^ 63)"

definition event_key :: "DerivedEvent \<Rightarrow> string \<times> string \<times> int" where
  "event_key e = (de_source_instance_id e, de_boot_id e, de_seq e)"

definition event_id_key :: "DerivedEvent \<Rightarrow> string \<times> string" where
  "event_id_key e = (de_source_instance_id e, de_source_event_id e)"

definition insert_event_row :: "DerivedEvent \<Rightarrow> event_outbox \<Rightarrow> event_outbox res" where
  "insert_event_row e ob =
     (if de_seq e < 0 \<or> event_key e \<in> event_key ` set (ob_events ob)
         \<or> event_id_key e \<in> event_id_key ` set (ob_events ob) then Inl IntegrityError
      else Inr (ob\<lparr>ob_events := ob_events ob @ [e]\<rparr>))"

text \<open>\<open>INSERT ... ON CONFLICT DO UPDATE\<close>: the row with this key is replaced in place, or a new one appended.\<close>

definition upsert :: "('r \<Rightarrow> 'k) \<Rightarrow> 'r \<Rightarrow> 'r list \<Rightarrow> 'r list" where
  "upsert key r rows =
     (if key r \<in> key ` set rows then update_where (\<lambda>x. key x = key r) (\<lambda>_. r) rows else rows @ [r])"

definition upsert_cursor :: "EventCursor \<Rightarrow> event_outbox \<Rightarrow> event_outbox res" where
  "upsert_cursor c ob =
     (if \<not> sql_int (cu_seq c) then Inl OverflowError
      else if cu_seq c < 0 then Inl IntegrityError
      else Inr (ob\<lparr>ob_cursors := upsert cu_source_instance_id c (ob_cursors ob)\<rparr>))"

definition snapshot_key :: "SnapshotRow \<Rightarrow> string \<times> string" where
  "snapshot_key r = (sn_source_instance_id r, sn_method r)"

definition upsert_snapshot :: "EventCursor \<Rightarrow> event_outbox \<Rightarrow> SnapshotBaseline \<Rightarrow> event_outbox res" where
  "upsert_snapshot c ob b =
     (if \<not> sql_int (cu_seq c) then Inl OverflowError
      else if cu_seq c < 0 then Inl IntegrityError
      else Inr (ob\<lparr>ob_snapshots := upsert snapshot_key
        \<lparr>sn_source_instance_id = cu_source_instance_id c, sn_method = bl_method b, sn_boot_id = cu_boot_id c,
         sn_seq = cu_seq c, sn_snapshot_json = bl_snapshot_json b\<rparr> (ob_snapshots ob)\<rparr>))"

definition insert_stream_audit :: "string \<Rightarrow> EventCursor \<Rightarrow> string \<Rightarrow> event_outbox \<Rightarrow> event_outbox res" where
  "insert_stream_audit kind c detail ob =
     (if \<not> sql_int (cu_seq c) then Inl OverflowError
      else if cu_seq c < 0 then Inl IntegrityError
      else Inr (ob\<lparr>ob_audit := ob_audit ob @
        [\<lparr>sa_audit_id = Suc (length (ob_audit ob)), sa_source_instance_id = cu_source_instance_id c,
          sa_kind = kind, sa_boot_id = cu_boot_id c, sa_seq = cu_seq c, sa_detail_json = detail\<rparr>]\<rparr>))"

section \<open>Operations\<close>

definition same_event :: "DerivedEvent \<Rightarrow> DerivedEvent \<Rightarrow> bool" where
  "same_event row e =
     (de_source_event_id row = de_source_event_id e \<and> de_event_name row = de_event_name e
      \<and> de_event_json row = de_event_json e)"

definition is_object :: "json \<Rightarrow> bool" where
  "is_object v = (case v of JObj _ \<Rightarrow> True | _ \<Rightarrow> False)"

definition validate_event :: "DerivedEvent \<Rightarrow> unit res" where
  "validate_event e =
     (if de_source_instance_id e = [] \<or> de_boot_id e = [] \<or> de_seq e < 0 \<or> de_source_event_id e = []
         \<or> de_event_name e = [] then Inl (OutboxError ''source event identity is incomplete'')
      else case loads (de_event_json e) of
        Inl x \<Rightarrow> Inl (if x = JSONDecodeError then OutboxError ''derived event is not valid JSON'' else x)
      | Inr v \<Rightarrow> if is_object v then Inr () else Inl (OutboxError ''derived event must be a JSON object''))"

text \<open>What the cursor says about an event that is not in the outbox yet.\<close>

definition cursor_check :: "EventCursor option \<Rightarrow> bool \<Rightarrow> DerivedEvent \<Rightarrow> unit res" where
  "cursor_check c permit_boot_change e =
     (case c of
        None \<Rightarrow> Inr ()
      | Some cu \<Rightarrow>
          if cu_boot_id cu \<noteq> de_boot_id e \<and> \<not> permit_boot_change
            then Inl (OutboxError ''boot changed without a declared resume gap'')
          else if cu_boot_id cu = de_boot_id e \<and> de_seq e \<le> cu_seq cu
            then Inl (OutboxError ''unseen event does not advance the durable cursor'')
          else Inr ())"

text \<open>The body of the transaction.\<close>

definition commit_body :: "DerivedEvent \<Rightarrow> bool \<Rightarrow> event_outbox \<Rightarrow> (CommitDisposition \<times> event_outbox) res" where
  "commit_body e permit_boot_change ob =
     (if \<not> sql_int (de_seq e) then Inl OverflowError
      else case fetchone (\<lambda>r. event_key r = event_key e) (ob_events ob) of
        Some existing \<Rightarrow>
          if same_event existing e then Inr (DUPLICATE, ob)
          else Inl (OutboxError ''cursor triple already names different evidence'')
      | None \<Rightarrow>
        (case fetchone (\<lambda>r. event_id_key r = event_id_key e) (ob_events ob) of
           Some _ \<Rightarrow> Inl (OutboxError ''source event ID was replayed under a new cursor'')
         | None \<Rightarrow>
           (case cursor_check (cursor ob (de_source_instance_id e)) permit_boot_change e of
              Inl x \<Rightarrow> Inl x
            | Inr _ \<Rightarrow>
              (case insert_event_row e ob of
                 Inl x \<Rightarrow> Inl x
               | Inr o1 \<Rightarrow>
                 (case upsert_cursor (event_cursor e) o1 of Inl x \<Rightarrow> Inl x | Inr o2 \<Rightarrow> Inr (INSERTED, o2))))))"

definition commit_event ::
  "DerivedEvent \<Rightarrow> bool \<Rightarrow> event_outbox \<Rightarrow> CommitDisposition res \<times> event_outbox" where
  "commit_event e permit_boot_change ob =
     (case validate_event e of
        Inl x \<Rightarrow> (Inl x, ob)
      | Inr _ \<Rightarrow>
        (case commit_body e permit_boot_change ob of
           Inl x \<Rightarrow> (Inl x, ob)
         | Inr (disposition, ob') \<Rightarrow> (Inr disposition, ob')))"

definition validate_snapshot :: "unit \<Rightarrow> SnapshotBaseline \<Rightarrow> unit res" where
  "validate_snapshot u b =
     (if bl_method b = [] then Inl (OutboxError ''gap recovery snapshot method is empty'')
      else case loads (bl_snapshot_json b) of
        Inl x \<Rightarrow> Inl (if x = JSONDecodeError then OutboxError ''gap recovery snapshot is not valid JSON'' else x)
      | Inr _ \<Rightarrow> Inr ())"

definition resnapshot_detail :: "string list \<Rightarrow> int \<Rightarrow> string" where
  "resnapshot_detail commands replay_count =
     dumps (JObj [(''commands'', JArr (map JStr commands)), (''replay_count'', JInt replay_count)])"

definition resnapshot_body ::
  "EventCursor \<Rightarrow> SnapshotBaseline list \<Rightarrow> string \<Rightarrow> event_outbox \<Rightarrow> event_outbox res" where
  "resnapshot_body c snapshots detail ob =
     (case try_each (upsert_snapshot c) ob snapshots of
        Inl x \<Rightarrow> Inl x
      | Inr o1 \<Rightarrow>
        (case insert_stream_audit ''gap_resnapshot'' c detail o1 of
           Inl x \<Rightarrow> Inl x
         | Inr o2 \<Rightarrow> upsert_cursor c o2))"

definition record_resnapshot ::
  "EventCursor \<Rightarrow> SnapshotBaseline list \<Rightarrow> int \<Rightarrow> event_outbox \<Rightarrow> unit res \<times> event_outbox" where
  "record_resnapshot c snapshots replay_count ob =
     (if snapshots = [] then (Inl (OutboxError ''gap recovery requires literal snapshot commands''), ob)
      else if \<not> distinct (map bl_method snapshots)
        then (Inl (OutboxError ''gap recovery snapshot commands must be unique''), ob)
      else case try_each validate_snapshot () snapshots of
        Inl x \<Rightarrow> (Inl x, ob)
      | Inr _ \<Rightarrow>
          if (case cursor ob (cu_source_instance_id c) of
                None \<Rightarrow> False
              | Some cur \<Rightarrow> cu_boot_id cur = cu_boot_id c \<and> cu_seq c < cu_seq cur)
            then (Inl (OutboxError ''gap snapshot cannot regress the durable cursor''), ob)
          else case resnapshot_body c snapshots
                 (resnapshot_detail (map bl_method snapshots) replay_count) ob of
            Inl x \<Rightarrow> (Inl x, ob)
          | Inr ob' \<Rightarrow> (Inr (), ob'))"

definition replay_detail :: "int \<Rightarrow> int \<Rightarrow> int \<Rightarrow> int \<Rightarrow> int option \<Rightarrow> string" where
  "replay_detail requested_after_seq replay_count inserted_count duplicate_count disconnect_at_seq =
     dumps (JObj
       [(''duplicate_count'', JInt duplicate_count),
        (''inserted_count'', JInt inserted_count),
        (''replay_count'', JInt replay_count),
        (''requested_after_seq'', JInt requested_after_seq),
        (''disconnect_at_seq'', case disconnect_at_seq of None \<Rightarrow> JNull | Some n \<Rightarrow> JInt n)])"

definition record_reconnect_replay ::
  "EventCursor \<Rightarrow> int \<Rightarrow> int \<Rightarrow> int \<Rightarrow> int \<Rightarrow> int option \<Rightarrow> event_outbox \<Rightarrow> unit res \<times> event_outbox" where
  "record_reconnect_replay c requested_after_seq replay_count inserted_count duplicate_count disconnect_at_seq ob =
     (if cursor ob (cu_source_instance_id c) \<noteq> Some c
        then (Inl (OutboxError ''reconnect audit cursor is not the durable winner''), ob)
      else case insert_stream_audit ''reconnect_replay'' c
             (replay_detail requested_after_seq replay_count inserted_count duplicate_count disconnect_at_seq) ob of
        Inl x \<Rightarrow> (Inl x, ob)
      | Inr ob' \<Rightarrow> (Inr (), ob'))"

section \<open>Facts\<close>

lemma map_key_upsert:
  "map key (upsert key r rows) = (if key r \<in> key ` set rows then map key rows else map key rows @ [key r])"
  by (auto simp: upsert_def update_where_def)

lemma distinct_upsert: "distinct (map key rows) \<Longrightarrow> distinct (map key (upsert key r rows))"
  by (simp add: map_key_upsert)

lemma fetchone_upsert:
  "fetchone (\<lambda>x. key x = k) (upsert key r rows) = (if k = key r then Some r else fetchone (\<lambda>x. key x = k) rows)"
proof -
  have "fetchone (\<lambda>x. key x = k) (map (\<lambda>x. if key x = key r then r else x) rows) =
      (if k = key r \<and> key r \<in> key ` set rows then Some r else fetchone (\<lambda>x. key x = k) rows)"
    by (induction rows) auto
  then show ?thesis
    using fetchone_absent[of k key rows]
    by (auto simp: upsert_def update_where_def fetchone_append split: option.split)
qed

lemma set_upsert: "x \<in> set (upsert key r rows) \<Longrightarrow> x = r \<or> x \<in> set rows"
  by (auto simp: upsert_def update_where_def split: if_splits)

lemma list_all_upsert: "list_all P rows \<Longrightarrow> P r \<Longrightarrow> list_all P (upsert key r rows)"
  by (auto simp: list_all_iff dest: set_upsert)

definition cursor_ok :: "EventCursor \<Rightarrow> bool" where
  "cursor_ok c = (0 \<le> cu_seq c \<and> sql_int (cu_seq c))"

definition wf_outbox :: "event_outbox \<Rightarrow> bool" where
  "wf_outbox ob =
     (distinct (map cu_source_instance_id (ob_cursors ob))
      \<and> distinct (map event_key (ob_events ob)) \<and> distinct (map event_id_key (ob_events ob))
      \<and> distinct (map snapshot_key (ob_snapshots ob))
      \<and> map sa_audit_id (ob_audit ob) = [1..<Suc (length (ob_audit ob))]
      \<and> list_all cursor_ok (ob_cursors ob)
      \<and> (\<forall>e \<in> set (ob_events ob). validate_event e = Inr () \<and> sql_int (de_seq e)
            \<and> cursor ob (de_source_instance_id e) \<noteq> None))"

definition outbox_grows :: "event_outbox \<Rightarrow> event_outbox \<Rightarrow> bool" where
  "outbox_grows ob ob' =
     (prefix (ob_events ob) (ob_events ob') \<and> prefix (ob_audit ob) (ob_audit ob')
      \<and> (\<forall>s. cursor ob s \<noteq> None \<longrightarrow> cursor ob' s \<noteq> None)
      \<and> snapshot_key ` set (ob_snapshots ob) \<subseteq> snapshot_key ` set (ob_snapshots ob'))"

lemma outbox_grows_refl: "outbox_grows ob ob"
  by (simp add: outbox_grows_def)

lemma outbox_grows_trans: "outbox_grows a b \<Longrightarrow> outbox_grows b c \<Longrightarrow> outbox_grows a c"
  unfolding outbox_grows_def
  by (elim conjE, intro conjI) (erule (1) prefix_order.trans, erule (1) prefix_order.trans, blast+)

lemma upsert_cursor_Inr:
  "upsert_cursor c ob = Inr ob' \<Longrightarrow>
   ob' = ob\<lparr>ob_cursors := upsert cu_source_instance_id c (ob_cursors ob)\<rparr> \<and> 0 \<le> cu_seq c \<and> sql_int (cu_seq c)"
  by (auto simp: upsert_cursor_def split: if_splits)

lemma cursor_upsert:
  "cursor (ob\<lparr>ob_cursors := upsert cu_source_instance_id c (ob_cursors ob)\<rparr>) s =
     (if s = cu_source_instance_id c then Some c else cursor ob s)"
  by (simp add: cursor_def fetchone_upsert)

lemma cursor_frame [simp]:
  "cursor (ob\<lparr>ob_events := x\<rparr>) s = cursor ob s" "cursor (ob\<lparr>ob_audit := y\<rparr>) s = cursor ob s"
  "cursor (ob\<lparr>ob_snapshots := z\<rparr>) s = cursor ob s"
  by (simp_all add: cursor_def)

interpretation events: keyed_table ob_events ob_events_update event_key insert_event_row
  by unfold_locales (auto simp: insert_event_row_def split: if_splits)

text \<open>When the outbox takes a new event, and what it then holds.\<close>

definition new_event :: "DerivedEvent \<Rightarrow> bool \<Rightarrow> event_outbox \<Rightarrow> bool" where
  "new_event e permit ob =
     (validate_event e = Inr () \<and> sql_int (de_seq e)
      \<and> event_key e \<notin> event_key ` set (ob_events ob) \<and> event_id_key e \<notin> event_id_key ` set (ob_events ob)
      \<and> (\<forall>c. cursor ob (de_source_instance_id e) = Some c \<longrightarrow>
           (if cu_boot_id c = de_boot_id e then cu_seq c < de_seq e else permit)))"

definition with_event :: "DerivedEvent \<Rightarrow> event_outbox \<Rightarrow> event_outbox" where
  "with_event e ob =
     ob\<lparr>ob_events := ob_events ob @ [e],
        ob_cursors := upsert cu_source_instance_id (event_cursor e) (ob_cursors ob)\<rparr>"

lemma validate_event_seq: "validate_event e = Inr () \<Longrightarrow> 0 \<le> de_seq e"
  by (auto simp: validate_event_def split: if_splits)

lemma fetchone_in: "fetchone (\<lambda>x. key x = k) rows \<noteq> None \<longleftrightarrow> k \<in> key ` set rows"
  by (induction rows) auto

lemma cursor_check_Inr:
  "cursor_check c permit e = Inr u \<longleftrightarrow>
   (\<forall>cu. c = Some cu \<longrightarrow> (if cu_boot_id cu = de_boot_id e then cu_seq cu < de_seq e else permit))"
  by (auto simp: cursor_check_def split: option.split)

lemma same_event_iff: "event_key r = event_key e \<Longrightarrow> same_event r e \<longleftrightarrow> r = e"
  by (cases r; cases e) (auto simp: same_event_def event_key_def)

lemma commit_new: "new_event e permit ob \<Longrightarrow> commit_event e permit ob = (Inr INSERTED, with_event e ob)"
  using fetchone_absent[of "event_key e" event_key "ob_events ob"]
    fetchone_absent[of "event_id_key e" event_id_key "ob_events ob"] validate_event_seq[of e]
    cursor_check_Inr[of "cursor ob (de_source_instance_id e)" permit e]
  by (auto simp: new_event_def commit_event_def commit_body_def insert_event_row_def upsert_cursor_def
      with_event_def event_cursor_def)

lemma commit_known:
  assumes "distinct (map event_key (ob_events ob))" "validate_event e = Inr ()" "sql_int (de_seq e)"
    "e \<in> set (ob_events ob)"
  shows "commit_event e permit ob = (Inr DUPLICATE, ob)"
  using fetchone_key[OF assms(1,4)] assms(2,3)
  by (simp add: commit_event_def commit_body_def same_event_def)

lemma commit_other:
  assumes "\<not> new_event e permit ob" "\<not> (validate_event e = Inr () \<and> sql_int (de_seq e) \<and> e \<in> set (ob_events ob))"
  shows "\<exists>x. commit_event e permit ob = (Inl x, ob)"
proof (cases "commit_event e permit ob")
  case (Pair r ob')
  show ?thesis
  proof (cases "validate_event e = Inr () \<and> sql_int (de_seq e)")
    case False
    then show ?thesis by (cases "validate_event e") (auto simp: commit_event_def commit_body_def)
  next
    case True
    show ?thesis
    proof (cases "fetchone (\<lambda>r. event_key r = event_key e) (ob_events ob)")
      case (Some row)
      with assms(2) True same_event_iff[of row e] fetchone_SomeD[OF Some] show ?thesis
        by (auto simp: commit_event_def commit_body_def)
    next
      case None
      then have k: "event_key e \<notin> event_key ` set (ob_events ob)" by (metis fetchone_in)
      show ?thesis
      proof (cases "fetchone (\<lambda>r. event_id_key r = event_id_key e) (ob_events ob)")
        case (Some row)
        with None True show ?thesis by (auto simp: commit_event_def commit_body_def)
      next
        case None': None
        then have "event_id_key e \<notin> event_id_key ` set (ob_events ob)" by (metis fetchone_in)
        with assms(1) True k obtain x where "cursor_check (cursor ob (de_source_instance_id e)) permit e = Inl x"
          using cursor_check_Inr[of "cursor ob (de_source_instance_id e)" permit e "()"]
          by (cases "cursor_check (cursor ob (de_source_instance_id e)) permit e") (auto simp: new_event_def)
        with None None' True show ?thesis by (auto simp: commit_event_def commit_body_def)
      qed
    qed
  qed
qed

lemma commit_state_inserted:
  "snd (commit_event e permit ob) = (if new_event e permit ob then with_event e ob else ob)
   \<and> (fst (commit_event e permit ob) = Inr INSERTED \<longleftrightarrow> new_event e permit ob)"
proof (cases "new_event e permit ob")
  case True
  then show ?thesis by (simp add: commit_new)
next
  case new: False
  show ?thesis
  proof (cases "validate_event e = Inr () \<and> sql_int (de_seq e) \<and> e \<in> set (ob_events ob)")
    case True
    then obtain row where "fetchone (\<lambda>r. event_key r = event_key e) (ob_events ob) = Some row"
      using fetchone_in[of event_key "event_key e" "ob_events ob"] by auto
    with True new show ?thesis by (simp add: commit_event_def commit_body_def)
  next
    case False
    from commit_other[OF new this] new show ?thesis by auto
  qed
qed

lemmas commit_state = commit_state_inserted[THEN conjunct1]
  and commit_inserted = commit_state_inserted[THEN conjunct2]

end
