(* ===== verification/Cmux_Stream.thy ===== *)
theory Cmux_Stream
  imports Cmux_Marker Cmux_Outbox
begin

text \<open>
  \<open>plugins/cmux/yatagarasu_cmux/stream_protocol.py\<close>: the acknowledgement that opens an event stream, and the
  projection of a bus event to what may be stored. A frame is the \<open>dict\<close> that \<open>json.loads\<close> returned, an
  association list with distinct keys. A Python \<open>bool\<close> is an \<open>int\<close>, so \<open>version != 1\<close> is false for \<open>true\<close> too.
\<close>

section \<open>Acknowledgement\<close>

type_synonym frame = "(string \<times> json) list"

definition PROTOCOL :: string where
  "PROTOCOL = ''cmux-events''"

definition MAX_FRAME_BYTES :: nat where
  "MAX_FRAME_BYTES = 16 * 1024"

text \<open>\<open>v == n\<close> for a JSON value and an integer, with Python's view of booleans as integers.\<close>

definition eq_int :: "json \<Rightarrow> int \<Rightarrow> bool" where
  "eq_int v n = (case v of JInt i \<Rightarrow> i = n | JBool b \<Rightarrow> of_bool b = n | _ \<Rightarrow> False)"

definition supported :: "string \<Rightarrow> frame \<Rightarrow> bool" where
  "supported kind f =
     (dict_get f ''type'' = JStr kind \<and> dict_get f ''protocol'' = JStr PROTOCOL
      \<and> eq_int (dict_get f ''version'') 1)"

record ResumeMetadata =
  rm_requested_after_seq :: "int option"
  rm_oldest_seq :: int
  rm_latest_seq :: int
  rm_next_seq :: int
  rm_gap :: bool

record StreamAck =
  ack_boot_id :: string
  ack_replay_count :: int
  ack_resume :: ResumeMetadata

definition parse_resume :: "frame \<Rightarrow> ResumeMetadata res" where
  "parse_resume r =
     (case (case dict_get r ''requested_after_seq'' of
              JNull \<Rightarrow> Some None | JInt n \<Rightarrow> Some (Some n) | _ \<Rightarrow> None) of
        None \<Rightarrow> Inl (StreamProtocolError ''resume requested cursor is malformed'')
      | Some requested \<Rightarrow>
        (case (dict_get r ''oldest_seq'', dict_get r ''latest_seq'', dict_get r ''next_seq'', dict_get r ''gap'') of
           (JInt oldest, JInt latest, JInt next_seq, JBool gap) \<Rightarrow>
             if min (min oldest latest) next_seq < 0
               then Inl (StreamProtocolError ''resume metadata is malformed'')
             else Inr \<lparr>rm_requested_after_seq = requested, rm_oldest_seq = oldest, rm_latest_seq = latest,
                       rm_next_seq = next_seq, rm_gap = gap\<rparr>
         | _ \<Rightarrow> Inl (StreamProtocolError ''resume metadata is malformed'')))"

definition parse_ack :: "frame \<Rightarrow> StreamAck res" where
  "parse_ack f =
     (if \<not> supported ''ack'' f then Inl (StreamProtocolError ''first frame is not a supported stream ack'')
      else case (dict_get f ''boot_id'', dict_get f ''replay_count'', dict_get f ''resume'') of
        (JStr boot_id, JInt replay_count, JObj resume) \<Rightarrow>
          if boot_id = [] \<or> replay_count < 0
            then Inl (StreamProtocolError ''stream ack identity is malformed'')
          else (case parse_resume resume of
            Inl e \<Rightarrow> Inl e
          | Inr m \<Rightarrow> Inr \<lparr>ack_boot_id = boot_id, ack_replay_count = replay_count, ack_resume = m\<rparr>)
      | _ \<Rightarrow> Inl (StreamProtocolError ''stream ack identity is malformed''))"

section \<open>Projection\<close>

definition SAFE_PAYLOAD_KEYS :: "string list" where
  "SAFE_PAYLOAD_KEYS =
     [''_opencode_request_id'', ''_source'', ''decision'', ''hook_event_name'', ''message_length'',
      ''payload_truncated'', ''phase'', ''redacted_fields'', ''request_id'', ''session_id'', ''status'',
      ''tool_name'', ''workspace_id'']"

definition is_scalar :: "json \<Rightarrow> bool" where
  "is_scalar v = (case v of JArr _ \<Rightarrow> False | JObj _ \<Rightarrow> False | _ \<Rightarrow> True)"

definition is_safe_payload_value :: "json \<Rightarrow> bool" where
  "is_safe_payload_value v = (is_scalar v \<or> (case v of JArr vs \<Rightarrow> list_all is_scalar vs | _ \<Rightarrow> False))"

text \<open>\<open>EventProjector.__init__\<close>: a projector is its source instance, which must not be empty.\<close>

definition new_projector :: "string \<Rightarrow> string res" where
  "new_projector source_instance_id =
     (if source_instance_id = [] then Inl (ValueError ''source instance ID must not be empty'') else Inr source_instance_id)"

text \<open>The payload that is kept: safe scalars under known keys, and the marker token of a preview.\<close>

definition safe_payload :: "json \<Rightarrow> frame res" where
  "safe_payload payload =
     (case payload of
        JObj p \<Rightarrow>
          let safe = filter (\<lambda>(k, v). k \<in> set SAFE_PAYLOAD_KEYS \<and> is_safe_payload_value v) p
          in (case dict_get p ''message_preview'' of
                JStr preview \<Rightarrow>
                  (case extract_marker (Some preview) of
                     Inl e \<Rightarrow> Inl e
                   | Inr None \<Rightarrow> Inr safe
                   | Inr (Some m) \<Rightarrow>
                       (case marker_text m of
                          Inl e \<Rightarrow> Inl e
                        | Inr t \<Rightarrow> Inr (dict_set safe ''message_preview'' (JStr t))))
              | _ \<Rightarrow> Inr safe)
      | _ \<Rightarrow> Inr [])"

definition projected :: "string \<Rightarrow> int \<Rightarrow> string \<Rightarrow> string \<Rightarrow> frame \<Rightarrow> frame \<Rightarrow> json" where
  "projected boot_id seq event_id name payload f = JObj
     [(''boot_id'', JStr boot_id),
      (''category'', dict_get f ''category''),
      (''event_id'', JStr event_id),
      (''name'', JStr name),
      (''occurred_at'', dict_get f ''occurred_at''),
      (''pane_id'', dict_get f ''pane_id''),
      (''payload'', JObj payload),
      (''seq'', JInt seq),
      (''source'', dict_get f ''source''),
      (''surface_id'', dict_get f ''surface_id''),
      (''window_id'', dict_get f ''window_id''),
      (''workspace_id'', dict_get f ''workspace_id'')]"

definition project :: "string \<Rightarrow> frame \<Rightarrow> string \<Rightarrow> DerivedEvent res" where
  "project source_instance_id f expected_boot_id =
     (if \<not> supported ''event'' f then Inl (StreamProtocolError ''frame is not a supported CMUX event'')
      else if dict_get f ''boot_id'' \<noteq> JStr expected_boot_id
        then Inl (StreamProtocolError ''event boot ID differs from stream ack'')
      else case (dict_get f ''seq'', dict_get f ''id'', dict_get f ''name'') of
        (JInt seq, JStr event_id, JStr name) \<Rightarrow>
          if seq < 0 \<or> event_id = [] \<or> name = []
            then Inl (StreamProtocolError ''event identity is malformed'')
          else (case safe_payload (dict_get f ''payload'') of
            Inl e \<Rightarrow> Inl e
          | Inr payload \<Rightarrow> Inr
              \<lparr>de_source_instance_id = source_instance_id, de_boot_id = expected_boot_id, de_seq = seq,
               de_source_event_id = event_id, de_event_name = name,
               de_event_json = dumps (projected expected_boot_id seq event_id name payload f)\<rparr>)
      | _ \<Rightarrow> Inl (StreamProtocolError ''event identity is malformed''))"

section \<open>Facts\<close>

lemma wf_dict_get: "wf_json (JObj f) \<Longrightarrow> wf_json (dict_get f k)"
  by (auto simp: dict_get_def list_all_iff split: option.split dest!: map_of_SomeD)

lemma map_fst_dict_set:
  "map fst (dict_set d k v) = (if k \<in> fst ` set d then map fst d else map fst d @ [k])"
  by (induction d) fastforce+

lemma set_dict_set: "x \<in> set (dict_set d k v) \<Longrightarrow> x = (k, v) \<or> x \<in> set d"
  by (induction d) (auto split: if_splits)

lemma extract_marker_short:
  "extract_marker (Some s) = Inr (Some (Short m)) \<Longrightarrow> extract_short s = Some m"
  by (cases "first_decodable (ygr1_matches s)")
    (auto simp: extract_marker_def split: if_splits option.splits)

definition safe_entry :: "string \<times> json \<Rightarrow> bool" where
  "safe_entry kv =
     (fst kv \<in> set SAFE_PAYLOAD_KEYS \<and> is_safe_payload_value (snd kv)
      \<or> fst kv = ''message_preview'' \<and> (\<exists>t. snd kv = JStr t))"

lemma safe_payload_entries:
  assumes "wf_json v" "safe_payload v = Inr q"
  shows "wf_json (JObj q) \<and> list_all safe_entry q"
proof (cases v)
  case (JObj p)
  let ?s = "filter (\<lambda>(k, v). k \<in> set SAFE_PAYLOAD_KEYS \<and> is_safe_payload_value v) p"
  have s: "wf_json (JObj ?s)" "list_all safe_entry ?s"
    using assms(1) JObj by (auto simp: list_all_iff safe_entry_def distinct_map_filter)
  show ?thesis
  proof (cases "q = ?s")
    case True
    with s show ?thesis by simp
  next
    case False
    with assms(2) JObj obtain t where q: "q = dict_set ?s ''message_preview'' (JStr t)"
      by (auto simp: safe_payload_def Let_def split: json.splits sum.splits option.splits)
    then have "list_all safe_entry q"
      using s(2) set_dict_set[of _ ?s "''message_preview''" "JStr t"]
      by (fastforce simp: list_all_iff q safe_entry_def)
    moreover have "wf_json (JObj q)"
      using s(1) set_dict_set[of _ ?s "''message_preview''" "JStr t"]
      by (fastforce simp: list_all_iff q map_fst_dict_set)
    ultimately show ?thesis by simp
  qed
qed (use assms(2) in \<open>auto simp: safe_payload_def\<close>)

lemma project_Inr:
  assumes "project src f boot = Inr e"
  obtains seq i n q where "dict_get f ''boot_id'' = JStr boot" "dict_get f ''seq'' = JInt seq" "0 \<le> seq"
    "dict_get f ''id'' = JStr i" "i \<noteq> []" "dict_get f ''name'' = JStr n" "n \<noteq> []"
    "safe_payload (dict_get f ''payload'') = Inr q"
    "e = \<lparr>de_source_instance_id = src, de_boot_id = boot, de_seq = seq, de_source_event_id = i,
         de_event_name = n, de_event_json = dumps (projected boot seq i n q f)\<rparr>"
  using assms by (auto simp: project_def split: if_splits json.splits sum.splits)

section \<open>Reading the projection back\<close>

lemma canon_scalar: "is_scalar v \<Longrightarrow> canon b v = v"
  by (cases v) (simp_all add: is_scalar_def)

lemma canon_safe: "is_safe_payload_value v \<Longrightarrow> canon b v = v"
proof (cases v)
  case (JArr vs)
  assume "is_safe_payload_value v"
  with JArr have "list_all is_scalar vs" by (simp add: is_safe_payload_value_def is_scalar_def)
  then have "map (canon b) vs = vs" by (simp add: list_all_iff canon_scalar map_idI)
  with JArr show ?thesis by simp
qed (auto simp: is_safe_payload_value_def is_scalar_def)

lemma canon_safe_entries: "list_all safe_entry q \<Longrightarrow> map (\<lambda>(k, v). (k, canon b v)) q = q"
  by (induction q) (auto simp: safe_entry_def canon_safe)

lemma dict_get_sort_key:
  assumes "distinct (map fst q)" shows "dict_get (sort_key fst q) k = dict_get q k"
proof -
  have "distinct (map fst (sort_key fst q))"
    using assms by (metis distinct_map distinct_sort set_sort)
  then have "map_of (sort_key fst q) = map_of q"
    using assms by (intro map_of_inject_set[THEN iffD2]) simp_all
  then show ?thesis by (simp add: dict_get_def)
qed

lemma loads_projected:
  assumes "wf_json (JObj f)" "wf_json (JObj q)" "list_all safe_entry q"
  shows "loads (dumps (projected boot seq i n q f)) = Inr (JObj
     [(''boot_id'', JStr boot),
      (''category'', canon True (dict_get f ''category'')),
      (''event_id'', JStr i),
      (''name'', JStr n),
      (''occurred_at'', canon True (dict_get f ''occurred_at'')),
      (''pane_id'', canon True (dict_get f ''pane_id'')),
      (''payload'', JObj (sort_key fst q)),
      (''seq'', JInt seq),
      (''source'', canon True (dict_get f ''source'')),
      (''surface_id'', canon True (dict_get f ''surface_id'')),
      (''window_id'', canon True (dict_get f ''window_id'')),
      (''workspace_id'', canon True (dict_get f ''workspace_id''))])"
proof -
  have keys: "sorted [''boot_id'', ''category'', ''event_id'', ''name'', ''occurred_at'', ''pane_id'', ''payload'',
      ''seq'', ''source'', ''surface_id'', ''window_id'', ''workspace_id'']" by code_simp
  have "wf_json (projected boot seq i n q f)"
    unfolding projected_def using assms(2) wf_dict_get[OF assms(1)] by simp
  from loads_dumps[OF this] show ?thesis
    using keys canon_safe_entries[OF assms(3), of True]
    by (simp add: projected_def Let_def sort_key_id_if_sorted del: sorted_simps)
qed

section \<open>Properties\<close>

text \<open>An entry of the stored payload: an entry of the event's payload with a known key and a safe value, or the
  text of the marker that the preview contains.\<close>

definition kept_entry :: "json \<Rightarrow> string \<times> json \<Rightarrow> bool" where
  "kept_entry payload kv \<longleftrightarrow>
     (\<exists>p. payload = JObj p \<and>
        (kv \<in> set p \<and> fst kv \<in> set SAFE_PAYLOAD_KEYS \<and> is_safe_payload_value (snd kv)
         \<or> (\<exists>preview m t. dict_get p ''message_preview'' = JStr preview \<and> extract_marker (Some preview) = Inr (Some m)
              \<and> marker_text m = Inr t \<and> kv = (''message_preview'', JStr t))))"

lemma set_dict_set_new: "k \<notin> fst ` set d \<Longrightarrow> set (dict_set d k v) = insert (k, v) (set d)"
  by (induction d) (auto split: if_splits)

lemma safe_payload_kept:
  assumes "safe_payload payload = Inr q"
  shows "set q = {kv. kept_entry payload kv}"
proof (cases payload)
  case (JObj p)
  let ?s = "filter (\<lambda>(k, v). k \<in> set SAFE_PAYLOAD_KEYS \<and> is_safe_payload_value v) p"
  have "''message_preview'' \<notin> set SAFE_PAYLOAD_KEYS" by code_simp
  then have "''message_preview'' \<notin> fst ` set ?s" by auto
  note set_dict_set_new[OF this]
  with assms show ?thesis
    by (auto simp: JObj safe_payload_def kept_entry_def Let_def split: json.splits sum.splits option.splits)
qed (use assms in \<open>auto simp: safe_payload_def kept_entry_def\<close>)

text \<open>C31: What is stored of a bus event: the stored JSON is an object of twelve fields. Its payload holds exactly the
  entries of the event's payload that have a known key and a scalar, or a list of scalars, as value, and of a preview
  only the text of the marker it contains: no other part of the payload is stored. The identity is that of the event;
  the seven fields of metadata, among them the category and the source, are copied as they come, whatever they
  hold.\<close>

theorem projection_filters_payload:
  assumes "wf_json (JObj f)" "project src f boot = Inr e"
  shows "\<exists>seq i n q. dict_get f ''seq'' = JInt seq \<and> dict_get f ''id'' = JStr i \<and> dict_get f ''name'' = JStr n
    \<and> loads (de_event_json e) = Inr (JObj
     [(''boot_id'', JStr boot),
      (''category'', canon True (dict_get f ''category'')),
      (''event_id'', JStr i),
      (''name'', JStr n),
      (''occurred_at'', canon True (dict_get f ''occurred_at'')),
      (''pane_id'', canon True (dict_get f ''pane_id'')),
      (''payload'', JObj q),
      (''seq'', JInt seq),
      (''source'', canon True (dict_get f ''source'')),
      (''surface_id'', canon True (dict_get f ''surface_id'')),
      (''window_id'', canon True (dict_get f ''window_id'')),
      (''workspace_id'', canon True (dict_get f ''workspace_id''))])
    \<and> set q = {kv. kept_entry (dict_get f ''payload'') kv}"
  using assms(2)
proof (cases rule: project_Inr)
  case (1 seq i n q)
  from safe_payload_entries[OF wf_dict_get[OF assms(1)] 1(8)] have q: "wf_json (JObj q)" "list_all safe_entry q" by auto
  have "set (sort_key fst q) = {kv. kept_entry (dict_get f ''payload'') kv}" using safe_payload_kept[OF 1(8)] by simp
  with loads_projected[OF assms(1) q, of boot seq i n] 1(2,4,6,9) show ?thesis by auto
qed

text \<open>Witness of C31.\<close>

definition example_frame :: frame where
  "example_frame =
     [(''type'', JStr ''event''), (''protocol'', JStr ''cmux-events''), (''version'', JInt 1),
      (''boot_id'', JStr ''boot''), (''seq'', JInt 7), (''id'', JStr ''ev7''),
      (''name'', JStr ''agent.hook.Stop''), (''occurred_at'', JStr ''2026-07-01T00:00:30Z''),
      (''workspace_id'', JStr ''w1''),
      (''payload'', JObj [(''session_id'', JStr ''s1''), (''message_preview'', JStr ''secret text'')])]"

theorem projection_filters_payload_witness:
  "\<exists>e p q. project ''host'' example_frame ''boot'' = Inr e \<and> loads (de_event_json e) = Inr (JObj p)
     \<and> dict_get p ''payload'' = JObj q \<and> set q = {kv. kept_entry (dict_get example_frame ''payload'') kv}"
proof -
  have "\<not> isl (project ''host'' example_frame ''boot'')" by code_simp
  then obtain e where e: "project ''host'' example_frame ''boot'' = Inr e"
    by (cases "project ''host'' example_frame ''boot''") auto
  have "wf_json (JObj example_frame)" by code_simp
  from projection_filters_payload[OF this e] e show ?thesis by (fastforce simp: dict_get_def)
qed

text \<open>C32: Parsing the first frame of a stream gives an acknowledgement with a boot id and counters that are
  not negative, or raises the protocol error and nothing else.\<close>

theorem parse_ack_well_typed:
  "case parse_ack f of
     Inr a \<Rightarrow> ack_boot_id a \<noteq> [] \<and> 0 \<le> ack_replay_count a \<and> 0 \<le> rm_oldest_seq (ack_resume a)
       \<and> 0 \<le> rm_latest_seq (ack_resume a) \<and> 0 \<le> rm_next_seq (ack_resume a)
       \<and> dict_get f ''boot_id'' = JStr (ack_boot_id a)
   | Inl e \<Rightarrow> \<exists>m. e = StreamProtocolError m"
  by (auto simp: parse_ack_def parse_resume_def split: json.splits sum.splits)

end
