(* ===== verification/Cmux_Emitter.thy ===== *)
theory Cmux_Emitter
  imports Cmux_Stream Core_Reducer
begin

text \<open>
  \<open>plugins/cmux/yatagarasu_cmux/receipt_emitter.py\<close>: the state machine that turns correlated bus events into
  harness receipts. The core client and the delivery lookup are injected; the client's state is
  threaded through, and its exception, if any, leaves \<open>observe\<close>. The dictionaries of pending and
  active chains are maps.
\<close>

section \<open>State\<close>

record PendingChain =
  pc_input_event :: "SourceEventRef option"
  pc_prompt_event :: "SourceEventRef option"
  pc_decoded_marker :: "AnyMarker option"

definition empty_pending :: PendingChain where
  "empty_pending = \<lparr>pc_input_event = None, pc_prompt_event = None, pc_decoded_marker = None\<rparr>"

type_synonym active_chain = "Delivery \<times> DeliveryMarker \<times> SourceEventRef list"

record emitter =
  em_active :: "string \<times> string \<Rightarrow> active_chain option"
  em_pending :: "string \<Rightarrow> PendingChain option"

definition new_emitter :: emitter where
  "new_emitter = \<lparr>em_active = (\<lambda>_. None), em_pending = (\<lambda>_. None)\<rparr>"

record 's receipt_env =
  re_core_client :: "Receipt \<Rightarrow> 's \<Rightarrow> py_exc option \<times> 's"
  re_provider_id :: string
  re_delivery_lookup :: "string \<Rightarrow> (Delivery \<times> DeliveryMarker) option"

definition workspace_key :: "string option \<Rightarrow> string" where
  "workspace_key w = (case w of None \<Rightarrow> ''<unscoped>'' | Some s \<Rightarrow> if s = [] then ''<unscoped>'' else s)"

section \<open>Receipts\<close>

definition HOOK_RELAY :: string where
  "HOOK_RELAY = ''cmux.event_bus.harness_hook_relay''"

definition harness_receipt ::
  "'s receipt_env \<Rightarrow> Delivery \<Rightarrow> DeliveryMarker \<Rightarrow> string \<Rightarrow> EvidenceClass \<Rightarrow> Disposition option
    \<Rightarrow> SourceEventRef list \<Rightarrow> string \<Rightarrow> SourceEventRef \<Rightarrow> string \<Rightarrow> Receipt" where
  "harness_receipt env d m binding_id cls disposition chain session_id ev observed_at =
     \<lparr>rc_receipt_id = ''rec-'' @ se_source_event_id ev, rc_event_id = dl_event_id d,
      rc_delivery_id = dl_delivery_id d, rc_attempt_id = dl_attempt_id d, rc_binding_id = binding_id,
      rc_evidence_provider_id = re_provider_id env, rc_evidence_class = cls, rc_proof_method = HOOK_RELAY,
      rc_observed_at = observed_at, rc_source_event_id = Some (se_source_event_id ev),
      rc_platform_principal_id = None, rc_platform_message_id = None, rc_disposition = disposition,
      rc_authored_by_provider = False, rc_infrastructure_event = False,
      rc_proof = Some \<lparr>pf_session_id = session_id, pf_marker = m, pf_source_events = chain, pf_turn_id = None\<rparr>\<rparr>"

section \<open>Events\<close>

text \<open>\<open>extract\<close> on a payload value: falsy values give no marker, other values that are no text raise.\<close>

definition extract_json :: "json \<Rightarrow> AnyMarker option res" where
  "extract_json v =
     (case v of
        JStr s \<Rightarrow> extract_marker (Some s)
      | JNull \<Rightarrow> Inr None
      | JBool b \<Rightarrow> if b then Inl (TypeError ''expected string'') else Inr None
      | JInt n \<Rightarrow> if n = 0 then Inr None else Inl (TypeError ''expected string'')
      | JArr vs \<Rightarrow> if vs = [] then Inr None else Inl (TypeError ''expected string'')
      | JObj kvs \<Rightarrow> if kvs = [] then Inr None else Inl (TypeError ''expected string''))"

definition on_prompt_submitted ::
  "SourceEventRef \<Rightarrow> frame \<Rightarrow> string \<Rightarrow> emitter \<Rightarrow> py_exc option \<times> emitter" where
  "on_prompt_submitted ev payload key em =
     (let pending = (case em_pending em key of None \<Rightarrow> empty_pending | Some p \<Rightarrow> p);
          pending1 = pending\<lparr>pc_prompt_event := Some ev, pc_decoded_marker := None\<rparr>
      in case (case map_of payload ''message_preview'' of None \<Rightarrow> Inr None | Some v \<Rightarrow> extract_json v) of
           Inl e \<Rightarrow> (Some e, em\<lparr>em_pending := (em_pending em)(key \<mapsto> pending1)\<rparr>)
         | Inr m \<Rightarrow> (None, em\<lparr>em_pending := (em_pending em)(key \<mapsto> pending1\<lparr>pc_decoded_marker := m\<rparr>)\<rparr>))"

text \<open>The delivery a completed prompt chain is about: all three parts seen, known to the lookup, bound.\<close>

definition correlated ::
  "'s receipt_env \<Rightarrow> PendingChain option \<Rightarrow> (SourceEventRef \<times> SourceEventRef \<times> Delivery \<times> DeliveryMarker \<times> string) option" where
  "correlated env pending =
     (case pending of
        None \<Rightarrow> None
      | Some p \<Rightarrow>
        (case (pc_input_event p, pc_prompt_event p, pc_decoded_marker p) of
           (Some i, Some q, Some marker) \<Rightarrow>
             (case re_delivery_lookup env (any_delivery_id marker) of
                None \<Rightarrow> None
              | Some (d, m) \<Rightarrow>
                (case dl_binding_id d of
                   None \<Rightarrow> None
                 | Some b \<Rightarrow> if b = [] then None else Some (i, q, d, m, b)))
         | _ \<Rightarrow> None))"

definition on_prompt_hook ::
  "'s receipt_env \<Rightarrow> SourceEventRef \<Rightarrow> string \<Rightarrow> string \<Rightarrow> emitter \<times> 's \<Rightarrow> py_exc option \<times> emitter \<times> 's" where
  "on_prompt_hook env ev observed_at key st =
     (case st of (em, s) \<Rightarrow>
        let em1 = em\<lparr>em_pending := (em_pending em)(key := None)\<rparr>
        in if \<not> truthy (se_session_id ev) then (None, em1, s)
           else case correlated env (em_pending em key) of
             None \<Rightarrow> (None, em1, s)
           | Some (i, q, d, m, b) \<Rightarrow>
             (let session = the (se_session_id ev);
                  chain = [i, q, ev];
                  receipt = harness_receipt env d m b HARNESS_PROMPT_ACCEPTED None chain session ev observed_at
              in case re_core_client env receipt s of
                   (Some e, s') \<Rightarrow> (Some e, em1, s')
                 | (None, s') \<Rightarrow>
                   (None, em1\<lparr>em_active := (em_active em1)((key, session) \<mapsto> (d, m, chain))\<rparr>, s')))"

definition on_stop_hook ::
  "'s receipt_env \<Rightarrow> SourceEventRef \<Rightarrow> string \<Rightarrow> string \<Rightarrow> emitter \<times> 's \<Rightarrow> py_exc option \<times> emitter \<times> 's" where
  "on_stop_hook env ev observed_at key st =
     (case st of (em, s) \<Rightarrow>
        if \<not> truthy (se_session_id ev) then (None, em, s)
        else let session = the (se_session_id ev);
                 em1 = em\<lparr>em_active := (em_active em)((key, session) := None)\<rparr>
        in case em_active em (key, session) of
             None \<Rightarrow> (None, em1, s)
           | Some (d, m, previous_events) \<Rightarrow>
             (case dl_binding_id d of
                None \<Rightarrow> (None, em1, s)
              | Some b \<Rightarrow>
                if b = [] then (None, em1, s)
                else case re_core_client env
                       (harness_receipt env d m b HARNESS_TURN_COMPLETED (Some COMPLETED) (previous_events @ [ev])
                          session ev observed_at) s of
                  (x, s') \<Rightarrow> (x, em1, s')))"

definition emitter_observe ::
  "'s receipt_env \<Rightarrow> SourceEventRef \<Rightarrow> frame \<Rightarrow> string \<Rightarrow> string option \<Rightarrow> emitter \<times> 's
    \<Rightarrow> py_exc option \<times> emitter \<times> 's" where
  "emitter_observe env ev payload observed_at workspace_id st =
     (let name = se_event_name ev; key = workspace_key workspace_id
      in if name = ''surface.input_sent'' then
           (None, (fst st)\<lparr>em_pending := (em_pending (fst st))(key \<mapsto> empty_pending\<lparr>pc_input_event := Some ev\<rparr>)\<rparr>,
            snd st)
         else if name = ''workspace.prompt.submitted'' then
           (case on_prompt_submitted ev payload key (fst st) of (x, em) \<Rightarrow> (x, em, snd st))
         else if name = ''agent.hook.UserPromptSubmit'' then on_prompt_hook env ev observed_at key st
         else if name = ''agent.hook.Stop'' then on_stop_hook env ev observed_at key st
         else (None, st))"

section \<open>What the emitter may say\<close>

text \<open>A receipt whose chain has the shape its class needs, whose hooks carry the session it names, and whose
  delivery and marker are those the lookup holds for the marker that was seen on the wire.\<close>

definition proper_chain :: "string list \<Rightarrow> string \<Rightarrow> SourceEventRef list \<Rightarrow> bool" where
  "proper_chain names session chain =
     (map se_event_name chain = names \<and> session \<noteq> [] \<and> list_all (\<lambda>e. se_session_id e = Some session) (drop 2 chain))"

definition proper_receipt :: "'s receipt_env \<Rightarrow> Receipt \<Rightarrow> bool" where
  "proper_receipt env r =
     (\<exists>i d m b cls disp chain session ev observed.
        re_delivery_lookup env i = Some (d, m) \<and> dl_binding_id d = Some b \<and> b \<noteq> []
        \<and> r = harness_receipt env d m b cls disp chain session ev observed
        \<and> chain \<noteq> [] \<and> last chain = ev
        \<and> (cls = HARNESS_PROMPT_ACCEPTED \<and> disp = None \<and> proper_chain PROMPT_CHAIN session chain
           \<or> cls = HARNESS_TURN_COMPLETED \<and> disp = Some COMPLETED \<and> proper_chain COMPLETED_CHAIN session chain))"

text \<open>The invariant of the two dictionaries.\<close>

definition pending_ok :: "PendingChain \<Rightarrow> bool" where
  "pending_ok p =
     ((case pc_input_event p of None \<Rightarrow> True | Some e \<Rightarrow> se_event_name e = ''surface.input_sent'')
      \<and> (case pc_prompt_event p of None \<Rightarrow> True | Some e \<Rightarrow> se_event_name e = ''workspace.prompt.submitted''))"

definition active_ok :: "'s receipt_env \<Rightarrow> string \<Rightarrow> active_chain \<Rightarrow> bool" where
  "active_ok env session a =
     (case a of (d, m, chain) \<Rightarrow>
        (\<exists>i b. re_delivery_lookup env i = Some (d, m) \<and> dl_binding_id d = Some b \<and> b \<noteq> [])
        \<and> proper_chain PROMPT_CHAIN session chain)"

definition emitter_ok :: "'s receipt_env \<Rightarrow> emitter \<Rightarrow> bool" where
  "emitter_ok env em =
     ((\<forall>key p. em_pending em key = Some p \<longrightarrow> pending_ok p)
      \<and> (\<forall>key session a. em_active em (key, session) = Some a \<longrightarrow> active_ok env session a))"

lemma emitter_ok_new: "emitter_ok env new_emitter"
  by (simp add: emitter_ok_def new_emitter_def)

lemma correlatedD:
  assumes "correlated env pending = Some (i, q, d, m, b)"
  shows "\<exists>p k. pending = Some p \<and> pc_input_event p = Some i \<and> pc_prompt_event p = Some q
    \<and> re_delivery_lookup env k = Some (d, m) \<and> dl_binding_id d = Some b \<and> b \<noteq> []"
  using assms by (auto simp: correlated_def split: option.splits prod.splits if_splits)

lemma pending_ok_empty: "pending_ok empty_pending"
  by (simp add: pending_ok_def empty_pending_def)

lemma on_prompt_submitted_ok:
  assumes "emitter_ok env em" "se_event_name ev = ''workspace.prompt.submitted''"
    and "on_prompt_submitted ev payload key em = (x, em')"
  shows "emitter_ok env em'"
proof -
  have "pending_ok (case em_pending em key of None \<Rightarrow> empty_pending | Some p \<Rightarrow> p)"
    using assms(1) pending_ok_empty by (cases "em_pending em key") (auto simp: emitter_ok_def)
  then show ?thesis
    using assms
    by (auto simp: on_prompt_submitted_def Let_def emitter_ok_def pending_ok_def split: sum.splits if_splits)
qed

text \<open>The two hooks: a proper receipt goes to the sink, or nothing does.\<close>

lemma on_prompt_hook_cases:
  assumes em: "emitter_ok env em" "se_event_name ev = ''agent.hook.UserPromptSubmit''"
    and h: "on_prompt_hook env ev t key (em, s) = (x, em', s')"
  shows "emitter_ok env em' \<and> (s' = s \<or> (\<exists>r. proper_receipt env r \<and> s' = snd (re_core_client env r s)))"
proof (cases "truthy (se_session_id ev) \<and> correlated env (em_pending em key) \<noteq> None")
  case False
  then show ?thesis using em(1) h
    by (auto simp: on_prompt_hook_def Let_def emitter_ok_def split: option.splits if_splits)
next
  case True
  then obtain session i q d m b where c: "se_session_id ev = Some session" "session \<noteq> []"
    "correlated env (em_pending em key) = Some (i, q, d, m, b)" by auto
  from correlatedD[OF c(3)] obtain p k where p: "em_pending em key = Some p" "pc_input_event p = Some i"
    "pc_prompt_event p = Some q" "re_delivery_lookup env k = Some (d, m)" "dl_binding_id d = Some b" "b \<noteq> []" by blast
  have "pending_ok p" using em(1) p(1) by (simp add: emitter_ok_def)
  then have chain: "proper_chain PROMPT_CHAIN session [i, q, ev]"
    using em(2) p(2,3) c by (simp add: pending_ok_def proper_chain_def PROMPT_CHAIN_def)
  let ?r = "harness_receipt env d m b HARNESS_PROMPT_ACCEPTED None [i, q, ev] session ev t"
  have "proper_receipt env ?r" unfolding proper_receipt_def using p chain by fastforce
  moreover have "emitter_ok env em'"
    using h c em(1) chain p
    by (auto simp: on_prompt_hook_def Let_def emitter_ok_def active_ok_def split: prod.splits option.splits if_splits)
  moreover have "s' = snd (re_core_client env ?r s)"
    using h c by (auto simp: on_prompt_hook_def Let_def split: prod.splits option.splits)
  ultimately show ?thesis by blast
qed

lemma on_stop_hook_cases:
  assumes em: "emitter_ok env em" "se_event_name ev = ''agent.hook.Stop''"
    and h: "on_stop_hook env ev t key (em, s) = (x, em', s')"
  shows "emitter_ok env em' \<and> (s' = s \<or> (\<exists>r. proper_receipt env r \<and> s' = snd (re_core_client env r s)))"
proof (cases "truthy (se_session_id ev) \<and> em_active em (key, the (se_session_id ev)) \<noteq> None")
  case False
  then show ?thesis using em(1) h
    by (auto simp: on_stop_hook_def Let_def emitter_ok_def split: option.splits if_splits)
next
  case True
  then obtain session d m chain where c: "se_session_id ev = Some session" "session \<noteq> []"
    "em_active em (key, session) = Some (d, m, chain)" by auto
  with em(1) obtain k b where k: "re_delivery_lookup env k = Some (d, m)" "dl_binding_id d = Some b" "b \<noteq> []"
    and chain: "proper_chain PROMPT_CHAIN session chain"
    by (fastforce simp: emitter_ok_def active_ok_def)
  let ?r = "harness_receipt env d m b HARNESS_TURN_COMPLETED (Some COMPLETED) (chain @ [ev]) session ev t"
  have "length chain = 3"
    using chain by (auto simp: proper_chain_def PROMPT_CHAIN_def dest: map_eq_imp_length_eq)
  then have "proper_chain COMPLETED_CHAIN session (chain @ [ev])"
    using chain c em(2) by (auto simp: proper_chain_def COMPLETED_CHAIN_def)
  with k have "proper_receipt env ?r" unfolding proper_receipt_def by fastforce
  moreover have "emitter_ok env em' \<and> s' = snd (re_core_client env ?r s)"
    using h c k em(1) by (auto simp: on_stop_hook_def Let_def emitter_ok_def split: prod.splits if_splits)
  ultimately show ?thesis by blast
qed

text \<open>Whatever the sink keeps when given proper receipts, the emitter keeps: the sink sees no other receipt.\<close>

lemma emitter_observe_cases:
  assumes em: "emitter_ok env em"
    and obs: "emitter_observe env ev payload t w (em, s) = (x, em', s')"
  shows "emitter_ok env em' \<and> (s' = s \<or> (\<exists>r. proper_receipt env r \<and> s' = snd (re_core_client env r s)))"
proof -
  let ?key = "workspace_key w"
  consider (input) "se_event_name ev = ''surface.input_sent''"
    | (prompt) "se_event_name ev = ''workspace.prompt.submitted''"
    | (hook) "se_event_name ev = ''agent.hook.UserPromptSubmit''"
    | (stop) "se_event_name ev = ''agent.hook.Stop''"
    | (other) "se_event_name ev \<notin> {''surface.input_sent'', ''workspace.prompt.submitted'',
        ''agent.hook.UserPromptSubmit'', ''agent.hook.Stop''}"
    by blast
  then show ?thesis
  proof cases
    case input
    then have "em' = em\<lparr>em_pending := (em_pending em)(?key \<mapsto> empty_pending\<lparr>pc_input_event := Some ev\<rparr>)\<rparr>" "s' = s"
      using obs by (simp_all add: emitter_observe_def Let_def)
    with em input show ?thesis by (auto simp: emitter_ok_def pending_ok_def empty_pending_def split: if_splits)
  next
    case prompt
    obtain em1 where "on_prompt_submitted ev payload ?key em = (x, em1)" "em' = em1" "s' = s"
      using obs prompt by (auto simp: emitter_observe_def split: prod.splits)
    with on_prompt_submitted_ok[OF em prompt] show ?thesis by blast
  next
    case hook
    with on_prompt_hook_cases[OF em hook] obs show ?thesis by (simp add: emitter_observe_def)
  next
    case stop
    with on_stop_hook_cases[OF em stop] obs show ?thesis by (simp add: emitter_observe_def)
  next
    case other
    then show ?thesis using em obs by (simp add: emitter_observe_def Let_def)
  qed
qed

end
