(* ===== verification/Cmux_Outbox_Facts.thy ===== *)
theory Cmux_Outbox_Facts
  imports Cmux_Outbox
begin

text \<open>
  The outbox as a transition system: its invariant, what only grows, and the promises the resident
  relies on. An event is stored once, its row and the cursor move together, and the cursor
  never goes back within a boot.
\<close>

section \<open>Gap snapshots\<close>

lemma try_each_snapshots:
  "try_each (upsert_snapshot c) ob bs = Inr ob' \<Longrightarrow>
   \<exists>rows. ob' = ob\<lparr>ob_snapshots := rows\<rparr>
     \<and> (distinct (map snapshot_key (ob_snapshots ob)) \<longrightarrow> distinct (map snapshot_key rows))
     \<and> snapshot_key ` set rows = snapshot_key ` set (ob_snapshots ob) \<union> (\<lambda>b. (cu_source_instance_id c, bl_method b)) ` set bs
     \<and> (\<forall>s m. fetchone (\<lambda>r. snapshot_key r = (s, m)) rows =
          (case if s = cu_source_instance_id c then find (\<lambda>b. bl_method b = m) (rev bs) else None of
             Some b \<Rightarrow> Some \<lparr>sn_source_instance_id = s, sn_method = m, sn_boot_id = cu_boot_id c, sn_seq = cu_seq c,
                             sn_snapshot_json = bl_snapshot_json b\<rparr>
           | None \<Rightarrow> fetchone (\<lambda>r. snapshot_key r = (s, m)) (ob_snapshots ob)))"
proof (induction bs arbitrary: ob' rule: rev_induct)
  case Nil
  then show ?case by (intro exI[of _ "ob_snapshots ob"]) simp
next
  case (snoc b bs)
  then obtain ob1 where o1: "try_each (upsert_snapshot c) ob bs = Inr ob1" "upsert_snapshot c ob1 b = Inr ob'"
    by (auto simp: try_each_append split: sum.splits)
  let ?r = "\<lparr>sn_source_instance_id = cu_source_instance_id c, sn_method = bl_method b, sn_boot_id = cu_boot_id c,
         sn_seq = cu_seq c, sn_snapshot_json = bl_snapshot_json b\<rparr>"
  from snoc.IH[OF o1(1)] obtain rows where rows: "ob1 = ob\<lparr>ob_snapshots := rows\<rparr>"
    "distinct (map snapshot_key (ob_snapshots ob)) \<longrightarrow> distinct (map snapshot_key rows)"
    "snapshot_key ` set rows = snapshot_key ` set (ob_snapshots ob) \<union> (\<lambda>b. (cu_source_instance_id c, bl_method b)) ` set bs"
    and look: "\<forall>s m. fetchone (\<lambda>r. snapshot_key r = (s, m)) rows =
          (case if s = cu_source_instance_id c then find (\<lambda>b. bl_method b = m) (rev bs) else None of
             Some b \<Rightarrow> Some \<lparr>sn_source_instance_id = s, sn_method = m, sn_boot_id = cu_boot_id c, sn_seq = cu_seq c,
                             sn_snapshot_json = bl_snapshot_json b\<rparr>
           | None \<Rightarrow> fetchone (\<lambda>r. snapshot_key r = (s, m)) (ob_snapshots ob))"
    by blast
  have ob': "ob' = ob\<lparr>ob_snapshots := upsert snapshot_key ?r rows\<rparr>"
    using o1(2) rows(1) by (auto simp: upsert_snapshot_def split: if_splits)
  have "snapshot_key ?r = (cu_source_instance_id c, bl_method b)" by (simp add: snapshot_key_def)
  then have keys: "snapshot_key ` set (upsert snapshot_key ?r rows) =
      insert (cu_source_instance_id c, bl_method b) (snapshot_key ` set rows)"
    using map_key_upsert[of snapshot_key ?r rows] by (metis (no_types, lifting) insert_absorb list.set_map list.simps(15) rotate1.simps(2) set_rotate1)
  show ?case
    by (intro exI[of _ "upsert snapshot_key ?r rows"])
      (use ob' keys rows(2,3) look in \<open>auto simp: fetchone_upsert distinct_upsert snapshot_key_def[of ?r]\<close>)
qed

lemma insert_stream_audit_Inr:
  "insert_stream_audit kind c detail ob = Inr ob' \<Longrightarrow> 0 \<le> cu_seq c \<and> sql_int (cu_seq c)
   \<and> ob' = ob\<lparr>ob_audit := ob_audit ob @
        [\<lparr>sa_audit_id = Suc (length (ob_audit ob)), sa_source_instance_id = cu_source_instance_id c,
          sa_kind = kind, sa_boot_id = cu_boot_id c, sa_seq = cu_seq c, sa_detail_json = detail\<rparr>]\<rparr>"
  by (auto simp: insert_stream_audit_def split: if_splits)

lemma record_resnapshot_cases:
  assumes "record_resnapshot c bs n ob = (r, ob')"
  obtains (failed) x where "r = Inl x" "ob' = ob"
  | (done_) rows where "r = Inr ()" "bs \<noteq> []" "distinct (map bl_method bs)" "0 \<le> cu_seq c" "sql_int (cu_seq c)"
      "\<And>cur. cursor ob (cu_source_instance_id c) = Some cur \<Longrightarrow> cu_boot_id cur = cu_boot_id c \<Longrightarrow> cu_seq cur \<le> cu_seq c"
      "try_each (upsert_snapshot c) ob bs = Inr (ob\<lparr>ob_snapshots := rows\<rparr>)"
      "ob' = ob\<lparr>ob_snapshots := rows, ob_audit := ob_audit ob @
        [\<lparr>sa_audit_id = Suc (length (ob_audit ob)), sa_source_instance_id = cu_source_instance_id c,
          sa_kind = ''gap_resnapshot'', sa_boot_id = cu_boot_id c, sa_seq = cu_seq c,
          sa_detail_json = resnapshot_detail (map bl_method bs) n\<rparr>],
        ob_cursors := upsert cu_source_instance_id c (ob_cursors ob)\<rparr>"
proof (cases r)
  case (Inl x)
  moreover from this assms have "ob' = ob"
    by (auto simp: record_resnapshot_def split: if_splits sum.splits option.splits)
  ultimately show ?thesis by (rule failed)
next
  case (Inr u)
  from assms Inr have b: "bs \<noteq> []" "distinct (map bl_method bs)"
    "\<And>cur. cursor ob (cu_source_instance_id c) = Some cur \<Longrightarrow> cu_boot_id cur = cu_boot_id c \<Longrightarrow> cu_seq cur \<le> cu_seq c"
    "resnapshot_body c bs (resnapshot_detail (map bl_method bs) n) ob = Inr ob'"
    by (auto simp: record_resnapshot_def split: if_splits sum.splits option.splits)
  from b(4) obtain o1 o2 where o: "try_each (upsert_snapshot c) ob bs = Inr o1"
    "insert_stream_audit ''gap_resnapshot'' c (resnapshot_detail (map bl_method bs) n) o1 = Inr o2"
    "upsert_cursor c o2 = Inr ob'"
    by (auto simp: resnapshot_body_def split: sum.splits)
  from try_each_snapshots[OF o(1)] obtain rows where o1: "o1 = ob\<lparr>ob_snapshots := rows\<rparr>" by blast
  note o2 = insert_stream_audit_Inr[OF o(2)]
  note o3 = upsert_cursor_Inr[OF o(3)]
  show ?thesis
    by (rule done_[of rows]) (use b o o1 o2 o3 Inr in simp_all)
qed

lemma record_reconnect_replay_cases:
  assumes "record_reconnect_replay c q n i k dc ob = (r, ob')"
  obtains (failed) x where "r = Inl x" "ob' = ob"
  | (done_) detail where "r = Inr ()" "cursor ob (cu_source_instance_id c) = Some c"
      "ob' = ob\<lparr>ob_audit := ob_audit ob @
        [\<lparr>sa_audit_id = Suc (length (ob_audit ob)), sa_source_instance_id = cu_source_instance_id c,
          sa_kind = ''reconnect_replay'', sa_boot_id = cu_boot_id c, sa_seq = cu_seq c,
          sa_detail_json = detail\<rparr>]\<rparr>"
  using assms
  by (auto simp: record_reconnect_replay_def insert_stream_audit_def split: if_splits)

section \<open>Steps\<close>

inductive outbox_step :: "event_outbox \<Rightarrow> event_outbox \<Rightarrow> bool" where
  commit_step: "outbox_step ob (snd (commit_event e permit ob))"
| resnapshot_step: "outbox_step ob (snd (record_resnapshot c bs n ob))"
| reconnect_step: "outbox_step ob (snd (record_reconnect_replay c q n i k dc ob))"

text \<open>A step that changes anything did one of three things.\<close>

lemma outbox_step_cases:
  assumes "outbox_step ob ob'" "ob' \<noteq> ob"
  obtains (event) e permit where "new_event e permit ob" "ob' = with_event e ob"
  | (snapshot) c bs n where "record_resnapshot c bs n ob = (Inr (), ob')"
  | (replay) c q n i k dc where "record_reconnect_replay c q n i k dc ob = (Inr (), ob')"
  using assms(1)
proof cases
  case (commit_step e permit)
  with assms(2) show ?thesis
    using event[of e permit] by (auto simp: commit_state split: if_splits)
next
  case (resnapshot_step c bs n)
  with assms(2) show ?thesis
    using snapshot[of c bs n] by (cases "record_resnapshot c bs n ob") (auto elim: record_resnapshot_cases)
next
  case (reconnect_step c q n i k dc)
  with assms(2) show ?thesis
    using replay[of c q n i k dc]
    by (cases "record_reconnect_replay c q n i k dc ob") (auto elim: record_reconnect_replay_cases)
qed

lemma wf_with_event:
  assumes "wf_outbox ob" "new_event e permit ob"
  shows "wf_outbox (with_event e ob)"
proof -
  have cur: "cursor (with_event e ob) s = (if s = de_source_instance_id e then Some (event_cursor e) else cursor ob s)" for s
    by (simp add: with_event_def cursor_def fetchone_upsert event_cursor_def)
  show ?thesis
    using assms validate_event_seq[of e]
    unfolding wf_outbox_def cur
    by (auto simp: with_event_def new_event_def distinct_upsert event_cursor_def cursor_ok_def
        intro!: list_all_upsert simp del: upt_Suc)
qed

lemma wf_resnapshot:
  assumes "wf_outbox ob" "record_resnapshot c bs n ob = (r, ob')"
  shows "wf_outbox ob' \<and> outbox_grows ob ob'"
  using assms(2)
proof (cases rule: record_resnapshot_cases)
  case (failed x)
  with assms(1) show ?thesis by (simp add: outbox_grows_refl)
next
  case (done_ rows)
  from try_each_snapshots[OF done_(7)] obtain rows' where r: "ob\<lparr>ob_snapshots := rows\<rparr> = ob\<lparr>ob_snapshots := rows'\<rparr>"
    "distinct (map snapshot_key (ob_snapshots ob)) \<longrightarrow> distinct (map snapshot_key rows')"
    "snapshot_key ` set rows' = snapshot_key ` set (ob_snapshots ob) \<union> (\<lambda>b. (cu_source_instance_id c, bl_method b)) ` set bs"
    by (elim exE conjE)
  have "rows' = rows" using arg_cong[OF r(1), of ob_snapshots] by simp
  note rows = r(2,3)[unfolded this]
  have cur: "cursor ob' s = (if s = cu_source_instance_id c then Some c else cursor ob s)" for s
    by (simp add: done_(8) cursor_def fetchone_upsert)
  show ?thesis
    using assms(1) done_(4,5) rows
    unfolding wf_outbox_def outbox_grows_def cur
    by (simp add: done_(8) distinct_upsert cursor_ok_def list_all_upsert)
qed

lemma wf_reconnect:
  assumes "wf_outbox ob" "record_reconnect_replay c q n i k dc ob = (r, ob')"
  shows "wf_outbox ob' \<and> outbox_grows ob ob'"
  using assms(2)
proof (cases rule: record_reconnect_replay_cases)
  case (failed x)
  with assms(1) show ?thesis by (simp add: outbox_grows_refl)
next
  case (done_ detail)
  with assms(1) show ?thesis by (auto simp: wf_outbox_def outbox_grows_def)
qed

lemma outbox_step_inv:
  assumes "wf_outbox ob" "outbox_step ob ob'"
  shows "wf_outbox ob' \<and> outbox_grows ob ob'"
proof (cases "ob' = ob")
  case True
  with assms(1) show ?thesis by (simp add: outbox_grows_refl)
next
  case False
  with assms(2) show ?thesis
  proof (cases rule: outbox_step_cases)
    case (event e permit)
    then show ?thesis
      using wf_with_event[OF assms(1)]
      by (auto simp: outbox_grows_def with_event_def cursor_def fetchone_upsert)
  next
    case (snapshot c bs n)
    then show ?thesis using wf_resnapshot[OF assms(1)] by blast
  next
    case (replay c q n i k dc)
    then show ?thesis using wf_reconnect[OF assms(1)] by blast
  qed
qed

lemma wf_empty_outbox: "wf_outbox empty_outbox"
  by (simp add: wf_outbox_def empty_outbox_def)

lemma count_list_distinct: "distinct xs \<Longrightarrow> count_list xs x = of_bool (x \<in> set xs)"
  by (induction xs) (auto simp: count_list_0_iff)

interpretation outbox: progress_system "\<lambda>ob. ob = empty_outbox" outbox_step wf_outbox outbox_grows
  by unfold_locales
    (auto simp: wf_empty_outbox outbox_step_inv outbox_grows_refl intro: outbox_grows_trans)

section \<open>Properties\<close>

text \<open>Committing an observed event has three outcomes. It is inserted exactly when it is well formed,
  its cursor triple and event id are new, and it advances the cursor, or changes the boot with
  permission; then its row and the cursor are written together. It is a duplicate exactly when the
  very same event is stored, and then nothing changes. Otherwise an exception is raised and nothing
  changes.\<close>

theorem commit_event_outcomes:
  assumes "outbox_step\<^sup>*\<^sup>* empty_outbox ob"
  shows "case commit_event e permit ob of
      (Inr INSERTED, ob') \<Rightarrow> new_event e permit ob \<and> ob' = with_event e ob
        \<and> cursor ob' (de_source_instance_id e) = Some (event_cursor e)
        \<and> outbox_events ob' (de_source_instance_id e) = outbox_events ob (de_source_instance_id e) @ [e]
    | (Inr DUPLICATE, ob') \<Rightarrow> e \<in> set (ob_events ob) \<and> ob' = ob
    | (Inl x, ob') \<Rightarrow> \<not> new_event e permit ob \<and> e \<notin> set (ob_events ob) \<and> ob' = ob"
proof -
  have wf: "wf_outbox ob" using outbox.reachable_inv[OF refl assms] .
  consider "new_event e permit ob" | "e \<in> set (ob_events ob)" | "\<not> new_event e permit ob" "e \<notin> set (ob_events ob)"
    by blast
  then show ?thesis
  proof cases
    case 1
    then show ?thesis
      by (simp add: commit_new with_event_def cursor_def fetchone_upsert outbox_events_def)
        (simp add: event_cursor_def)
  next
    case 2
    with wf have "commit_event e permit ob = (Inr DUPLICATE, ob)"
      by (intro commit_known) (auto simp: wf_outbox_def)
    with 2 show ?thesis by simp
  next
    case 3
    then obtain x where "commit_event e permit ob = (Inl x, ob)" using commit_other[of e permit ob] by blast
    with 3 show ?thesis by simp
  qed
qed

text \<open>C10: Exactly once. An event whose commit returned stays stored whatever runs later: committing it
  again, with or without permission to change the boot, answers \<open>duplicate\<close> and changes nothing, and
  the event list of its source holds it exactly once.\<close>

theorem commit_event_exactly_once:
  assumes "outbox_step\<^sup>*\<^sup>* empty_outbox ob" "commit_event e permit ob = (Inr disposition, ob1)"
    and "outbox_step\<^sup>*\<^sup>* ob1 ob2"
  shows "commit_event e permit2 ob2 = (Inr DUPLICATE, ob2)
    \<and> count_list (outbox_events ob2 (de_source_instance_id e)) e = 1"
proof -
  have "outbox_step\<^sup>*\<^sup>* empty_outbox ob1"
    using assms(1,2) commit_step[of ob e permit] by (simp add: rtranclp.rtrancl_into_rtrancl)
  then have wf1: "wf_outbox ob1" using outbox.reachable_inv by blast
  then have wf2: "wf_outbox ob2" and grows: "outbox_grows ob1 ob2"
    using outbox.inv_steps[OF assms(3)] outbox.steps_le[OF assms(3)] by blast+
  have wf: "wf_outbox ob" using outbox.reachable_inv[OF refl assms(1)] .
  have "e \<in> set (ob_events ob1)"
  proof (cases "new_event e permit ob")
    case True
    with assms(2) show ?thesis by (auto simp: commit_new with_event_def)
  next
    case False
    with assms(2) commit_other[of e permit ob] commit_state[of e permit ob] show ?thesis by auto
  qed
  then have e: "e \<in> set (ob_events ob2)" using grows by (auto simp: outbox_grows_def dest: set_mono_prefix)
  then have "commit_event e permit2 ob2 = (Inr DUPLICATE, ob2)"
    using wf2 by (intro commit_known) (auto simp: wf_outbox_def)
  moreover have "distinct (ob_events ob2)" using wf2 by (auto simp: wf_outbox_def distinct_map)
  then have "count_list (outbox_events ob2 (de_source_instance_id e)) e = 1"
    using e by (simp add: outbox_events_def count_list_distinct)
  ultimately show ?thesis by simp
qed

text \<open>No operation moves the cursor of a source back: after a step it is where it was, or at a
  position no smaller in the same boot, or in another boot.\<close>

theorem cursor_never_regresses:
  assumes "outbox_step\<^sup>*\<^sup>* empty_outbox ob" "outbox_step ob ob'" "cursor ob s = Some c"
  shows "\<exists>c'. cursor ob' s = Some c' \<and> (cu_boot_id c' = cu_boot_id c \<longrightarrow> cu_seq c \<le> cu_seq c')"
proof (cases "ob' = ob")
  case True
  with assms(3) show ?thesis by simp
next
  case False
  with assms(2) show ?thesis
  proof (cases rule: outbox_step_cases)
    case (event e permit)
    with assms(3) show ?thesis
      by (auto simp: with_event_def cursor_def fetchone_upsert new_event_def event_cursor_def split: if_splits)
  next
    case (snapshot d bs n)
    then show ?thesis
    proof (cases rule: record_resnapshot_cases)
      case (done_ rows)
      with assms(3) show ?thesis by (auto simp: cursor_def fetchone_upsert)
    qed simp
  next
    case (replay d q n i k dc)
    then show ?thesis
    proof (cases rule: record_reconnect_replay_cases)
      case (done_ detail)
      with assms(3) show ?thesis by (simp add: cursor_def)
    qed simp
  qed
qed

text \<open>Witnesses: one event committed.\<close>

definition outbox_example_event :: DerivedEvent where
  "outbox_example_event =
     \<lparr>de_source_instance_id = ''host'', de_boot_id = ''boot'', de_seq = 4, de_source_event_id = ''ev4'',
      de_event_name = ''surface.input_sent'', de_event_json = ''{}''\<rparr>"

definition outbox_example :: event_outbox where
  "outbox_example = snd (commit_event outbox_example_event False empty_outbox)"

lemma outbox_example_step: "outbox_step\<^sup>*\<^sup>* empty_outbox outbox_example"
  unfolding outbox_example_def by (blast intro: commit_step)

lemma outbox_example_commit: "commit_event outbox_example_event False empty_outbox = (Inr INSERTED, outbox_example)"
proof -
  have "fst (commit_event outbox_example_event False empty_outbox) = Inr INSERTED" by code_simp
  then show ?thesis by (simp add: outbox_example_def prod_eq_iff)
qed

text \<open>An instance.\<close>

theorem commit_event_outcomes_witness:
  "commit_event outbox_example_event False empty_outbox = (Inr INSERTED, with_event outbox_example_event empty_outbox)"
  using commit_event_outcomes[of empty_outbox outbox_example_event False] outbox_example_commit by simp

text \<open>Witness of C10.\<close>

theorem commit_event_exactly_once_witness:
  "commit_event outbox_example_event True outbox_example = (Inr DUPLICATE, outbox_example)"
  using commit_event_exactly_once[OF _ outbox_example_commit, of outbox_example True] by simp

text \<open>An instance.\<close>

theorem cursor_never_regresses_witness:
  "\<exists>c'. cursor (snd (commit_event (outbox_example_event\<lparr>de_seq := 3, de_source_event_id := ''ev3''\<rparr>) False outbox_example))
      ''host'' = Some c' \<and> (cu_boot_id c' = ''boot'' \<longrightarrow> 4 \<le> cu_seq c')"
proof -
  have "cursor outbox_example ''host'' = Some \<lparr>cu_source_instance_id = ''host'', cu_boot_id = ''boot'', cu_seq = 4\<rparr>"
    by code_simp
  from cursor_never_regresses[OF outbox_example_step commit_step this,
      of "outbox_example_event\<lparr>de_seq := 3, de_source_event_id := ''ev3''\<rparr>" False]
  show ?thesis by simp
qed

end
