(* ===== verification/Cmux_Producer.thy ===== *)
theory Cmux_Producer
  imports Cmux_Emitter Cmux_Outbox_Facts
begin

text \<open>
  \<open>plugins/cmux/yatagarasu_cmux/receipt_producer.py\<close>: stored events become core evidence. \<open>translate\<close> reads the stored
  JSON back and takes the correlation fields from the marker that was seen on the wire;
  \<open>accept_for_emission\<close> drops repeated callbacks of one turn; \<open>recover\<close> rebuilds the chains
  from the outbox.
\<close>

section \<open>Translation\<close>

record TranslatedObservation =
  to_source_event :: SourceEventRef
  to_payload :: frame
  to_observed_at :: string
  to_workspace_id :: "string option"

definition as_text :: "json \<Rightarrow> string option" where
  "as_text v = (case v of JStr s \<Rightarrow> Some s | _ \<Rightarrow> None)"

definition translate :: "DerivedEvent \<Rightarrow> TranslatedObservation res" where
  "translate e =
     (case loads (de_event_json e) of
        Inl x \<Rightarrow>
          Inl (case x of
             JSONDecodeError \<Rightarrow> ReceiptProducerError ''derived event JSON is malformed''
           | TypeError _ \<Rightarrow> ReceiptProducerError ''derived event JSON is malformed''
           | _ \<Rightarrow> x)
      | Inr (JObj p) \<Rightarrow>
          if dict_get p ''boot_id'' \<noteq> JStr (de_boot_id e) \<or> dict_get p ''event_id'' \<noteq> JStr (de_source_event_id e)
             \<or> dict_get p ''name'' \<noteq> JStr (de_event_name e) \<or> \<not> eq_int (dict_get p ''seq'') (de_seq e)
            then Inl (ReceiptProducerError ''derived event identity contradicts its row'')
          else let payload = (case dict_get p ''payload'' of JObj q \<Rightarrow> q | _ \<Rightarrow> [])
          in if \<not> truthy (as_text (dict_get p ''occurred_at''))
               then Inl (ReceiptProducerError ''derived event has no observation timestamp'')
             else (case (if de_event_name e = ''workspace.prompt.submitted''
                         then extract_marker (as_text (dict_get payload ''message_preview'')) else Inr None) of
               Inl x \<Rightarrow> Inl x
             | Inr marker \<Rightarrow> Inr
                 \<lparr>to_source_event =
                    \<lparr>se_source_instance_id = de_source_instance_id e, se_boot_id = de_boot_id e, se_seq = de_seq e,
                     se_source_event_id = de_source_event_id e, se_event_name = de_event_name e,
                     se_session_id = as_text (dict_get payload ''session_id''),
                     se_binding_id = map_option any_binding_id marker,
                     se_marker_signature = map_option any_signature marker\<rparr>,
                  to_payload = payload,
                  to_observed_at = the (as_text (dict_get p ''occurred_at'')),
                  to_workspace_id =
                    (if truthy (as_text (dict_get p ''workspace_id'')) then as_text (dict_get p ''workspace_id'') else None)\<rparr>)
      | Inr _ \<Rightarrow> Inl (ReceiptProducerError ''derived event JSON is not an object''))"

definition source_event_from_derived :: "DerivedEvent \<Rightarrow> (SourceEventRef \<times> frame \<times> string) res" where
  "source_event_from_derived e =
     map_sum id (\<lambda>obs. (to_source_event obs, to_payload obs, to_observed_at obs)) (translate e)"

section \<open>Repeated callbacks\<close>

record WorkspaceChain =
  wc_marker_signature :: "string option"
  wc_accepted :: "(string \<times> string option) list"

definition empty_chain :: WorkspaceChain where
  "empty_chain = \<lparr>wc_marker_signature = None, wc_accepted = []\<rparr>"

type_synonym workspace_chains = "string \<Rightarrow> WorkspaceChain option"

definition accept_for_emission :: "TranslatedObservation \<Rightarrow> workspace_chains \<Rightarrow> bool \<times> workspace_chains" where
  "accept_for_emission obs chs =
     (let key = workspace_key (to_workspace_id obs);
          name = se_event_name (to_source_event obs);
          phase = as_text (dict_get (to_payload obs) ''phase'')
      in if take 11 name = ''agent.hook.'' \<and> phase \<noteq> None \<and> phase \<noteq> Some ''completed'' then (False, chs)
         else if name = ''surface.input_sent'' then (True, chs(key \<mapsto> empty_chain))
         else let chain = (case chs key of None \<Rightarrow> empty_chain | Some c \<Rightarrow> c);
                  sig = (if name = ''workspace.prompt.submitted'' then se_marker_signature (to_source_event obs)
                         else wc_marker_signature chain);
                  chain1 = (if name = ''workspace.prompt.submitted''
                            then \<lparr>wc_marker_signature = sig,
                                  wc_accepted = (if wc_marker_signature chain = None \<or> wc_marker_signature chain = sig
                                                 then wc_accepted chain else [])\<rparr>
                            else chain)
         in if name \<notin> set [''workspace.prompt.submitted'', ''agent.hook.UserPromptSubmit'', ''agent.hook.Stop'']
              then (True, chs(key \<mapsto> chain1))
            else if (name, sig) \<in> set (wc_accepted chain1) then (False, chs(key \<mapsto> chain1))
            else (True, chs(key \<mapsto> chain1\<lparr>wc_accepted := (name, sig) # wc_accepted chain1\<rparr>)))"

section \<open>The producer\<close>

record producer =
  pr_emitter :: emitter
  pr_chains :: workspace_chains

definition new_producer :: producer where
  "new_producer = \<lparr>pr_emitter = new_emitter, pr_chains = (\<lambda>_. None)\<rparr>"

definition producer_observe ::
  "'s receipt_env \<Rightarrow> DerivedEvent \<Rightarrow> producer \<times> 's \<Rightarrow> py_exc option \<times> producer \<times> 's" where
  "producer_observe env e st =
     (case st of (pr, s) \<Rightarrow>
        (case translate e of
           Inl x \<Rightarrow> (Some x, pr, s)
         | Inr obs \<Rightarrow>
           (case accept_for_emission obs (pr_chains pr) of
              (False, chs) \<Rightarrow> (None, pr\<lparr>pr_chains := chs\<rparr>, s)
            | (True, chs) \<Rightarrow>
              (case emitter_observe env (to_source_event obs) (to_payload obs) (to_observed_at obs)
                      (to_workspace_id obs) (pr_emitter pr, s) of
                 (x, em, s') \<Rightarrow> (x, \<lparr>pr_emitter = em, pr_chains = chs\<rparr>, s')))))"

text \<open>A sequence of events until the first exception.\<close>

fun observe_all ::
  "'s receipt_env \<Rightarrow> DerivedEvent list \<Rightarrow> producer \<times> 's \<Rightarrow> py_exc option \<times> producer \<times> 's" where
  "observe_all env [] st = (None, st)"
| "observe_all env (e # es) st =
     (case producer_observe env e st of
        (Some x, st') \<Rightarrow> (Some x, st')
      | (None, st') \<Rightarrow> observe_all env es st')"

definition recover ::
  "'s receipt_env \<Rightarrow> DerivedEvent list \<Rightarrow> producer \<times> 's \<Rightarrow> py_exc option \<times> producer \<times> 's" where
  "recover env events st = observe_all env events (new_producer, snd st)"

section \<open>Facts\<close>

lemma producer_observe_cases:
  assumes "emitter_ok env (pr_emitter pr)" "producer_observe env e (pr, s) = (x, pr', s')"
  shows "emitter_ok env (pr_emitter pr')
    \<and> (s' = s \<or> (\<exists>r. proper_receipt env r \<and> s' = snd (re_core_client env r s)))"
proof (cases "translate e")
  case (Inl y)
  with assms show ?thesis by (simp add: producer_observe_def)
next
  case (Inr obs)
  obtain ok chs where a: "accept_for_emission obs (pr_chains pr) = (ok, chs)" by fastforce
  show ?thesis
  proof (cases ok)
    case False
    with assms Inr a show ?thesis by (auto simp: producer_observe_def)
  next
    case True
    obtain y em s1 where o: "emitter_observe env (to_source_event obs) (to_payload obs) (to_observed_at obs)
        (to_workspace_id obs) (pr_emitter pr, s) = (y, em, s1)" by (metis prod_cases3)
    from emitter_observe_cases[OF assms(1) o] show ?thesis
      using assms(2) Inr a True o by (auto simp: producer_observe_def)
  qed
qed

text \<open>What a sink that keeps an invariant on proper receipts sees from a whole run.\<close>

lemma observe_all_inv:
  assumes sink: "\<And>r s. proper_receipt env r \<Longrightarrow> I s \<Longrightarrow> I (snd (re_core_client env r s))"
  shows "emitter_ok env (pr_emitter pr) \<Longrightarrow> I s \<Longrightarrow> observe_all env es (pr, s) = (x, pr', s') \<Longrightarrow>
    emitter_ok env (pr_emitter pr') \<and> I s'"
proof (induction es arbitrary: pr s)
  case Nil
  then show ?case by simp
next
  case (Cons e es)
  obtain y pr1 s1 where o: "producer_observe env e (pr, s) = (y, pr1, s1)" by (metis prod_cases3)
  have "emitter_ok env (pr_emitter pr1) \<and> I s1"
    using producer_observe_cases[OF Cons.prems(1) o] sink Cons.prems(2) by auto
  with Cons o show ?case by (cases y) auto
qed

text \<open>The state of the producer does not depend on the sink, only on whether the sink raised.\<close>

lemma emitter_observe_state:
  assumes "emitter_observe env ev payload t w (em, s) = (None, em', s')"
    and "emitter_observe env ev payload t w (em, u) = (None, em'', u')"
  shows "em'' = em'"
  using assms
  by (auto simp: emitter_observe_def on_prompt_hook_def on_stop_hook_def Let_def
      split: if_splits option.splits prod.splits)

lemma producer_observe_state:
  assumes "producer_observe env e (pr, s) = (None, pr', s')" "producer_observe env e (pr, u) = (None, pr'', u')"
  shows "pr'' = pr'"
  using assms emitter_observe_state
  by (fastforce simp: producer_observe_def split: sum.splits prod.splits bool.splits)

lemma observe_all_state:
  "observe_all env es (pr, s) = (None, pr', s') \<Longrightarrow> observe_all env es (pr, u) = (None, pr'', u') \<Longrightarrow> pr'' = pr'"
proof (induction es arbitrary: pr s u)
  case (Cons e es)
  from Cons.prems obtain pr1 s1 where a: "producer_observe env e (pr, s) = (None, pr1, s1)"
    "observe_all env es (pr1, s1) = (None, pr', s')" by (auto split: prod.splits option.splits)
  from Cons.prems obtain pr2 u1 where b: "producer_observe env e (pr, u) = (None, pr2, u1)"
    "observe_all env es (pr2, u1) = (None, pr'', u')" by (auto split: prod.splits option.splits)
  from producer_observe_state[OF a(1) b(1)] Cons.IH[OF a(2)] b(2) show ?case by blast
qed simp

lemma observe_all_append:
  "observe_all env (xs @ ys) st =
     (case observe_all env xs st of (Some x, st') \<Rightarrow> (Some x, st') | (None, st') \<Rightarrow> observe_all env ys st')"
  by (induction xs arbitrary: st) (auto split: prod.split option.split)

text \<open>A sink that only appends what it is given: what a call appends does not depend on what is already there.\<close>

definition recording :: "'s list receipt_env \<Rightarrow> (Receipt \<Rightarrow> 's) \<Rightarrow> bool" where
  "recording env f = (re_core_client env = (\<lambda>r log. (None, log @ [f r])))"

definition append_log :: "'s list \<Rightarrow> py_exc option \<times> 'p \<times> 's list \<Rightarrow> py_exc option \<times> 'p \<times> 's list" where
  "append_log log r = (case r of (x, p, new) \<Rightarrow> (x, p, log @ new))"

lemma emitter_observe_recording:
  "recording env f \<Longrightarrow>
   emitter_observe env ev payload t w (em, log) = append_log log (emitter_observe env ev payload t w (em, []))"
  by (auto simp: recording_def append_log_def emitter_observe_def on_prompt_hook_def on_stop_hook_def Let_def
      split: option.split prod.split)

lemma producer_observe_recording:
  "recording env f \<Longrightarrow> producer_observe env e (pr, log) = append_log log (producer_observe env e (pr, []))"
  using emitter_observe_recording[of env f _ _ _ _ "pr_emitter pr" log]
  by (auto simp: producer_observe_def append_log_def split: sum.split prod.split bool.split)

lemma observe_all_recording:
  "recording env f \<Longrightarrow> observe_all env es (pr, log) = append_log log (observe_all env es (pr, []))"
proof (induction es arbitrary: pr log)
  case Nil
  then show ?case by (simp add: append_log_def)
next
  case (Cons e es)
  obtain x pr1 new where o: "producer_observe env e (pr, []) = (x, pr1, new)" by (metis prod_cases3)
  then have "producer_observe env e (pr, log) = (x, pr1, log @ new)"
    using producer_observe_recording[OF Cons.prems, of e pr log] by (simp add: append_log_def)
  with o Cons.IH[OF Cons.prems, of pr1 "log @ new"] Cons.IH[OF Cons.prems, of pr1 new] show ?case
    by (cases x) (simp_all add: append_log_def split: prod.split)
qed

end
