(* ===== verification/Cmux_Turn.thy ===== *)
theory Cmux_Turn
  imports Cmux_Producer
begin

text \<open>
  The receipt plane as a whole: bus frames are projected, stored, translated back and fed to the emitter. The
  facts follow one turn of a session through these stages: what survives the projection, what the
  producer then sees, and which receipts it submits.
\<close>

section \<open>What survives the projection\<close>

lemma dict_get_dict_set: "dict_get (dict_set d k v) k' = (if k' = k then v else dict_get d k')"
  by (induction d) (auto simp: dict_get_def)

lemma as_text_canon: "as_text (canon b v) = as_text v"
  by (cases v) (simp_all add: as_text_def Let_def)

lemma map_of_filter_entry:
  "distinct (map fst p) \<Longrightarrow> map_of p k = Some v \<Longrightarrow> P (k, v) \<Longrightarrow> map_of (filter P p) k = Some v"
  by (induction p) (auto simp: image_iff)

lemma map_of_filter_none: "map_of p k = None \<Longrightarrow> map_of (filter P p) k = None"
  by (induction p) (auto split: if_splits)

text \<open>Text under a known key is kept; nothing that is no text becomes text.\<close>

lemma as_text_filter:
  assumes "distinct (map fst p)" "k \<in> set SAFE_PAYLOAD_KEYS"
  shows "as_text (dict_get (filter (\<lambda>(k, v). k \<in> set SAFE_PAYLOAD_KEYS \<and> is_safe_payload_value v) p) k) =
    as_text (dict_get p k)" (is "as_text (dict_get (filter ?P p) k) = _")
proof (cases "map_of p k")
  case None
  with map_of_filter_none[OF this, of ?P] show ?thesis by (simp add: dict_get_def)
next
  case (Some v)
  show ?thesis
  proof (cases "is_safe_payload_value v")
    case True
    with map_of_filter_entry[OF assms(1) Some, of ?P] assms(2) Some show ?thesis by (simp add: dict_get_def)
  next
    case False
    then have "as_text v = None" by (cases v) (auto simp: is_safe_payload_value_def is_scalar_def as_text_def)
    moreover have "map_of (filter ?P p) k = None"
    proof (rule ccontr)
      assume "map_of (filter ?P p) k \<noteq> None"
      then obtain u where "map_of (filter ?P p) k = Some u" by blast
      then have "(k, u) \<in> set (filter ?P p)" by (rule map_of_SomeD)
      moreover from this have "u = v"
        using Some assms(1) map_of_is_SomeI[OF assms(1), of k u] by simp
      ultimately show False using False by simp
    qed
    ultimately show ?thesis using Some by (simp add: dict_get_def as_text_def)
  qed
qed

lemma safe_payload_text:
  assumes "safe_payload (JObj p) = Inr q" "distinct (map fst p)" "k \<in> set SAFE_PAYLOAD_KEYS"
  shows "as_text (dict_get q k) = as_text (dict_get p k)"
proof -
  have "k \<noteq> ''message_preview''" using assms(3) by (auto simp: SAFE_PAYLOAD_KEYS_def)
  with assms as_text_filter[OF assms(2,3)] show ?thesis
    by (auto simp: safe_payload_def Let_def dict_get_dict_set split: json.splits sum.splits option.splits)
qed

text \<open>A short marker found in a preview is found again in what is kept of the preview.\<close>

lemma extract_marker_text:
  assumes "extract_marker (Some s) = Inr (Some (Short m))"
  shows "\<exists>t. marker_text (Short m) = Inr t \<and> extract_marker (Some t) = Inr (Some (Short m))"
proof -
  from extract_marker_short[OF assms] obtain p r bs where
    i: "is_token_id (sh_delivery_id m)" "is_token_id (sh_binding_id m)" "length bs = 32" "sh_signature m = hex bs"
    by (rule extract_short_Some)
  have "marker_text (Short m) = Inr (short_token (sh_delivery_id m) (sh_binding_id m) bs)"
    using i(4) by (simp add: marker_text_def short_text_def short_token_def)
  moreover have "extract_marker (Some (short_token (sh_delivery_id m) (sh_binding_id m) bs)) = Inr (Some (Short m))"
    using extract_written[OF i(1,2,3), of "[]" "[]"] i(4) by simp
  ultimately show ?thesis by blast
qed

lemma safe_payload_marker:
  assumes "safe_payload (JObj p) = Inr q" "dict_get p ''message_preview'' = JStr s"
    and "extract_marker (Some s) = Inr (Some (Short m))"
  shows "\<exists>t. dict_get q ''message_preview'' = JStr t \<and> extract_marker (Some t) = Inr (Some (Short m))"
  using assms extract_marker_text[OF assms(3)] by (auto simp: safe_payload_def Let_def dict_get_dict_set)

section \<open>What the producer sees\<close>

text \<open>A well-formed bus event of a workspace, with its time and payload, and the event that is stored for it.\<close>

definition bus_event ::
  "string \<Rightarrow> string \<Rightarrow> string option \<Rightarrow> string \<Rightarrow> string \<Rightarrow> frame \<Rightarrow> frame \<Rightarrow> DerivedEvent \<Rightarrow> bool" where
  "bus_event src boot w name t p f e =
     (wf_json (JObj f) \<and> project src f boot = Inr e \<and> de_event_name e = name
      \<and> dict_get f ''occurred_at'' = JStr t \<and> t \<noteq> []
      \<and> as_text (dict_get f ''workspace_id'') = w \<and> dict_get f ''payload'' = JObj p)"

text \<open>The core's view of a stored event.\<close>

definition source_ref :: "DerivedEvent \<Rightarrow> string option \<Rightarrow> AnyMarker option \<Rightarrow> SourceEventRef" where
  "source_ref e session marker =
     \<lparr>se_source_instance_id = de_source_instance_id e, se_boot_id = de_boot_id e, se_seq = de_seq e,
      se_source_event_id = de_source_event_id e, se_event_name = de_event_name e, se_session_id = session,
      se_binding_id = map_option any_binding_id marker, se_marker_signature = map_option any_signature marker\<rparr>"

lemma translate_bus_event:
  assumes "bus_event src boot w name t p f e"
  shows "\<exists>q. safe_payload (JObj p) = Inr q \<and> distinct (map fst q) \<and> distinct (map fst p)
    \<and> translate e =
       (case (if name = ''workspace.prompt.submitted''
              then extract_marker (as_text (dict_get q ''message_preview'')) else Inr None) of
          Inl x \<Rightarrow> Inl x
        | Inr marker \<Rightarrow> Inr \<lparr>to_source_event = source_ref e (as_text (dict_get p ''session_id'')) marker,
            to_payload = sort_key fst q, to_observed_at = t,
            to_workspace_id = (if truthy w then w else None)\<rparr>)"
proof -
  note b = assms[unfolded bus_event_def]
  from b have "project src f boot = Inr e" by blast
  then obtain seq i n q where q: "safe_payload (dict_get f ''payload'') = Inr q"
    and e: "e = \<lparr>de_source_instance_id = src, de_boot_id = boot, de_seq = seq, de_source_event_id = i,
         de_event_name = n, de_event_json = dumps (projected boot seq i n q f)\<rparr>"
    by (rule project_Inr)
  have wfp: "wf_json (JObj p)" using b wf_dict_get[of f "''payload''"] by simp
  have sp: "safe_payload (JObj p) = Inr q" using q b by simp
  from safe_payload_entries[OF wfp sp] have wfq: "wf_json (JObj q)" "list_all safe_entry q" by auto
  have "as_text (dict_get q ''session_id'') = as_text (dict_get p ''session_id'')"
    using sp wfp by (intro safe_payload_text) (simp_all add: SAFE_PAYLOAD_KEYS_def)
  moreover have "n = name" using b e by simp
  moreover have "loads (de_event_json e) = Inr (JObj
     [(''boot_id'', JStr boot), (''category'', canon True (dict_get f ''category'')), (''event_id'', JStr i),
      (''name'', JStr n), (''occurred_at'', JStr t), (''pane_id'', canon True (dict_get f ''pane_id'')),
      (''payload'', JObj (sort_key fst q)), (''seq'', JInt seq), (''source'', canon True (dict_get f ''source'')),
      (''surface_id'', canon True (dict_get f ''surface_id'')), (''window_id'', canon True (dict_get f ''window_id'')),
      (''workspace_id'', canon True (dict_get f ''workspace_id''))])" (is "_ = Inr (JObj ?d)")
    using loads_projected[of f q boot seq i n] b wfq e by simp
  moreover have "dict_get ?d ''boot_id'' = JStr boot" "dict_get ?d ''event_id'' = JStr i" "dict_get ?d ''name'' = JStr n"
    "dict_get ?d ''seq'' = JInt seq" "dict_get ?d ''payload'' = JObj (sort_key fst q)"
    "dict_get ?d ''occurred_at'' = JStr t" "as_text (dict_get ?d ''workspace_id'') = w"
    using b by (simp_all add: dict_get_def[of "_ # _"] as_text_canon)
  moreover have "distinct (map fst q)" "distinct (map fst p)" using wfq wfp by auto
  ultimately show ?thesis
    using sp b e
    by (auto simp: translate_def Let_def eq_int_def dict_get_sort_key source_ref_def as_text_def[of "JStr t"]
        split: sum.split)
qed

section \<open>One turn\<close>

text \<open>The filter over the four events of a turn: nothing that the workspace saw before matters.\<close>

lemma accept_turn:
  assumes "to_workspace_id o1 = w" "se_event_name (to_source_event o1) = ''surface.input_sent''"
    and "to_workspace_id o2 = w" "se_event_name (to_source_event o2) = ''workspace.prompt.submitted''"
    and "to_workspace_id o3 = w" "se_event_name (to_source_event o3) = ''agent.hook.UserPromptSubmit''"
    and "as_text (dict_get (to_payload o3) ''phase'') \<in> {None, Some ''completed''}"
    and "to_workspace_id o4 = w" "se_event_name (to_source_event o4) = ''agent.hook.Stop''"
    and "as_text (dict_get (to_payload o4) ''phase'') \<in> {None, Some ''completed''}"
  shows "\<exists>chs1 chs2 chs3 chs4. accept_for_emission o1 chs = (True, chs1) \<and> accept_for_emission o2 chs1 = (True, chs2)
    \<and> accept_for_emission o3 chs2 = (True, chs3) \<and> accept_for_emission o4 chs3 = (True, chs4)"
proof -
  define key where "key = workspace_key w"
  define sig where "sig = se_marker_signature (to_source_event o2)"
  define c2 where "c2 = \<lparr>wc_marker_signature = sig, wc_accepted = [(''workspace.prompt.submitted'', sig)]\<rparr>"
  define c3 where "c3 = c2\<lparr>wc_accepted := (''agent.hook.UserPromptSubmit'', sig) # wc_accepted c2\<rparr>"
  define c4 where "c4 = c3\<lparr>wc_accepted := (''agent.hook.Stop'', sig) # wc_accepted c3\<rparr>"
  have "accept_for_emission o1 chs = (True, chs(key \<mapsto> empty_chain))"
    using assms by (simp add: accept_for_emission_def Let_def key_def)
  moreover have "accept_for_emission o2 (chs(key \<mapsto> empty_chain)) = (True, chs(key \<mapsto> c2))"
    using assms by (simp add: accept_for_emission_def Let_def key_def empty_chain_def c2_def sig_def)
  moreover have "accept_for_emission o3 (chs(key \<mapsto> c2)) = (True, chs(key \<mapsto> c3))"
    using assms by (auto simp: accept_for_emission_def Let_def key_def c2_def c3_def)
  moreover have "accept_for_emission o4 (chs(key \<mapsto> c3)) = (True, chs(key \<mapsto> c4))"
    using assms by (auto simp: accept_for_emission_def Let_def key_def c2_def c3_def c4_def)
  ultimately show ?thesis by blast
qed

text \<open>The emitter over the same four events.\<close>

lemma emitter_turn:
  fixes em :: emitter and env :: "'s receipt_env"
  assumes names: "se_event_name e1 = ''surface.input_sent''" "se_event_name e2 = ''workspace.prompt.submitted''"
      "se_event_name e3 = ''agent.hook.UserPromptSubmit''" "se_event_name e4 = ''agent.hook.Stop''"
    and session: "se_session_id e3 = Some session" "se_session_id e4 = Some session" "session \<noteq> []"
    and marker: "map_of payload2 ''message_preview'' = Some (JStr preview)"
      "extract_marker (Some preview) = Inr (Some m0)"
    and known: "re_delivery_lookup env (any_delivery_id m0) = Some (d, m)" "dl_binding_id d = Some b" "b \<noteq> []"
    and sink: "re_core_client env r1 s = (None, s1)"
      "r1 = harness_receipt env d m b HARNESS_PROMPT_ACCEPTED None [e1, e2, e3] session e3 t3"
  shows "\<exists>em1 em2 em3 em4. emitter_observe env e1 payload1 t1 w (em, s) = (None, em1, s)
    \<and> emitter_observe env e2 payload2 t2 w (em1, s) = (None, em2, s)
    \<and> emitter_observe env e3 payload3 t3 w (em2, s) = (None, em3, s1)
    \<and> emitter_observe env e4 payload4 t4 w (em3, s1) =
        (fst (re_core_client env (harness_receipt env d m b HARNESS_TURN_COMPLETED (Some COMPLETED) [e1, e2, e3, e4] session e4 t4) s1),
         em4,
         snd (re_core_client env (harness_receipt env d m b HARNESS_TURN_COMPLETED (Some COMPLETED) [e1, e2, e3, e4] session e4 t4) s1))"
proof -
  let ?key = "workspace_key w"
  define em1 where "em1 = em\<lparr>em_pending := (em_pending em)(?key \<mapsto> empty_pending\<lparr>pc_input_event := Some e1\<rparr>)\<rparr>"
  define p2 where "p2 = \<lparr>pc_input_event = Some e1, pc_prompt_event = Some e2, pc_decoded_marker = Some m0\<rparr>"
  define em2 where "em2 = em1\<lparr>em_pending := (em_pending em1)(?key \<mapsto> p2)\<rparr>"
  define em3 where "em3 = em2\<lparr>em_pending := (em_pending em2)(?key := None),
    em_active := (em_active em2)((?key, session) \<mapsto> (d, m, [e1, e2, e3]))\<rparr>"
  define em4 where "em4 = em3\<lparr>em_active := (em_active em3)((?key, session) := None)\<rparr>"
  have "emitter_observe env e1 payload1 t1 w (em, s) = (None, em1, s)"
    using names by (simp add: emitter_observe_def Let_def em1_def)
  moreover have "emitter_observe env e2 payload2 t2 w (em1, s) = (None, em2, s)"
    using names marker
    by (simp add: emitter_observe_def on_prompt_submitted_def Let_def em1_def em2_def p2_def extract_json_def empty_pending_def)
  moreover have "correlated env (em_pending em2 ?key) = Some (e1, e2, d, m, b)"
    using known by (simp add: em2_def p2_def correlated_def)
  then have "emitter_observe env e3 payload3 t3 w (em2, s) = (None, em3, s1)"
    using names session sink by (simp add: emitter_observe_def on_prompt_hook_def Let_def em3_def)
  moreover have "emitter_observe env e4 payload4 t4 w (em3, s1) =
        (fst (re_core_client env (harness_receipt env d m b HARNESS_TURN_COMPLETED (Some COMPLETED) [e1, e2, e3, e4] session e4 t4) s1),
         em4,
         snd (re_core_client env (harness_receipt env d m b HARNESS_TURN_COMPLETED (Some COMPLETED) [e1, e2, e3, e4] session e4 t4) s1))"
    using names session known
    by (simp add: emitter_observe_def on_stop_hook_def Let_def em3_def em4_def split: prod.split)
  ultimately show ?thesis by blast
qed

text \<open>What the producer sees of one event, when the payload text it looks at is known.\<close>

lemma bus_event_seen:
  assumes "bus_event src boot w name t p f e" "name \<noteq> ''workspace.prompt.submitted''"
  shows "\<exists>obs. translate e = Inr obs \<and> to_source_event obs = source_ref e (as_text (dict_get p ''session_id'')) None
    \<and> to_observed_at obs = t \<and> to_workspace_id obs = (if truthy w then w else None)
    \<and> as_text (dict_get (to_payload obs) ''phase'') = as_text (dict_get p ''phase'')
    \<and> se_event_name (to_source_event obs) = name"
proof -
  from translate_bus_event[OF assms(1)] assms(2) obtain q where q: "safe_payload (JObj p) = Inr q"
    "distinct (map fst q)" "distinct (map fst p)"
    "translate e = Inr \<lparr>to_source_event = source_ref e (as_text (dict_get p ''session_id'')) None,
       to_payload = sort_key fst q, to_observed_at = t, to_workspace_id = (if truthy w then w else None)\<rparr>" by auto
  have "as_text (dict_get q ''phase'') = as_text (dict_get p ''phase'')"
    using q(1,3) by (intro safe_payload_text) (simp_all add: SAFE_PAYLOAD_KEYS_def)
  moreover have "de_event_name e = name" using assms(1) by (simp add: bus_event_def)
  ultimately show ?thesis using q by (simp add: dict_get_sort_key source_ref_def)
qed

lemma bus_prompt_seen:
  assumes "bus_event src boot w ''workspace.prompt.submitted'' t p f e"
    and "dict_get p ''message_preview'' = JStr preview" "extract_marker (Some preview) = Inr (Some (Short m0))"
  shows "\<exists>obs kept. translate e = Inr obs
    \<and> to_source_event obs = source_ref e (as_text (dict_get p ''session_id'')) (Some (Short m0))
    \<and> to_observed_at obs = t \<and> to_workspace_id obs = (if truthy w then w else None)
    \<and> map_of (to_payload obs) ''message_preview'' = Some (JStr kept)
    \<and> extract_marker (Some kept) = Inr (Some (Short m0))
    \<and> se_event_name (to_source_event obs) = ''workspace.prompt.submitted''"
proof -
  from translate_bus_event[OF assms(1)] obtain q where q: "safe_payload (JObj p) = Inr q" "distinct (map fst q)"
    "translate e = (case extract_marker (as_text (dict_get q ''message_preview'')) of
          Inl x \<Rightarrow> Inl x
        | Inr marker \<Rightarrow> Inr \<lparr>to_source_event = source_ref e (as_text (dict_get p ''session_id'')) marker,
            to_payload = sort_key fst q, to_observed_at = t, to_workspace_id = (if truthy w then w else None)\<rparr>)" by auto
  from safe_payload_marker[OF q(1) assms(2,3)] obtain kept where
    kept: "dict_get q ''message_preview'' = JStr kept" "extract_marker (Some kept) = Inr (Some (Short m0))" by blast
  have "dict_get (sort_key fst q) ''message_preview'' = JStr kept"
    using kept(1) dict_get_sort_key[OF q(2)] by simp
  then have "map_of (sort_key fst q) ''message_preview'' = Some (JStr kept)"
    by (auto simp: dict_get_def split: option.splits)
  moreover have "de_event_name e = ''workspace.prompt.submitted''" using assms(1) by (simp add: bus_event_def)
  ultimately show ?thesis using q(3) kept by (simp add: as_text_def source_ref_def)
qed

text \<open>The whole turn, for a sink that takes both receipts.\<close>

lemma observe_turn:
  assumes events: "bus_event src boot w ''surface.input_sent'' t1 p1 f1 e1"
      "bus_event src boot w ''workspace.prompt.submitted'' t2 p2 f2 e2"
      "bus_event src boot w ''agent.hook.UserPromptSubmit'' t3 p3 f3 e3"
      "bus_event src boot w ''agent.hook.Stop'' t4 p4 f4 e4"
    and marker: "dict_get p2 ''message_preview'' = JStr preview" "extract_marker (Some preview) = Inr (Some (Short m0))"
    and hooks: "dict_get p3 ''session_id'' = JStr session" "dict_get p4 ''session_id'' = JStr session" "session \<noteq> []"
      "as_text (dict_get p3 ''phase'') \<in> {None, Some ''completed''}"
      "as_text (dict_get p4 ''phase'') \<in> {None, Some ''completed''}"
    and known: "re_delivery_lookup env (sh_delivery_id m0) = Some (d, m)" "dl_binding_id d = Some b" "b \<noteq> []"
    and chain: "chain = [source_ref e1 (as_text (dict_get p1 ''session_id'')) None,
      source_ref e2 (as_text (dict_get p2 ''session_id'')) (Some (Short m0)), source_ref e3 (Some session) None]"
    and sink: "re_core_client env (harness_receipt env d m b HARNESS_PROMPT_ACCEPTED None chain session (chain ! 2) t3) s
        = (None, s1)"
      "re_core_client env (harness_receipt env d m b HARNESS_TURN_COMPLETED (Some COMPLETED)
         (chain @ [source_ref e4 (Some session) None]) session (source_ref e4 (Some session) None) t4) s1 = (None, s2)"
  shows "\<exists>pr'. observe_all env [e1, e2, e3, e4] (pr, s) = (None, pr', s2)"
proof -
  from bus_event_seen[OF events(1)] obtain o1 where o1: "translate e1 = Inr o1"
    "to_source_event o1 = chain ! 0" "to_workspace_id o1 = (if truthy w then w else None)"
    "se_event_name (to_source_event o1) = ''surface.input_sent''" using chain by auto
  from bus_prompt_seen[OF events(2) marker] obtain o2 kept where o2: "translate e2 = Inr o2"
    "to_source_event o2 = chain ! 1" "to_workspace_id o2 = (if truthy w then w else None)"
    "map_of (to_payload o2) ''message_preview'' = Some (JStr kept)"
    "extract_marker (Some kept) = Inr (Some (Short m0))"
    "se_event_name (to_source_event o2) = ''workspace.prompt.submitted''" using chain by auto
  from bus_event_seen[OF events(3)] obtain o3 where o3: "translate e3 = Inr o3"
    "to_source_event o3 = chain ! 2" "to_observed_at o3 = t3" "to_workspace_id o3 = (if truthy w then w else None)"
    "as_text (dict_get (to_payload o3) ''phase'') \<in> {None, Some ''completed''}"
    "se_event_name (to_source_event o3) = ''agent.hook.UserPromptSubmit''"
    using chain hooks by (auto simp: as_text_def[of "JStr _"])
  from bus_event_seen[OF events(4)] obtain o4 where o4: "translate e4 = Inr o4"
    "to_source_event o4 = source_ref e4 (Some session) None" "to_observed_at o4 = t4"
    "to_workspace_id o4 = (if truthy w then w else None)"
    "as_text (dict_get (to_payload o4) ''phase'') \<in> {None, Some ''completed''}"
    "se_event_name (to_source_event o4) = ''agent.hook.Stop''"
    using hooks by (auto simp: as_text_def[of "JStr _"])
  from accept_turn[OF o1(3,4) o2(3,6) o3(4,6,5) o4(4,6,5), of "pr_chains pr"] obtain chs1 chs2 chs3 chs4 where
    acc: "accept_for_emission o1 (pr_chains pr) = (True, chs1)" "accept_for_emission o2 chs1 = (True, chs2)"
      "accept_for_emission o3 chs2 = (True, chs3)" "accept_for_emission o4 chs3 = (True, chs4)" by blast
  have known': "re_delivery_lookup env (any_delivery_id (Short m0)) = Some (d, m)" using known(1) by simp
  have session: "se_session_id (to_source_event o3) = Some session" "se_session_id (to_source_event o4) = Some session"
    using o3(2) o4(2) chain by (simp_all add: source_ref_def)
  have c3: "chain = [to_source_event o1, to_source_event o2, to_source_event o3]" using o1(2) o2(2) o3(2) chain by simp
  have sink1: "re_core_client env (harness_receipt env d m b HARNESS_PROMPT_ACCEPTED None
      [to_source_event o1, to_source_event o2, to_source_event o3] session (to_source_event o3) t3) s = (None, s1)"
    using sink(1) unfolding c3 by simp
  have sink2: "re_core_client env (harness_receipt env d m b HARNESS_TURN_COMPLETED (Some COMPLETED)
      [to_source_event o1, to_source_event o2, to_source_event o3, to_source_event o4] session (to_source_event o4) t4) s1
      = (None, s2)"
    using sink(2) unfolding c3 o4(2) by simp
  from emitter_turn[OF o1(4) o2(6) o3(6) o4(6) session hooks(3) o2(4,5) known' known(2,3) sink1 refl,
      of "to_payload o1" "to_observed_at o1" "to_workspace_id o1" "pr_emitter pr" "to_observed_at o2" "to_payload o3"
        "to_payload o4" t4]
  obtain em1 em2 em3 em4 where em:
    "emitter_observe env (to_source_event o1) (to_payload o1) (to_observed_at o1) (to_workspace_id o1) (pr_emitter pr, s) = (None, em1, s)"
    "emitter_observe env (to_source_event o2) (to_payload o2) (to_observed_at o2) (to_workspace_id o1) (em1, s) = (None, em2, s)"
    "emitter_observe env (to_source_event o3) (to_payload o3) t3 (to_workspace_id o1) (em2, s) = (None, em3, s1)"
    "emitter_observe env (to_source_event o4) (to_payload o4) t4 (to_workspace_id o1) (em3, s1) = (None, em4, s2)"
    unfolding sink2 fst_conv snd_conv by blast
  have ws: "to_workspace_id o2 = to_workspace_id o1" "to_workspace_id o3 = to_workspace_id o1"
    "to_workspace_id o4 = to_workspace_id o1"
    using o1(3) o2(3) o3(4) o4(4) by simp_all
  have "observe_all env [e1, e2, e3, e4] (pr, s) = (None, \<lparr>pr_emitter = em4, pr_chains = chs4\<rparr>, s2)"
    using o1(1) o2(1) o3(1,3) o4(1,3) acc em ws by (simp add: producer_observe_def)
  then show ?thesis by blast
qed

section \<open>Properties\<close>

text \<open>A turn is reported. When the four bus events of one turn come in order in one workspace, the prompt
  preview carries the short marker of a delivery that is known and bound, and the hooks carry a session, then
  the producer submits, from whatever state, the receipt of the accepted prompt and the receipt of the completed turn, each
  with the chain of events so far, although the stored events hold nothing of the prompt but the marker.\<close>

theorem turn_submits_receipts:
  assumes "bus_event src boot w ''surface.input_sent'' t1 p1 f1 e1"
    and "bus_event src boot w ''workspace.prompt.submitted'' t2 p2 f2 e2"
    and "bus_event src boot w ''agent.hook.UserPromptSubmit'' t3 p3 f3 e3"
    and "bus_event src boot w ''agent.hook.Stop'' t4 p4 f4 e4"
    and "dict_get p2 ''message_preview'' = JStr preview" "extract_marker (Some preview) = Inr (Some (Short m0))"
    and "dict_get p3 ''session_id'' = JStr session" "dict_get p4 ''session_id'' = JStr session" "session \<noteq> []"
    and "as_text (dict_get p3 ''phase'') \<in> {None, Some ''completed''}"
    and "as_text (dict_get p4 ''phase'') \<in> {None, Some ''completed''}"
    and "re_delivery_lookup env (sh_delivery_id m0) = Some (d, m)" "dl_binding_id d = Some b" "b \<noteq> []"
    and "re_core_client env = (\<lambda>r log. (None, log @ [r]))"
    and "chain = [source_ref e1 (as_text (dict_get p1 ''session_id'')) None,
      source_ref e2 (as_text (dict_get p2 ''session_id'')) (Some (Short m0)), source_ref e3 (Some session) None]"
    and "stop = source_ref e4 (Some session) None"
  shows "\<exists>pr'. observe_all env [e1, e2, e3, e4] (pr, log) =
    (None, pr', log @ [harness_receipt env d m b HARNESS_PROMPT_ACCEPTED None chain session (last chain) t3,
       harness_receipt env d m b HARNESS_TURN_COMPLETED (Some COMPLETED) (chain @ [stop]) session stop t4])"
  using assms by (intro observe_turn[OF assms(1-14,16)]) simp_all

section \<open>A concrete turn\<close>

definition example_bus :: "int \<Rightarrow> string \<Rightarrow> frame \<Rightarrow> frame" where
  "example_bus n name payload =
     [(''type'', JStr ''event''), (''protocol'', JStr ''cmux-events''), (''version'', JInt 1),
      (''boot_id'', JStr ''boot''), (''seq'', JInt n), (''id'', JStr (''ev'' @ nat_text (nat n))),
      (''name'', JStr name), (''occurred_at'', JStr ''2026-07-01T00:00:30Z''),
      (''workspace_id'', JStr ''w1''), (''payload'', JObj payload)]"

lemma example_bus_event:
  assumes "0 \<le> n" "name \<noteq> []" "wf_json (JObj p)" "safe_payload (JObj p) = Inr q"
  shows "\<exists>e. bus_event ''host'' ''boot'' (Some ''w1'') name ''2026-07-01T00:00:30Z'' p (example_bus n name p) e"
  using assms
  by (simp add: bus_event_def example_bus_def project_def supported_def PROTOCOL_def eq_int_def dict_get_def as_text_def)

definition example_preview :: string where
  "example_preview = ''/queue '' @ short_token ''d-1'' ''b_1'' (replicate 32 170) @ '' hello''"

definition example_short :: ShortMarker where
  "example_short = \<lparr>sh_delivery_id = ''d-1'', sh_binding_id = ''b_1'', sh_signature = hex (replicate 32 170)\<rparr>"

lemma example_preview_marker: "extract_marker (Some example_preview) = Inr (Some (Short example_short))"
  unfolding example_preview_def example_short_def
  by (rule extract_written) (simp_all add: is_token_id_def is_token_char_def)

lemma example_preview_kept:
  "\<exists>q. safe_payload (JObj [(''message_preview'', JStr example_preview)]) = Inr q"
  using example_preview_marker extract_marker_text[OF example_preview_marker]
  by (auto simp: safe_payload_def dict_get_def)

lemma example_session_kept: "safe_payload (JObj [(''session_id'', JStr ''s1'')]) = Inr [(''session_id'', JStr ''s1'')]"
  by (simp add: safe_payload_def dict_get_def SAFE_PAYLOAD_KEYS_def is_safe_payload_value_def is_scalar_def)

definition example_turn :: "DerivedEvent list \<Rightarrow> bool" where
  "example_turn es =
     (\<exists>e1 e2 e3 e4. es = [e1, e2, e3, e4]
        \<and> bus_event ''host'' ''boot'' (Some ''w1'') ''surface.input_sent'' ''2026-07-01T00:00:30Z'' []
            (example_bus 1 ''surface.input_sent'' []) e1
        \<and> bus_event ''host'' ''boot'' (Some ''w1'') ''workspace.prompt.submitted'' ''2026-07-01T00:00:30Z''
            [(''message_preview'', JStr example_preview)]
            (example_bus 2 ''workspace.prompt.submitted'' [(''message_preview'', JStr example_preview)]) e2
        \<and> bus_event ''host'' ''boot'' (Some ''w1'') ''agent.hook.UserPromptSubmit'' ''2026-07-01T00:00:30Z''
            [(''session_id'', JStr ''s1'')] (example_bus 3 ''agent.hook.UserPromptSubmit'' [(''session_id'', JStr ''s1'')]) e3
        \<and> bus_event ''host'' ''boot'' (Some ''w1'') ''agent.hook.Stop'' ''2026-07-01T00:00:30Z''
            [(''session_id'', JStr ''s1'')] (example_bus 4 ''agent.hook.Stop'' [(''session_id'', JStr ''s1'')]) e4)"

lemma example_turn_exists: "\<exists>es. example_turn es"
proof -
  have 1: "safe_payload (JObj []) = Inr []" by (simp add: safe_payload_def dict_get_def)
  obtain q where 2: "safe_payload (JObj [(''message_preview'', JStr example_preview)]) = Inr q"
    using example_preview_kept by blast
  show ?thesis
    unfolding example_turn_def
    using example_bus_event[of 1 "''surface.input_sent''", OF _ _ _ 1]
      example_bus_event[of 2 "''workspace.prompt.submitted''", OF _ _ _ 2]
      example_bus_event[of 3 "''agent.hook.UserPromptSubmit''", OF _ _ _ example_session_kept]
      example_bus_event[of 4 "''agent.hook.Stop''", OF _ _ _ example_session_kept] by simp
qed

definition example_env :: "Receipt list receipt_env" where
  "example_env =
     \<lparr>re_core_client = (\<lambda>r log. (None, log @ [r])), re_provider_id = ''cmux'',
      re_delivery_lookup = (\<lambda>i. if i = ''d-1''
        then Some (sample_delivery\<lparr>dl_delivery_id := ''d-1'', dl_binding_id := Some ''b_1''\<rparr>, short_sample) else None)\<rparr>"

lemma example_env_simps:
  "re_core_client example_env = (\<lambda>r log. (None, log @ [r]))"
  "re_delivery_lookup example_env (sh_delivery_id example_short) =
     Some (sample_delivery\<lparr>dl_delivery_id := ''d-1'', dl_binding_id := Some ''b_1''\<rparr>, short_sample)"
  by (simp_all add: example_env_def example_short_def)

lemma example_texts:
  "dict_get [(''message_preview'', JStr example_preview)] ''message_preview'' = JStr example_preview"
  "dict_get [(''session_id'', JStr ''s1'')] ''session_id'' = JStr ''s1''"
  "as_text (dict_get [(''session_id'', JStr ''s1'')] ''phase'') \<in> {None, Some ''completed''}"
  by (simp_all add: dict_get_def as_text_def)

lemma example_turn_observed:
  assumes "example_turn es"
  shows "\<exists>pr r1 r2. observe_all example_env es (new_producer, []) = (None, pr, [r1, r2])"
proof -
  from assms obtain e1 e2 e3 e4 where es: "es = [e1, e2, e3, e4]" and
    e: "bus_event ''host'' ''boot'' (Some ''w1'') ''surface.input_sent'' ''2026-07-01T00:00:30Z'' []
          (example_bus 1 ''surface.input_sent'' []) e1"
      "bus_event ''host'' ''boot'' (Some ''w1'') ''workspace.prompt.submitted'' ''2026-07-01T00:00:30Z''
          [(''message_preview'', JStr example_preview)]
          (example_bus 2 ''workspace.prompt.submitted'' [(''message_preview'', JStr example_preview)]) e2"
      "bus_event ''host'' ''boot'' (Some ''w1'') ''agent.hook.UserPromptSubmit'' ''2026-07-01T00:00:30Z''
          [(''session_id'', JStr ''s1'')] (example_bus 3 ''agent.hook.UserPromptSubmit'' [(''session_id'', JStr ''s1'')]) e3"
      "bus_event ''host'' ''boot'' (Some ''w1'') ''agent.hook.Stop'' ''2026-07-01T00:00:30Z''
          [(''session_id'', JStr ''s1'')] (example_bus 4 ''agent.hook.Stop'' [(''session_id'', JStr ''s1'')]) e4"
    unfolding example_turn_def by (elim exE conjE)
  have sink: "re_core_client example_env r log = (None, log @ [r])" for r log
    by (simp add: example_env_def)
  have bound: "dl_binding_id (sample_delivery\<lparr>dl_delivery_id := ''d-1'', dl_binding_id := Some ''b_1''\<rparr>) = Some ''b_1''"
    by simp
  have "''s1'' \<noteq> []" "''b_1'' \<noteq> []" by simp_all
  note turn = observe_turn[OF e example_texts(1) example_preview_marker example_texts(2,2) this(1) example_texts(3,3)
      example_env_simps(2) bound this(2) refl sink sink, of new_producer "[]"]
  then show ?thesis unfolding es by (elim exE) (intro exI, simp)
qed

text \<open>C30: Every receipt that the producer submits, while it recovers and afterwards and also when an event
  raises, is one it may submit: for a delivery and its marker as the lookup holds them, with the chain of events its class needs in
  order, and with hooks that carry the session it names.\<close>

theorem only_proper_receipts:
  assumes "re_core_client env = (\<lambda>r log. (refuses log r, log @ [r]))"
    and "recover env stored (pr, []) = (x, pr1, log1)" "observe_all env events (pr1, log1) = (y, pr2, log2)"
  shows "list_all (proper_receipt env) log2"
proof -
  let ?I = "list_all (proper_receipt env)"
  have sink: "\<And>r s. proper_receipt env r \<Longrightarrow> ?I s \<Longrightarrow> ?I (snd (re_core_client env r s))"
    by (simp add: assms(1))
  have start: "emitter_ok env (pr_emitter new_producer)" "?I []"
    by (simp_all add: new_producer_def emitter_ok_new)
  have "observe_all env stored (new_producer, []) = (x, pr1, log1)" using assms(2) by (simp add: recover_def)
  from observe_all_inv[of env ?I, OF sink start this] have "emitter_ok env (pr_emitter pr1) \<and> ?I log1" by blast
  with observe_all_inv[of env ?I, OF sink _ _ assms(3)] show ?thesis by simp
qed

text \<open>Witness of C30.\<close>

theorem only_proper_receipts_witness:
  "\<exists>es pr r1 r2. recover example_env es (new_producer, []) = (None, pr, [r1, r2])
     \<and> list_all (proper_receipt example_env) [r1, r2]"
proof -
  obtain es pr r1 r2 where t: "observe_all example_env es (new_producer, []) = (None, pr, [r1, r2])"
    using example_turn_exists example_turn_observed by metis
  have sink: "re_core_client example_env = (\<lambda>r log. ((\<lambda>_ _. None) log r, log @ [r]))"
    by (simp add: example_env_def)
  have "recover example_env es (new_producer, []) = (None, pr, [r1, r2])"
    using t by (simp add: recover_def)
  moreover from only_proper_receipts[OF sink this, of "[]"] have "list_all (proper_receipt example_env) [r1, r2]"
    by simp
  ultimately show ?thesis by blast
qed

text \<open>Recovery replays the past. Whatever state the producer was left in, recovering from the stored
  events leads to the state in which observing them one after the other led, and submits the receipts that were
  submitted then, the same ones and in the same order.\<close>

theorem recover_rebuilds:
  assumes "re_core_client env = (\<lambda>r log. (None, log @ [r]))" "observe_all env events (new_producer, []) = (None, pr', new)"
  shows "recover env events (pr, log) = (None, pr', log @ new)"
  using assms observe_all_recording[of env "\<lambda>r. r" events new_producer log]
  by (simp add: recover_def recording_def append_log_def)

text \<open>An instance.\<close>

theorem recover_rebuilds_witness:
  "\<exists>es pr r1 r2. recover example_env es (pr, [r1, r2]) = (None, pr, [r1, r2] @ [r1, r2])"
proof -
  obtain es pr r1 r2 where t: "observe_all example_env es (new_producer, []) = (None, pr, [r1, r2])"
    using example_turn_exists example_turn_observed by metis
  from recover_rebuilds[OF example_env_simps(1) t] show ?thesis by blast
qed

text \<open>An instance.\<close>

theorem turn_submits_receipts_witness:
  "\<exists>es pr rs. example_turn es \<and> observe_all example_env es (new_producer, []) = (None, pr, rs)
     \<and> map rc_evidence_class rs = [HARNESS_PROMPT_ACCEPTED, HARNESS_TURN_COMPLETED]
     \<and> map rc_delivery_id rs = [''d-1'', ''d-1'']"
proof -
  obtain es where t: "example_turn es" using example_turn_exists by blast
  then obtain e1 e2 e3 e4 where es: "es = [e1, e2, e3, e4]" and
    e: "bus_event ''host'' ''boot'' (Some ''w1'') ''surface.input_sent'' ''2026-07-01T00:00:30Z'' []
          (example_bus 1 ''surface.input_sent'' []) e1"
      "bus_event ''host'' ''boot'' (Some ''w1'') ''workspace.prompt.submitted'' ''2026-07-01T00:00:30Z''
          [(''message_preview'', JStr example_preview)]
          (example_bus 2 ''workspace.prompt.submitted'' [(''message_preview'', JStr example_preview)]) e2"
      "bus_event ''host'' ''boot'' (Some ''w1'') ''agent.hook.UserPromptSubmit'' ''2026-07-01T00:00:30Z''
          [(''session_id'', JStr ''s1'')] (example_bus 3 ''agent.hook.UserPromptSubmit'' [(''session_id'', JStr ''s1'')]) e3"
      "bus_event ''host'' ''boot'' (Some ''w1'') ''agent.hook.Stop'' ''2026-07-01T00:00:30Z''
          [(''session_id'', JStr ''s1'')] (example_bus 4 ''agent.hook.Stop'' [(''session_id'', JStr ''s1'')]) e4"
    unfolding example_turn_def by (elim exE conjE)
  have bound: "dl_binding_id (sample_delivery\<lparr>dl_delivery_id := ''d-1'', dl_binding_id := Some ''b_1''\<rparr>) = Some ''b_1''"
    by simp
  have "''s1'' \<noteq> []" "''b_1'' \<noteq> []" by simp_all
  from turn_submits_receipts[OF e example_texts(1) example_preview_marker example_texts(2,2) this(1) example_texts(3,3)
      example_env_simps(2) bound this(2) example_env_simps(1) refl refl, of new_producer "[]"]
  show ?thesis
    using t unfolding es by (elim exE) (intro exI conjI, assumption, assumption, simp_all add: harness_receipt_def)
qed

end
