(* ===== verification/Cmux_Delivery.thy ===== *)
theory Cmux_Delivery
  imports Cmux_Turn
begin

text \<open>
  The two packages together: the receipts of a turn, submitted to the core, take the delivery from
  \<open>transport-submitted\<close> to \<open>processed\<close>. The sink is the reducer's \<open>submit\<close> on the core store, whose answer the
  producer ignores and whose exception it passes on.
\<close>

section \<open>The core as the sink\<close>

definition core_sink :: "MarkerAuthority \<Rightarrow> Receipt \<Rightarrow> core_store \<Rightarrow> py_exc option \<times> core_store" where
  "core_sink auth r s = (case submit (Some auth) r s of (Inl e, s') \<Rightarrow> (Some e, s') | (Inr _, s') \<Rightarrow> (None, s'))"

text \<open>What the core must know to take a hook's receipt at a time: the provider and its classes, the active
  binding of the session, the registered proof method, and a marker that is valid then.\<close>

definition admits_hooks ::
  "MarkerAuthority \<Rightarrow> core_db \<Rightarrow> string \<Rightarrow> string \<Rightarrow> string \<Rightarrow> Delivery \<Rightarrow> DeliveryMarker \<Rightarrow> ProofMethodRegistration \<Rightarrow> string \<Rightarrow> bool" where
  "admits_hooks auth t prov session b d m reg at \<longleftrightarrow>
     dl_delivery_mode d = SESSION_BOUND \<and> dl_binding_id d = Some b
     \<and> (\<exists>p. provider t prov = Some p \<and> pv_kind p = SESSION_TRANSPORT)
     \<and> provider_declares t prov HARNESS_PROMPT_ACCEPTED \<and> provider_declares t prov HARNESS_TURN_COMPLETED
     \<and> (\<exists>bd ob est ex. session_binding t b = Some bd \<and> sr_state bd = ACTIVE \<and> sr_provider_id bd = prov
          \<and> sr_recipient_id bd = dl_recipient_id d \<and> sr_session_id bd = session
          \<and> parse_timestamp at = Inr ob \<and> parse_timestamp (sr_established_at bd) = Inr est
          \<and> parse_timestamp (sr_expires_at bd) = Inr ex \<and> est \<le> ob \<and> ob < ex)
     \<and> binding_proof_method t b HOOK_RELAY = Inr (Some reg)
     \<and> HARNESS_PROMPT_ACCEPTED \<in> pm_evidence_classes reg \<and> HARNESS_TURN_COMPLETED \<in> pm_evidence_classes reg
     \<and> pm_source_kind reg = EVENT_BUS \<and> valid_marker auth m d at"

text \<open>A receipt not seen before.\<close>

definition unseen :: "core_db \<Rightarrow> string \<Rightarrow> string \<Rightarrow> bool" where
  "unseen t prov i \<longleftrightarrow> receipt_record t (''rec-'' @ i) = None \<and> \<not> source_seen t prov i"

lemma harness_receipt_state:
  "harness_receipt env (d\<lparr>dl_state := n, dl_disposition := c\<rparr>) m b cls disp chain session ev at =
   harness_receipt env d m b cls disp chain session ev at"
  by (simp add: harness_receipt_def)

lemma harness_receipt_fields [simp]:
  "rc_receipt_id (harness_receipt env d m b cls disp chain session ev at) = ''rec-'' @ se_source_event_id ev"
  "rc_delivery_id (harness_receipt env d m b cls disp chain session ev at) = dl_delivery_id d"
  "rc_evidence_class (harness_receipt env d m b cls disp chain session ev at) = cls"
  "rc_evidence_provider_id (harness_receipt env d m b cls disp chain session ev at) = re_provider_id env"
  "rc_source_event_id (harness_receipt env d m b cls disp chain session ev at) = Some (se_source_event_id ev)"
  by (simp_all add: harness_receipt_def)

lemma admissible_hook:
  assumes ctx: "admits_hooks auth t (re_provider_id env) session b d m reg at"
    and del: "get_delivery t (dl_delivery_id d) = Some d"
    and step: "cls = HARNESS_PROMPT_ACCEPTED \<and> disp = None \<and> dl_state d = TRANSPORT_SUBMITTED \<and> nxt = IN_SESSION
      \<or> cls = HARNESS_TURN_COMPLETED \<and> disp = Some COMPLETED \<and> dl_state d = IN_SESSION \<and> nxt = PROCESSED
        \<and> session_entry_chain t (dl_delivery_id d) = Some (source_chain_json (butlast chain))"
    and chain: "expected_names cls = Some names" "chain \<noteq> []" "ev = last chain"
      "sound_chain \<lparr>pf_session_id = session, pf_marker = m, pf_source_events = chain, pf_turn_id = None\<rparr> d reg names"
    and new: "unseen t (re_provider_id env) (se_source_event_id ev)" and at: "at \<noteq> []"
  shows "admissible (Some auth) t (harness_receipt env d m b cls disp chain session ev at) d nxt disp"
proof -
  let ?r = "harness_receipt env d m b cls disp chain session ev at"
  have id: "se_source_event_id ev \<noteq> []"
    using chain(2,3,4) by (auto simp: sound_chain_def Let_def)
  have ev: "session_evidence (Some auth) t ?r d"
    using ctx step chain id new unfolding session_evidence_def admits_hooks_def unseen_def
    by (auto simp: harness_receipt_def)
  have legal: "legal (dl_delivery_mode d) cls (dl_state d) nxt disp"
    using step ctx by (auto simp: admits_hooks_def legal_simps)
  show ?thesis
    unfolding admissible_def
    using ctx del step new at ev legal
    by (auto simp: harness_receipt_def admits_hooks_def unseen_def HOOK_RELAY_def canonical_disposition_def PARTICIPANT_EVIDENCE_def)
qed

text \<open>Taking an admissible receipt, and what of the core it leaves alone.\<close>

lemma core_sink_accepts:
  assumes wf: "wf_db (db s)" and ok: "admissible (Some auth) (db s) r d n c"
    and new: "\<And>e. rc_source_event_id r = Some e \<Longrightarrow> \<not> source_seen (db s) (rc_evidence_provider_id r) e"
  shows "\<exists>s'. core_sink auth r s = (None, s') \<and> accepted r d n c (Inr (accepted_result n c)) s s' \<and> wf_db (db s')"
proof -
  let ?s = "snd (submit (Some auth) r s)"
  from submit_accept_commits[OF wf ok new] have a: "accepted r d n c (fst (submit (Some auth) r s)) s ?s" .
  then have f: "fst (submit (Some auth) r s) = Inr (accepted_result n c)" by (simp add: accepted_def)
  have "core_sink auth r s = (None, ?s)" using f by (cases "submit (Some auth) r s") (simp add: core_sink_def)
  with a f wf_submit[OF wf] show ?thesis by auto
qed

lemma accepted_frame:
  assumes wf: "wf_db (db s)" and acc: "accepted r d n c res s s'"
  shows "session_binding (db s') = session_binding (db s)" "provider (db s') = provider (db s)"
    "provider_declares (db s') = provider_declares (db s)" "binding_proof_method (db s') = binding_proof_method (db s)"
proof -
  from acc have body: "accept_receipt_body r d n c (db s) = Inr (db s')" by (simp add: accepted_def)
  show "session_binding (db s') = session_binding (db s)" "provider (db s') = provider (db s)"
    "provider_declares (db s') = provider_declares (db s)" "binding_proof_method (db s') = binding_proof_method (db s)"
    by (rule accept_receipt_body_Inr[OF wf body];
        simp add: session_binding_def provider_def provider_declares_def binding_proof_method_def fun_eq_iff)+
qed

lemma accepted_unseen:
  assumes wf: "wf_db (db s)" and acc: "accepted r d n c res s s'" and u: "unseen (db s) prov i"
    and other: "rc_receipt_id r \<noteq> ''rec-'' @ i" "rc_source_event_id r \<noteq> Some i"
  shows "unseen (db s') prov i"
proof -
  obtain b where "receipts (db s') = receipts (db s) @ [receipt_row r d b c]" using accepted_rows(1)[OF wf acc] by blast
  with u other show ?thesis by (simp add: unseen_def receipt_record_def source_seen_def fetchone_append)
qed

lemma accepted_entry_chain:
  assumes wf: "wf_db (db s)" and acc: "accepted r d n c res s s'"
    and r: "rc_evidence_class r = HARNESS_PROMPT_ACCEPTED" "rc_proof r = Some p"
  shows "session_entry_chain (db s') (dl_delivery_id d) = Some (source_chain_json (pf_source_events p))"
proof -
  obtain b where "receipts (db s') = receipts (db s) @ [receipt_row r d b c]" using accepted_rows(1)[OF wf acc] by blast
  with r show ?thesis by (simp add: session_entry_chain_def) (simp add: receipt_row_def proof_storage_fields_def)
qed

section \<open>The chain of a turn\<close>

lemma bus_event_identity:
  assumes "bus_event src boot w name t p f e"
  shows "de_source_instance_id e = src" "de_boot_id e = boot" "0 \<le> de_seq e" "de_source_event_id e \<noteq> []" "de_event_name e = name"
    "t \<noteq> []"
proof -
  from assms have "project src f boot = Inr e" by (simp add: bus_event_def)
  then show "de_source_instance_id e = src" "de_boot_id e = boot" "0 \<le> de_seq e" "de_source_event_id e \<noteq> []"
    by (auto elim: project_Inr)
qed (use assms in \<open>simp_all add: bus_event_def\<close>)

lemma source_ref_fields [simp]:
  "se_source_instance_id (source_ref e session marker) = de_source_instance_id e"
  "se_boot_id (source_ref e session marker) = de_boot_id e" "se_seq (source_ref e session marker) = de_seq e"
  "se_source_event_id (source_ref e session marker) = de_source_event_id e"
  "se_event_name (source_ref e session marker) = de_event_name e" "se_session_id (source_ref e session marker) = session"
  "se_binding_id (source_ref e session marker) = map_option any_binding_id marker"
  "se_marker_signature (source_ref e session marker) = map_option any_signature marker"
  by (simp_all add: source_ref_def)

text \<open>The chains that the producer submits are the chains that the core asks for.\<close>

lemma turn_chains_sound:
  assumes events: "bus_event src boot w ''surface.input_sent'' t1 p1 f1 e1"
      "bus_event src boot w ''workspace.prompt.submitted'' t2 p2 f2 e2"
      "bus_event src boot w ''agent.hook.UserPromptSubmit'' t3 p3 f3 e3"
      "bus_event src boot w ''agent.hook.Stop'' t4 p4 f4 e4"
    and order: "sorted_wrt (<) (map de_seq [e1, e2, e3, e4])" "distinct (map de_source_event_id [e1, e2, e3, e4])"
    and host: "pm_source_instance_id reg = src" "boot \<noteq> []"
    and marker: "dl_binding_id d = Some (sh_binding_id m0)" "sh_signature m0 = mk_signature m"
    and chain: "chain = [source_ref e1 s1 None, source_ref e2 s2 (Some (Short m0)), source_ref e3 (Some session) None]"
  shows "sound_chain \<lparr>pf_session_id = session, pf_marker = m, pf_source_events = chain, pf_turn_id = None\<rparr> d reg PROMPT_CHAIN"
    and "sound_chain \<lparr>pf_session_id = session, pf_marker = m,
      pf_source_events = chain @ [source_ref e4 (Some session) None], pf_turn_id = None\<rparr> d reg COMPLETED_CHAIN"
  unfolding sound_chain_def chain
  using bus_event_identity[OF events(1)] bus_event_identity[OF events(2)] bus_event_identity[OF events(3)]
    bus_event_identity[OF events(4)] order host marker
  by (auto simp: PROMPT_CHAIN_def COMPLETED_CHAIN_def)

text \<open>The core takes the receipt of the prompt, and then the receipt of the completed turn.\<close>

lemma core_takes_turn:
  assumes core: "wf_db (db s)" "get_delivery (db s) (dl_delivery_id d) = Some d" "dl_state d = TRANSPORT_SUBMITTED"
      "admits_hooks auth (db s) (re_provider_id env) session b d m reg t3"
      "admits_hooks auth (db s) (re_provider_id env) session b d m reg t4"
      "unseen (db s) (re_provider_id env) (se_source_event_id (last chain))"
      "unseen (db s) (re_provider_id env) (se_source_event_id stop)"
    and sound: "sound_chain \<lparr>pf_session_id = session, pf_marker = m, pf_source_events = chain, pf_turn_id = None\<rparr> d reg PROMPT_CHAIN"
      "sound_chain \<lparr>pf_session_id = session, pf_marker = m, pf_source_events = chain @ [stop], pf_turn_id = None\<rparr> d reg
        COMPLETED_CHAIN"
    and misc: "chain \<noteq> []" "se_source_event_id stop \<noteq> se_source_event_id (last chain)" "t3 \<noteq> []" "t4 \<noteq> []"
    and r1: "r1 = harness_receipt env d m b HARNESS_PROMPT_ACCEPTED None chain session (last chain) t3"
    and r2: "r2 = harness_receipt env d m b HARNESS_TURN_COMPLETED (Some COMPLETED) (chain @ [stop]) session stop t4"
  shows "\<exists>s1 s2. core_sink auth r1 s = (None, s1) \<and> core_sink auth r2 s1 = (None, s2)
    \<and> get_delivery (db s2) (dl_delivery_id d) = Some (d\<lparr>dl_state := PROCESSED, dl_disposition := Some COMPLETED\<rparr>)
    \<and> length (receipts (db s2)) = length (receipts (db s)) + 2"
proof -
  let ?d1 = "d\<lparr>dl_state := IN_SESSION, dl_disposition := None\<rparr>"
  have ok1: "admissible (Some auth) (db s) r1 d IN_SESSION None"
    unfolding r1 by (rule admissible_hook[OF core(4,2) _ _ misc(1) refl sound(1)])
      (use core(3,6) misc(3) in \<open>simp_all add: expected_names_def\<close>)
  have new1: "\<not> source_seen (db s) (rc_evidence_provider_id r1) e" if "rc_source_event_id r1 = Some e" for e
    using that core(6) by (auto simp: unseen_def r1)
  from core_sink_accepts[OF core(1) ok1 new1] obtain s1 where s1: "core_sink auth r1 s = (None, s1)"
    "accepted r1 d IN_SESSION None (Inr (accepted_result IN_SESSION None)) s s1" "wf_db (db s1)" by blast
  have del1: "get_delivery (db s1) (dl_delivery_id d) = Some ?d1"
    using accepted_is_current[OF core(1) ok1 s1(2)] by (simp add: r1)
  have ctx1: "admits_hooks auth (db s1) (re_provider_id env) session b ?d1 m reg t4"
    using core(5) unfolding admits_hooks_def accepted_frame[OF core(1) s1(2)]
    by (simp add: valid_marker_def marker_fields_match_def)
  have entry: "session_entry_chain (db s1) (dl_delivery_id d) = Some (source_chain_json chain)"
    using accepted_entry_chain[OF core(1) s1(2)] by (simp add: r1 harness_receipt_def)
  have unseen1: "unseen (db s1) (re_provider_id env) (se_source_event_id stop)"
    by (rule accepted_unseen[OF core(1) s1(2) core(7)]) (use misc(2) in \<open>auto simp: r1\<close>)
  have "admissible (Some auth) (db s1)
      (harness_receipt env ?d1 m b HARNESS_TURN_COMPLETED (Some COMPLETED) (chain @ [stop]) session stop t4) ?d1 PROCESSED (Some COMPLETED)"
    by (rule admissible_hook[OF ctx1, of _ _ _ _ COMPLETED_CHAIN])
      (use del1 entry unseen1 misc(4) sound(2) in \<open>simp_all add: expected_names_def sound_chain_def\<close>)
  then have ok2: "admissible (Some auth) (db s1) r2 ?d1 PROCESSED (Some COMPLETED)" by (simp only: harness_receipt_state r2)
  have new2: "\<not> source_seen (db s1) (rc_evidence_provider_id r2) e" if "rc_source_event_id r2 = Some e" for e
    using that unseen1 by (auto simp: unseen_def r2)
  from core_sink_accepts[OF s1(3) ok2 new2] obtain s2 where s2: "core_sink auth r2 s1 = (None, s2)"
    "accepted r2 ?d1 PROCESSED (Some COMPLETED) (Inr (accepted_result PROCESSED (Some COMPLETED))) s1 s2" by blast
  from accepted_is_current[OF s1(3) ok2 s2(2)] accepted_rows(1)[OF core(1) s1(2)] accepted_rows(1)[OF s1(3) s2(2)] s1(1) s2(1)
  show ?thesis by (auto simp: r2)
qed

section \<open>Properties\<close>

text \<open>C4: From the wire to the core. A delivery that the core holds as submitted to its session, and whose marker the prompt of a
  turn carries, is taken by the four bus events of that turn, projected, stored, translated and turned into receipts by the
  plugin, and judged by the reducer, to \<open>processed(completed)\<close>: both receipts are accepted.\<close>

theorem turn_processes_delivery:
  assumes events: "bus_event src boot w ''surface.input_sent'' t1 p1 f1 e1"
      "bus_event src boot w ''workspace.prompt.submitted'' t2 p2 f2 e2"
      "bus_event src boot w ''agent.hook.UserPromptSubmit'' t3 p3 f3 e3"
      "bus_event src boot w ''agent.hook.Stop'' t4 p4 f4 e4"
    and order: "sorted_wrt (<) (map de_seq [e1, e2, e3, e4])" "distinct (map de_source_event_id [e1, e2, e3, e4])"
    and marker: "dict_get p2 ''message_preview'' = JStr preview" "extract_marker (Some preview) = Inr (Some (Short m0))"
      "sh_binding_id m0 = b" "sh_signature m0 = mk_signature m"
    and hooks: "dict_get p3 ''session_id'' = JStr session" "dict_get p4 ''session_id'' = JStr session" "session \<noteq> []"
      "as_text (dict_get p3 ''phase'') \<in> {None, Some ''completed''}"
      "as_text (dict_get p4 ''phase'') \<in> {None, Some ''completed''}"
    and env: "re_core_client env = core_sink auth" "re_delivery_lookup env (sh_delivery_id m0) = Some (d, m)" "b \<noteq> []"
    and core: "wf_db (db s)" "get_delivery (db s) (dl_delivery_id d) = Some d" "dl_state d = TRANSPORT_SUBMITTED"
      "admits_hooks auth (db s) (re_provider_id env) session b d m reg t3"
      "admits_hooks auth (db s) (re_provider_id env) session b d m reg t4"
      "pm_source_instance_id reg = src" "boot \<noteq> []"
      "unseen (db s) (re_provider_id env) (de_source_event_id e3)" "unseen (db s) (re_provider_id env) (de_source_event_id e4)"
  shows "\<exists>pr' s'. observe_all env [e1, e2, e3, e4] (pr, s) = (None, pr', s')
    \<and> get_delivery (db s') (dl_delivery_id d) = Some (d\<lparr>dl_state := PROCESSED, dl_disposition := Some COMPLETED\<rparr>)
    \<and> length (receipts (db s')) = length (receipts (db s)) + 2"
proof -
  define chain where "chain = [source_ref e1 (as_text (dict_get p1 ''session_id'')) None,
      source_ref e2 (as_text (dict_get p2 ''session_id'')) (Some (Short m0)), source_ref e3 (Some session) None]"
  define stop where "stop = source_ref e4 (Some session) None"
  have bound: "dl_binding_id d = Some (sh_binding_id m0)" using core(4) marker(3) by (simp add: admits_hooks_def)
  note sound = turn_chains_sound[OF events order core(6,7) bound marker(4) chain_def, folded stop_def]
  have ids: "se_source_event_id (last chain) = de_source_event_id e3" "se_source_event_id stop = de_source_event_id e4"
    "chain \<noteq> []" "last chain = chain ! 2" by (simp_all add: chain_def stop_def)
  have "se_source_event_id stop \<noteq> se_source_event_id (last chain)" using order(2) ids by auto
  from core_takes_turn[OF core(1-5) _ _ sound ids(3) this bus_event_identity(6)[OF events(3)] bus_event_identity(6)[OF events(4)] refl refl]
    core(8,9) ids(1,2)
  obtain s1 s2 where s:
    "core_sink auth (harness_receipt env d m b HARNESS_PROMPT_ACCEPTED None chain session (last chain) t3) s = (None, s1)"
    "core_sink auth (harness_receipt env d m b HARNESS_TURN_COMPLETED (Some COMPLETED) (chain @ [stop]) session stop t4) s1 = (None, s2)"
    "get_delivery (db s2) (dl_delivery_id d) = Some (d\<lparr>dl_state := PROCESSED, dl_disposition := Some COMPLETED\<rparr>)"
    "length (receipts (db s2)) = length (receipts (db s)) + 2" by auto
  have "\<exists>pr'. observe_all env [e1, e2, e3, e4] (pr, s) = (None, pr', s2)"
    by (rule observe_turn[OF events marker(1,2) hooks env(2) _ env(3) chain_def])
      (use bound marker(3) env(1) s(1,2) ids(4) in \<open>simp_all add: stop_def\<close>)
  with s(3,4) show ?thesis by blast
qed

section \<open>A concrete delivery\<close>

definition live_delivery :: Delivery where
  "live_delivery = sample_delivery\<lparr>dl_state := TRANSPORT_SUBMITTED\<rparr>"

definition live_method :: ProofMethodRegistration where
  "live_method = example_method\<lparr>pm_proof_method := HOOK_RELAY, pm_source_instance_id := ''host''\<rparr>"

definition live_binding :: SessionBinding where
  "live_binding = (example_binding ''b1'')\<lparr>sb_session_id := ''s1'', sb_proof_methods := [live_method]\<rparr>"

definition live_store :: core_store where
  "live_store = snd (add_delivery live_delivery (snd (register_session_binding live_binding example_store)))"

lemma wf_live_store: "wf_db (db live_store)"
  unfolding live_store_def by (rule wf_add_delivery, rule wf_register_session_binding, rule wf_example_store)

lemma live_store_rows:
  "get_delivery (db live_store) ''d1'' = Some live_delivery"
  "provider (db live_store) ''cmux'' = Some \<lparr>pv_provider_id = ''cmux'', pv_kind = SESSION_TRANSPORT, pv_health = ''healthy''\<rparr>"
  "provider_declares (db live_store) ''cmux'' HARNESS_PROMPT_ACCEPTED"
  "provider_declares (db live_store) ''cmux'' HARNESS_TURN_COMPLETED"
  "session_binding (db live_store) ''b1'' = Some (binding_row live_binding)"
  "binding_proof_method (db live_store) ''b1'' HOOK_RELAY = Inr (Some live_method)"
  "receipts (db live_store) = []"
  by code_simp+

lemma live_fields:
  "dl_delivery_id live_delivery = ''d1''" "dl_binding_id live_delivery = Some ''b1''"
  "dl_delivery_mode live_delivery = SESSION_BOUND" "dl_recipient_id live_delivery = ''ana''"
  "dl_state live_delivery = TRANSPORT_SUBMITTED"
  by (simp_all add: live_delivery_def sample_delivery_def)

lemma live_admits:
  assumes "valid_marker sample_authority m sample_delivery ''2026-07-01T00:00:30Z''"
  shows "admits_hooks sample_authority (db live_store) ''cmux'' ''s1'' ''b1'' live_delivery m live_method ''2026-07-01T00:00:30Z''"
proof -
  have "(case (parse_timestamp ''2026-07-01T00:00:30Z'', parse_timestamp ''2026-07-01T00:00:00Z'',
      parse_timestamp ''2026-07-02T00:00:00Z'') of (Inr x, Inr e, Inr y) \<Rightarrow> e \<le> x \<and> x < y | _ \<Rightarrow> False)"
    by code_simp
  then obtain x e y where t: "parse_timestamp ''2026-07-01T00:00:30Z'' = Inr x"
      "parse_timestamp ''2026-07-01T00:00:00Z'' = Inr e" "parse_timestamp ''2026-07-02T00:00:00Z'' = Inr y" "e \<le> x" "x < y"
    by (auto split: sum.splits)
  have "valid_marker sample_authority m live_delivery ''2026-07-01T00:00:30Z''"
    using assms by (simp add: valid_marker_def marker_fields_match_def live_delivery_def)
  with t show ?thesis
    unfolding admits_hooks_def live_store_rows live_fields
    by (simp add: live_store_rows(3,4) binding_row_def live_binding_def example_binding_def live_method_def example_method_def)
qed

lemma example_bus_ids:
  assumes "bus_event src boot w name t p (example_bus n name p) e"
  shows "de_seq e = n \<and> de_source_event_id e = ''ev'' @ nat_text (nat n)"
proof -
  from assms have "project src (example_bus n name p) boot = Inr e" by (simp add: bus_event_def)
  then show ?thesis by (rule project_Inr) (auto simp: example_bus_def dict_get_def)
qed

text \<open>A minted marker on the wire, and the four events around it.\<close>

lemma live_turn:
  obtains m m0 preview e1 e2 e3 e4 where
    "valid_marker sample_authority m sample_delivery ''2026-07-01T00:00:30Z''"
    "extract_marker (Some preview) = Inr (Some (Short m0))" "sh_delivery_id m0 = ''d1''" "sh_binding_id m0 = ''b1''"
    "sh_signature m0 = mk_signature m"
    "bus_event ''host'' ''boot'' (Some ''w1'') ''surface.input_sent'' ''2026-07-01T00:00:30Z'' []
      (example_bus 1 ''surface.input_sent'' []) e1"
    "bus_event ''host'' ''boot'' (Some ''w1'') ''workspace.prompt.submitted'' ''2026-07-01T00:00:30Z''
      [(''message_preview'', JStr preview)] (example_bus 2 ''workspace.prompt.submitted'' [(''message_preview'', JStr preview)]) e2"
    "bus_event ''host'' ''boot'' (Some ''w1'') ''agent.hook.UserPromptSubmit'' ''2026-07-01T00:00:30Z''
      [(''session_id'', JStr ''s1'')] (example_bus 3 ''agent.hook.UserPromptSubmit'' [(''session_id'', JStr ''s1'')]) e3"
    "bus_event ''host'' ''boot'' (Some ''w1'') ''agent.hook.Stop'' ''2026-07-01T00:00:30Z''
      [(''session_id'', JStr ''s1'')] (example_bus 4 ''agent.hook.Stop'' [(''session_id'', JStr ''s1'')]) e4"
proof -
  from sample_minted obtain m where m: "mint sample_authority sample_delivery ''2026-07-01T00:00:00Z'' ''2026-07-01T00:01:00Z'' = Inr m"
    "valid_marker sample_authority m sample_delivery ''2026-07-01T00:00:30Z''" by (auto simp: validate_None_iff)
  from minted_signature_digest[OF m(1)] obtain bs where bs: "mk_signature m = hex bs" "length bs = 32" by (rule is_hex_digestE)
  let ?preview = "''/queue '' @ short_token ''d1'' ''b1'' bs @ '' hello''"
  let ?m0 = "\<lparr>sh_delivery_id = ''d1'', sh_binding_id = ''b1'', sh_signature = hex bs\<rparr>"
  have x: "extract_marker (Some ?preview) = Inr (Some (Short ?m0))"
    by (rule extract_written) (simp_all add: is_token_id_def is_token_char_def bs(2))
  obtain q where q: "safe_payload (JObj [(''message_preview'', JStr ?preview)]) = Inr q"
    using x extract_marker_text[OF x] by (auto simp: safe_payload_def dict_get_def)
  have 1: "safe_payload (JObj []) = Inr []" by (simp add: safe_payload_def dict_get_def)
  obtain e1 where e1: "bus_event ''host'' ''boot'' (Some ''w1'') ''surface.input_sent'' ''2026-07-01T00:00:30Z'' []
      (example_bus 1 ''surface.input_sent'' []) e1"
    using example_bus_event[of 1 "''surface.input_sent''", OF _ _ _ 1] by auto
  obtain e2 where e2: "bus_event ''host'' ''boot'' (Some ''w1'') ''workspace.prompt.submitted'' ''2026-07-01T00:00:30Z''
      [(''message_preview'', JStr ?preview)] (example_bus 2 ''workspace.prompt.submitted'' [(''message_preview'', JStr ?preview)]) e2"
    using example_bus_event[of 2 "''workspace.prompt.submitted''", OF _ _ _ q] by auto
  obtain e3 where e3: "bus_event ''host'' ''boot'' (Some ''w1'') ''agent.hook.UserPromptSubmit'' ''2026-07-01T00:00:30Z''
      [(''session_id'', JStr ''s1'')] (example_bus 3 ''agent.hook.UserPromptSubmit'' [(''session_id'', JStr ''s1'')]) e3"
    using example_bus_event[of 3 "''agent.hook.UserPromptSubmit''", OF _ _ _ example_session_kept] by auto
  obtain e4 where e4: "bus_event ''host'' ''boot'' (Some ''w1'') ''agent.hook.Stop'' ''2026-07-01T00:00:30Z''
      [(''session_id'', JStr ''s1'')] (example_bus 4 ''agent.hook.Stop'' [(''session_id'', JStr ''s1'')]) e4"
    using example_bus_event[of 4 "''agent.hook.Stop''", OF _ _ _ example_session_kept] by auto
  show thesis by (rule that[OF m(2) x _ _ _ e1 e2 e3 e4]) (simp_all add: bs(1))
qed

text \<open>Witness of C4.\<close>

theorem turn_processes_delivery_witness:
  "\<exists>env es pr s'. observe_all env es (new_producer, live_store) = (None, pr, s') \<and> length es = 4
     \<and> get_delivery (db s') ''d1'' = Some (live_delivery\<lparr>dl_state := PROCESSED, dl_disposition := Some COMPLETED\<rparr>)"
proof (rule live_turn)
  fix m m0 preview e1 e2 e3 e4
  assume m: "valid_marker sample_authority m sample_delivery ''2026-07-01T00:00:30Z''"
    "extract_marker (Some preview) = Inr (Some (Short m0))" "sh_delivery_id m0 = ''d1''" "sh_binding_id m0 = ''b1''"
    "sh_signature m0 = mk_signature m"
    and e: "bus_event ''host'' ''boot'' (Some ''w1'') ''surface.input_sent'' ''2026-07-01T00:00:30Z'' []
      (example_bus 1 ''surface.input_sent'' []) e1"
    "bus_event ''host'' ''boot'' (Some ''w1'') ''workspace.prompt.submitted'' ''2026-07-01T00:00:30Z''
      [(''message_preview'', JStr preview)] (example_bus 2 ''workspace.prompt.submitted'' [(''message_preview'', JStr preview)]) e2"
    "bus_event ''host'' ''boot'' (Some ''w1'') ''agent.hook.UserPromptSubmit'' ''2026-07-01T00:00:30Z''
      [(''session_id'', JStr ''s1'')] (example_bus 3 ''agent.hook.UserPromptSubmit'' [(''session_id'', JStr ''s1'')]) e3"
    "bus_event ''host'' ''boot'' (Some ''w1'') ''agent.hook.Stop'' ''2026-07-01T00:00:30Z''
      [(''session_id'', JStr ''s1'')] (example_bus 4 ''agent.hook.Stop'' [(''session_id'', JStr ''s1'')]) e4"
  let ?env = "\<lparr>re_core_client = core_sink sample_authority, re_provider_id = ''cmux'',
      re_delivery_lookup = (\<lambda>i. if i = ''d1'' then Some (live_delivery, m) else None)\<rparr>"
  note ids = example_bus_ids[OF e(1)] example_bus_ids[OF e(2)] example_bus_ids[OF e(3)] example_bus_ids[OF e(4)]
  have digits: "nat_text 1 = ''1''" "nat_text 2 = ''2''" "nat_text 3 = ''3''" "nat_text 4 = ''4''" by code_simp+
  have order: "sorted_wrt (<) (map de_seq [e1, e2, e3, e4])" "distinct (map de_source_event_id [e1, e2, e3, e4])"
    using ids digits by simp_all
  have new: "unseen (db live_store) p i" for p i
    by (simp add: unseen_def receipt_record_def source_seen_def live_store_rows(7))
  have "\<exists>pr s'. observe_all ?env [e1, e2, e3, e4] (new_producer, live_store) = (None, pr, s')
      \<and> get_delivery (db s') (dl_delivery_id live_delivery) =
          Some (live_delivery\<lparr>dl_state := PROCESSED, dl_disposition := Some COMPLETED\<rparr>)
      \<and> length (receipts (db s')) = length (receipts (db live_store)) + 2"
    by (rule turn_processes_delivery[OF e order _ m(2) m(4,5), where auth = sample_authority and session = "''s1''"
          and reg = live_method])
      (use m live_admits[OF m(1)] live_store_rows(1) live_fields new wf_live_store in
        \<open>simp_all add: dict_get_def as_text_def live_method_def\<close>)
  then obtain pr s' where "observe_all ?env [e1, e2, e3, e4] (new_producer, live_store) = (None, pr, s')"
    "get_delivery (db s') ''d1'' = Some (live_delivery\<lparr>dl_state := PROCESSED, dl_disposition := Some COMPLETED\<rparr>)"
    unfolding live_fields(1) by (elim exE conjE)
  then show ?thesis by (intro exI[of _ ?env] exI[of _ "[e1, e2, e3, e4]"] exI[of _ pr] exI[of _ s']) simp
qed

end
