(* ===== verification/Cmux_Resident.thy ===== *)
theory Cmux_Resident
  imports Cmux_Producer
begin

text \<open>
  \<open>plugins/cmux/yatagarasu_cmux/resident.py\<close>: the bounded reconnect loop over event-stream connections. The socket client
  is a parameter: what the nth connection yields when opened after a sequence number (frames, then the
  end of the stream or an exception), and what a snapshot request returns, given the connection and the
  frames read so far. The loops recurse over the connections and over the frames of a connection. A run ends with
  its return value or the exception that left it, and the state it reached either way.
\<close>

section \<open>State\<close>

record stream_client =
  cl_open_stream :: "nat \<Rightarrow> int option \<Rightarrow> (frame list \<times> py_exc option) res"
  cl_snapshots :: "nat \<Rightarrow> nat \<Rightarrow> SnapshotBaseline list res"

record ResidentRun =
  rn_connections :: nat
  rn_reconnect_after_seq :: "int option list"
  rn_slow_consumer_received :: bool
  rn_disconnect_at_seq :: "int option"
  rn_replay_event_count :: int
  rn_inserted_event_count :: int
  rn_duplicate_event_count :: int
  rn_snapshot_commands :: "string list"

text \<open>The variables of \<open>run\<close>: the stores it works on, the counters it returns, and the two of the current connection.\<close>

record 's run_state =
  st_outbox :: event_outbox
  st_producer :: producer
  st_sink :: 's
  st_run :: ResidentRun
  st_remaining_replay :: int
  st_replay_seen :: int

section \<open>One frame\<close>

definition resnapshot ::
  "stream_client \<Rightarrow> string \<Rightarrow> nat \<Rightarrow> nat \<Rightarrow> string \<Rightarrow> int \<Rightarrow> int \<Rightarrow> 's run_state \<Rightarrow> py_exc option \<times> 's run_state" where
  "resnapshot cl source n k boot_id cursor_seq replay_count st =
     (case cl_snapshots cl n k of
        Inl e \<Rightarrow> (Some e, st)
      | Inr commands \<Rightarrow>
        (case record_resnapshot \<lparr>cu_source_instance_id = source, cu_boot_id = boot_id, cu_seq = cursor_seq\<rparr>
                commands replay_count (st_outbox st) of
           (Inl e, ob) \<Rightarrow> (Some e, st\<lparr>st_outbox := ob\<rparr>)
         | (Inr _, ob) \<Rightarrow>
           (None, st\<lparr>st_outbox := ob,
                     st_run := (st_run st)\<lparr>rn_snapshot_commands :=
                       rn_snapshot_commands (st_run st) @ map bl_method commands\<rparr>\<rparr>)))"

text \<open>The receipt plane first, then the durable cursor.\<close>

definition feed ::
  "'s receipt_env option \<Rightarrow> DerivedEvent \<Rightarrow> 's run_state \<Rightarrow> py_exc option \<times> 's run_state" where
  "feed env e st =
     (case env of
        None \<Rightarrow> (None, st)
      | Some v \<Rightarrow>
        (case producer_observe v e (st_producer st, st_sink st) of
           (x, pr, s) \<Rightarrow> (x, st\<lparr>st_producer := pr, st_sink := s\<rparr>)))"

definition commit ::
  "DerivedEvent \<Rightarrow> bool \<Rightarrow> 's run_state \<Rightarrow> py_exc option \<times> 's run_state" where
  "commit e gap st =
     (case commit_event e gap (st_outbox st) of
        (Inl x, ob) \<Rightarrow> (Some x, st\<lparr>st_outbox := ob\<rparr>)
      | (Inr INSERTED, ob) \<Rightarrow>
        (None, st\<lparr>st_outbox := ob,
                  st_run := (st_run st)\<lparr>rn_inserted_event_count := rn_inserted_event_count (st_run st) + 1\<rparr>\<rparr>)
      | (Inr DUPLICATE, ob) \<Rightarrow>
        (None, st\<lparr>st_outbox := ob,
                  st_run := (st_run st)\<lparr>rn_duplicate_event_count := rn_duplicate_event_count (st_run st) + 1\<rparr>\<rparr>))"

definition count_replay ::
  "stream_client \<Rightarrow> string \<Rightarrow> nat \<Rightarrow> nat \<Rightarrow> string \<Rightarrow> bool \<Rightarrow> DerivedEvent \<Rightarrow> 's run_state
    \<Rightarrow> py_exc option \<times> 's run_state" where
  "count_replay cl source n k boot_id gap e st =
     (if st_remaining_replay st > 0 then
        let st1 = st\<lparr>st_remaining_replay := st_remaining_replay st - 1,
                     st_replay_seen := st_replay_seen st + 1,
                     st_run := (st_run st)\<lparr>rn_replay_event_count := rn_replay_event_count (st_run st) + 1\<rparr>\<rparr>
        in if st_remaining_replay st1 = 0 \<and> gap
             then resnapshot cl source n k boot_id (de_seq e) (st_replay_seen st1) st1
           else (None, st1)
      else (None, st))"

definition on_event ::
  "'s receipt_env option \<Rightarrow> stream_client \<Rightarrow> string \<Rightarrow> nat \<Rightarrow> nat \<Rightarrow> string \<Rightarrow> bool \<Rightarrow> frame \<Rightarrow> 's run_state
    \<Rightarrow> py_exc option \<times> 's run_state" where
  "on_event env cl source n k boot_id gap f st =
     (case project source f boot_id of
        Inl x \<Rightarrow> (Some x, st)
      | Inr e \<Rightarrow>
        (case feed env e st of
           (Some x, st1) \<Rightarrow> (Some x, st1)
         | (None, st1) \<Rightarrow>
           (case commit e gap st1 of
              (Some x, st2) \<Rightarrow> (Some x, st2)
            | (None, st2) \<Rightarrow> count_replay cl source n k boot_id gap e st2)))"

text \<open>An error frame: the sequence number of a slow-consumer disconnect, or an exception.\<close>

definition on_error_frame :: "frame \<Rightarrow> 's run_state \<Rightarrow> py_exc option \<times> 's run_state" where
  "on_error_frame f st =
     (case dict_get f ''error'' of
        JObj error \<Rightarrow>
          if dict_get error ''code'' \<noteq> JStr ''slow_consumer''
            then (Some (StreamProtocolError ''CMUX stream error''), st)
          else let st1 = st\<lparr>st_run := (st_run st)\<lparr>rn_slow_consumer_received := True\<rparr>\<rparr>
          in (case dict_get error ''latest_seq'' of
                JInt latest \<Rightarrow>
                  if latest < 0 then (Some (StreamProtocolError ''slow_consumer latest sequence is malformed''), st1)
                  else (None, st1\<lparr>st_run := (st_run st1)\<lparr>rn_disconnect_at_seq := Some latest\<rparr>\<rparr>)
              | _ \<Rightarrow> (Some (StreamProtocolError ''slow_consumer latest sequence is malformed''), st1))
      | _ \<Rightarrow> (Some (StreamProtocolError ''CMUX stream error''), st))"

section \<open>One connection\<close>

fun read_frames ::
  "'s receipt_env option \<Rightarrow> stream_client \<Rightarrow> string \<Rightarrow> nat \<Rightarrow> string \<Rightarrow> bool \<Rightarrow> nat \<Rightarrow> frame list \<Rightarrow> py_exc option
    \<Rightarrow> 's run_state \<Rightarrow> py_exc option \<times> 's run_state" where
  "read_frames env cl source n boot_id gap k [] failure st = (failure, st)"
| "read_frames env cl source n boot_id gap k (f # fs) failure st =
     (if dict_get f ''type'' = JStr ''heartbeat'' then read_frames env cl source n boot_id gap (Suc k) fs failure st
      else if dict_get f ''type'' = JStr ''error'' then on_error_frame f st
      else if dict_get f ''type'' \<noteq> JStr ''event''
        then (Some (StreamProtocolError ''unexpected CMUX stream frame type''), st)
      else case on_event env cl source n k boot_id gap f st of
        (Some x, st') \<Rightarrow> (Some x, st')
      | (None, st') \<Rightarrow> read_frames env cl source n boot_id gap (Suc k) fs failure st')"

text \<open>The frames after the acknowledgement, with the snapshot that a gap without replay needs first.\<close>

definition consume ::
  "'s receipt_env option \<Rightarrow> stream_client \<Rightarrow> string \<Rightarrow> nat \<Rightarrow> StreamAck \<Rightarrow> bool \<Rightarrow> frame list \<Rightarrow> py_exc option
    \<Rightarrow> 's run_state \<Rightarrow> py_exc option \<times> 's run_state" where
  "consume env cl source n ack gap fs failure st =
     (case (if gap \<and> ack_replay_count ack = 0
            then resnapshot cl source n 1 (ack_boot_id ack) (rm_latest_seq (ack_resume ack)) 0 st
            else (None, st)) of
        (Some x, st1) \<Rightarrow> (Some x, st1)
      | (None, st1) \<Rightarrow> read_frames env cl source n (ack_boot_id ack) gap 1 fs failure st1)"

definition close_connection ::
  "string \<Rightarrow> EventCursor option \<Rightarrow> ResidentRun \<Rightarrow> 's run_state \<Rightarrow> py_exc option \<times> 's run_state" where
  "close_connection source durable_before before st =
     (if st_remaining_replay st \<noteq> 0
        then (Some (StreamProtocolError ''stream ended before declared replay completed''), st)
      else case durable_before of
        None \<Rightarrow> (None, st)
      | Some d \<Rightarrow>
        (case cursor (st_outbox st) source of
           None \<Rightarrow> (Some (StreamProtocolError ''reconnect lost the durable cursor''), st)
         | Some durable_after \<Rightarrow>
           (case record_reconnect_replay durable_after (cu_seq d) (st_replay_seen st)
                   (rn_inserted_event_count (st_run st) - rn_inserted_event_count before)
                   (rn_duplicate_event_count (st_run st) - rn_duplicate_event_count before)
                   (rn_disconnect_at_seq (st_run st)) (st_outbox st) of
              (Inl x, ob) \<Rightarrow> (Some x, st\<lparr>st_outbox := ob\<rparr>)
            | (Inr _, ob) \<Rightarrow> (None, st\<lparr>st_outbox := ob\<rparr>))))"

definition connection ::
  "'s receipt_env option \<Rightarrow> stream_client \<Rightarrow> string \<Rightarrow> nat \<Rightarrow> 's run_state \<Rightarrow> py_exc option \<times> 's run_state" where
  "connection env cl source n st =
     (let durable_before = cursor (st_outbox st) source;
          after_seq = map_option cu_seq durable_before;
          st0 = st\<lparr>st_run := (st_run st)\<lparr>rn_reconnect_after_seq := rn_reconnect_after_seq (st_run st) @ [after_seq]\<rparr>\<rparr>
      in case cl_open_stream cl n after_seq of
           Inl e \<Rightarrow> (Some e, st0)
         | Inr ([], failure) \<Rightarrow>
             (Some (case failure of Some e \<Rightarrow> e | None \<Rightarrow> StreamProtocolError ''CMUX stream closed before ack''), st0)
         | Inr (first # fs, failure) \<Rightarrow>
           (case parse_ack first of
              Inl e \<Rightarrow> (Some e, st0)
            | Inr ack \<Rightarrow>
              (let gap = (rm_gap (ack_resume ack)
                          \<or> (\<exists>d \<in> set_option durable_before. cu_boot_id d \<noteq> ack_boot_id ack));
                   st1 = st0\<lparr>st_remaining_replay := ack_replay_count ack, st_replay_seen := 0\<rparr>
               in case consume env cl source n ack gap fs failure st1 of
                    (Some x, st2) \<Rightarrow> (Some x, st2)
                  | (None, st2) \<Rightarrow> close_connection source durable_before (st_run st1) st2)))"

section \<open>The run\<close>

fun connections ::
  "'s receipt_env option \<Rightarrow> stream_client \<Rightarrow> string \<Rightarrow> nat list \<Rightarrow> 's run_state \<Rightarrow> py_exc option \<times> 's run_state" where
  "connections env cl source [] st = (None, st)"
| "connections env cl source (n # ns) st =
     (case connection env cl source n st of
        (Some x, st') \<Rightarrow> (Some x, st')
      | (None, st') \<Rightarrow> connections env cl source ns st')"

definition run ::
  "'s receipt_env option \<Rightarrow> stream_client \<Rightarrow> string \<Rightarrow> int \<Rightarrow> event_outbox \<Rightarrow> producer \<Rightarrow> 's
    \<Rightarrow> ResidentRun res \<times> event_outbox \<times> producer \<times> 's" where
  "run env cl source max_connections ob pr s =
     (if max_connections \<le> 0 then (Inl (ValueError ''max_connections must be positive''), ob, pr, s)
      else case (case env of None \<Rightarrow> (None, pr, s) | Some v \<Rightarrow> recover v (outbox_events ob source) (pr, s)) of
        (Some e, pr', s') \<Rightarrow> (Inl e, ob, pr', s')
      | (None, pr', s') \<Rightarrow>
        (case connections env cl source [0..<nat max_connections]
                \<lparr>st_outbox = ob, st_producer = pr', st_sink = s',
                 st_run = \<lparr>rn_connections = nat max_connections, rn_reconnect_after_seq = [],
                           rn_slow_consumer_received = False, rn_disconnect_at_seq = None,
                           rn_replay_event_count = 0, rn_inserted_event_count = 0,
                           rn_duplicate_event_count = 0, rn_snapshot_commands = []\<rparr>,
                 st_remaining_replay = 0, st_replay_seen = 0\<rparr> of
           (Some e, st) \<Rightarrow> (Inl e, st_outbox st, st_producer st, st_sink st)
         | (None, st) \<Rightarrow> (Inr (st_run st), st_outbox st, st_producer st, st_sink st)))"

end
