(* ===== verification/Cmux_Resident_Facts.thy ===== *)
theory Cmux_Resident_Facts
  imports Cmux_Resident Cmux_Turn "HOL-Library.Sublist"
begin

text \<open>
  What a resident run does to the durable plane and to the receipt plane, whether it returns or raises:
  every piece of the loop is described by the events it fed to the producer and the rows it added,
  and the descriptions compose.
\<close>

section \<open>Pieces of a run\<close>

definition receipt_plane :: "'s run_state \<Rightarrow> producer \<times> 's" where
  "receipt_plane st = (st_producer st, st_sink st)"

text \<open>From one state to another by events that the receipt plane took, of which \<open>new\<close> became rows.\<close>

definition fed ::
  "'s receipt_env option \<Rightarrow> 's run_state \<Rightarrow> 's run_state \<Rightarrow> DerivedEvent list \<Rightarrow> DerivedEvent list \<Rightarrow> bool" where
  "fed env st st' obs new =
     (outbox_step\<^sup>*\<^sup>* (st_outbox st) (st_outbox st')
      \<and> ob_events (st_outbox st') = ob_events (st_outbox st) @ new \<and> subseq new obs
      \<and> rn_inserted_event_count (st_run st') = rn_inserted_event_count (st_run st) + int (length new)
      \<and> (case env of
           None \<Rightarrow> receipt_plane st' = receipt_plane st
         | Some v \<Rightarrow> observe_all v obs (receipt_plane st) = (None, receipt_plane st')))"

text \<open>How an exception leaves the receipt plane: as it was, or as the producer that raised left it.\<close>

definition stopped :: "'s receipt_env option \<Rightarrow> 's run_state \<Rightarrow> 's run_state \<Rightarrow> bool" where
  "stopped env st st' =
     (st_outbox st' = st_outbox st
      \<and> (receipt_plane st' = receipt_plane st
         \<or> (\<exists>v e x. env = Some v \<and> producer_observe v e (receipt_plane st) = (Some x, receipt_plane st'))))"

definition outcome_of :: "'s receipt_env option \<Rightarrow> 's run_state \<Rightarrow> py_exc option \<times> 's run_state \<Rightarrow> bool" where
  "outcome_of env st r =
     (case r of
        (None, st') \<Rightarrow> (\<exists>obs new. fed env st st' obs new)
      | (Some x, st') \<Rightarrow> (\<exists>mid obs new. fed env st mid obs new \<and> stopped env mid st'))"

lemma fed_refl: "fed env st st [] []"
  by (simp add: fed_def split: option.split)

lemma fed_trans:
  assumes "fed env a b obs new" "fed env b c obs' new'"
  shows "fed env a c (obs @ obs') (new @ new')"
  using assms
  by (cases env) (auto simp: fed_def observe_all_append intro: rtranclp_trans list_emb_append_mono)

lemma stopped_refl: "stopped env st st"
  by (simp add: stopped_def)

lemma outcome_ofE:
  assumes "outcome_of env st (x, st')"
  obtains mid obs new where "fed env st mid obs new" "x = None \<longrightarrow> mid = st'" "stopped env mid st'"
proof (cases x)
  case None
  with assms obtain obs new where "fed env st st' obs new" by (auto simp: outcome_of_def)
  then show thesis by (rule that) (simp_all add: stopped_refl)
next
  case (Some y)
  with assms obtain mid obs new where "fed env st mid obs new" "stopped env mid st'" by (auto simp: outcome_of_def)
  then show thesis using Some by (intro that[of mid]) simp_all
qed

text \<open>Sequencing: after a piece that returned, another piece.\<close>

lemma outcome_of_raise: "outcome_of env st (Some x, st)"
  using fed_refl stopped_refl by (fastforce simp: outcome_of_def)

lemma outcome_of_then:
  assumes "outcome_of env a (None, b)" "outcome_of env b r"
  shows "outcome_of env a r"
proof -
  from assms(1) obtain obs new where f: "fed env a b obs new" by (auto simp: outcome_of_def)
  obtain x c where r: "r = (x, c)" by fastforce
  show ?thesis
    using assms(2) fed_trans[OF f] by (cases x) (auto simp: r outcome_of_def, blast+)
qed

lemma outcome_of_bind:
  assumes "outcome_of env a r1" "\<And>b. r1 = (None, b) \<Longrightarrow> outcome_of env b (g b)"
  shows "outcome_of env a (case r1 of (Some x, b) \<Rightarrow> (Some x, b) | (None, b) \<Rightarrow> g b)"
proof (cases r1)
  case (Pair x b)
  then show ?thesis using assms outcome_of_then[of env a b "g b"] by (cases x) auto
qed

text \<open>A piece that changes neither plane, and one that only changes the outbox by a step without events.\<close>

definition same_planes :: "'s run_state \<Rightarrow> 's run_state \<Rightarrow> bool" where
  "same_planes st st' =
     (st_outbox st' = st_outbox st \<and> receipt_plane st' = receipt_plane st
      \<and> rn_inserted_event_count (st_run st') = rn_inserted_event_count (st_run st))"

lemma outcome_of_quiet: "same_planes st st' \<Longrightarrow> outcome_of env st (x, st')"
proof -
  assume "same_planes st st'"
  then have "fed env st st' [] []" by (simp add: same_planes_def fed_def split: option.split)
  then show ?thesis using stopped_refl by (cases x) (fastforce simp: outcome_of_def)+
qed

lemma outcome_of_frame: "same_planes a b \<Longrightarrow> outcome_of env b r \<Longrightarrow> outcome_of env a r"
  using outcome_of_quiet[of a b env None] outcome_of_then by blast

lemma outcome_of_step:
  assumes "outbox_step (st_outbox st) ob" "ob_events ob = ob_events (st_outbox st)"
    and "st_outbox st' = ob" "receipt_plane st' = receipt_plane st"
    and "rn_inserted_event_count (st_run st') = rn_inserted_event_count (st_run st)"
  shows "outcome_of env st (None, st')"
proof -
  have "fed env st st' [] []" using assms by (auto simp: fed_def split: option.split)
  then show ?thesis by (fastforce simp: outcome_of_def)
qed

lemma same_planes_update:
  "same_planes st (st\<lparr>st_remaining_replay := a, st_replay_seen := b\<rparr>)"
  "same_planes st st"
  "rn_inserted_event_count rn = rn_inserted_event_count (st_run st) \<Longrightarrow> same_planes st (st\<lparr>st_run := rn\<rparr>)"
  "rn_inserted_event_count rn = rn_inserted_event_count (st_run st) \<Longrightarrow>
   same_planes st (st\<lparr>st_remaining_replay := a, st_replay_seen := b, st_run := rn\<rparr>)"
  by (simp_all add: same_planes_def receipt_plane_def)

section \<open>The loop\<close>

lemma resnapshot_outcome: "outcome_of env st (resnapshot cl source n k boot q c st)"
proof (cases "cl_snapshots cl n k")
  case (Inl e)
  then show ?thesis by (simp add: resnapshot_def outcome_of_raise)
next
  case (Inr bs)
  let ?c = "\<lparr>cu_source_instance_id = source, cu_boot_id = boot, cu_seq = q\<rparr>"
  obtain r ob where r: "record_resnapshot ?c bs c (st_outbox st) = (r, ob)" by fastforce
  have step: "outbox_step (st_outbox st) ob" using resnapshot_step[of "st_outbox st" ?c bs c] r by simp
  from r show ?thesis
  proof (cases rule: record_resnapshot_cases)
    case (failed x)
    then have "st\<lparr>st_outbox := ob\<rparr> = st" by simp
    with failed Inr r show ?thesis by (simp add: resnapshot_def outcome_of_raise)
  next
    case (done_ rows)
    then have "ob_events ob = ob_events (st_outbox st)" by simp
    with done_(1) Inr r step show ?thesis
      by (auto simp: resnapshot_def receipt_plane_def intro!: outcome_of_step)
  qed
qed

lemma feed_commit_outcome:
  "outcome_of env st (case feed env e st of (Some x, st1) \<Rightarrow> (Some x, st1) | (None, st1) \<Rightarrow> commit e gap st1)"
proof -
  obtain x st1 where f: "feed env e st = (x, st1)" by fastforce
  have keep: "st_outbox st1 = st_outbox st" "st_run st1 = st_run st"
    using f by (auto simp: feed_def split: option.splits prod.splits)
  show ?thesis
  proof (cases x)
    case (Some y)
    then have "stopped env st st1"
      using f keep by (auto simp: feed_def stopped_def receipt_plane_def split: option.splits prod.splits)
    with Some f fed_refl show ?thesis by (fastforce simp: outcome_of_def)
  next
    case None
    then have took: "case env of None \<Rightarrow> receipt_plane st1 = receipt_plane st
        | Some v \<Rightarrow> observe_all v [e] (receipt_plane st) = (None, receipt_plane st1)"
      using f by (auto simp: feed_def receipt_plane_def split: option.splits prod.splits)
    show ?thesis
    proof (cases "new_event e gap (st_outbox st1)")
      case True
      let ?st2 = "st1\<lparr>st_outbox := with_event e (st_outbox st1),
          st_run := (st_run st1)\<lparr>rn_inserted_event_count := rn_inserted_event_count (st_run st1) + 1\<rparr>\<rparr>"
      have "outbox_step (st_outbox st1) (with_event e (st_outbox st1))"
        using commit_step[of "st_outbox st1" e gap] True by (simp add: commit_new)
      with took keep have "fed env st ?st2 [e] [e]"
        by (auto simp: fed_def with_event_def receipt_plane_def split: option.splits)
      with None f True show ?thesis by (fastforce simp: outcome_of_def commit_def commit_new)
    next
      case False
      have "fed env st st1 [e] []" using took keep by (simp add: fed_def split: option.splits)
      then have "outcome_of env st (None, st1)" by (fastforce simp: outcome_of_def)
      moreover have "same_planes st1 (snd (commit e gap st1))"
        using False commit_state[of e gap "st_outbox st1"] commit_inserted[of e gap "st_outbox st1"]
        by (cases "commit_event e gap (st_outbox st1)")
          (auto simp: commit_def same_planes_def receipt_plane_def split: sum.splits CommitDisposition.splits)
      then have "outcome_of env st1 (commit e gap st1)"
        using outcome_of_quiet by (metis prod.collapse)
      ultimately show ?thesis
        using None f outcome_of_then by fastforce
    qed
  qed
qed

lemma count_replay_outcome: "outcome_of env st (count_replay cl source n k boot gap e st)"
proof -
  let ?st1 = "st\<lparr>st_remaining_replay := st_remaining_replay st - 1, st_replay_seen := st_replay_seen st + 1,
      st_run := (st_run st)\<lparr>rn_replay_event_count := rn_replay_event_count (st_run st) + 1\<rparr>\<rparr>"
  have "same_planes st ?st1" by (simp add: same_planes_def receipt_plane_def)
  note outcomes = outcome_of_frame[OF this resnapshot_outcome] outcome_of_quiet[OF this]
    outcome_of_quiet[OF same_planes_update(2)]
  show ?thesis
    unfolding count_replay_def Let_def by (split if_split)+ (use outcomes in blast)
qed

lemma on_event_outcome: "outcome_of env st (on_event env cl source n k boot gap f st)"
proof (cases "project source f boot")
  case (Inl x)
  then show ?thesis by (simp add: on_event_def outcome_of_raise)
next
  case (Inr e)
  have "on_event env cl source n k boot gap f st =
      (case (case feed env e st of (Some x, st1) \<Rightarrow> (Some x, st1) | (None, st1) \<Rightarrow> commit e gap st1) of
         (Some x, st2) \<Rightarrow> (Some x, st2) | (None, st2) \<Rightarrow> count_replay cl source n k boot gap e st2)"
    by (simp add: on_event_def Inr split: prod.split option.split)
  then show ?thesis
    using outcome_of_bind[OF feed_commit_outcome count_replay_outcome] by simp
qed

lemma on_error_frame_outcome: "outcome_of env st (on_error_frame f st)"
  by (auto simp: on_error_frame_def Let_def same_planes_def receipt_plane_def
      intro!: outcome_of_quiet split: json.split)

lemma read_frames_outcome: "outcome_of env st (read_frames env cl source n boot gap k fs failure st)"
proof (induction fs arbitrary: k st)
  case Nil
  then show ?case by (simp add: outcome_of_quiet same_planes_update)
next
  case (Cons f fs)
  then show ?case
    by (auto intro!: outcome_of_bind on_event_outcome on_error_frame_outcome outcome_of_raise)
qed

lemma consume_outcome: "outcome_of env st (consume env cl source n ack gap fs failure st)"
  unfolding consume_def
  by (rule outcome_of_bind) (simp_all add: resnapshot_outcome outcome_of_quiet same_planes_update read_frames_outcome)

lemma close_connection_outcome: "outcome_of env st (close_connection source before rn st)"
proof (cases "st_remaining_replay st \<noteq> 0 \<or> before = None \<or> cursor (st_outbox st) source = None")
  case True
  then show ?thesis
    by (auto simp: close_connection_def outcome_of_raise outcome_of_quiet same_planes_update split: option.split)
next
  case False
  then obtain d c where d: "before = Some d" "cursor (st_outbox st) source = Some c" by auto
  obtain r ob where r: "record_reconnect_replay c (cu_seq d) (st_replay_seen st)
      (rn_inserted_event_count (st_run st) - rn_inserted_event_count rn)
      (rn_duplicate_event_count (st_run st) - rn_duplicate_event_count rn)
      (rn_disconnect_at_seq (st_run st)) (st_outbox st) = (r, ob)" by fastforce
  have step: "outbox_step (st_outbox st) ob" using reconnect_step r by (metis snd_conv)
  from r show ?thesis
  proof (cases rule: record_reconnect_replay_cases)
    case (failed x)
    then have "st\<lparr>st_outbox := ob\<rparr> = st" by simp
    with False d r failed(1) show ?thesis by (simp add: close_connection_def outcome_of_raise)
  next
    case (done_ detail)
    then have "ob_events ob = ob_events (st_outbox st)" by simp
    with False d r done_(1) step show ?thesis
      by (auto simp: close_connection_def receipt_plane_def intro!: outcome_of_step)
  qed
qed

lemma connection_outcome: "outcome_of env st (connection env cl source n st)"
proof -
  let ?st0 = "st\<lparr>st_run := (st_run st)\<lparr>rn_reconnect_after_seq :=
      rn_reconnect_after_seq (st_run st) @ [map_option cu_seq (cursor (st_outbox st) source)]\<rparr>\<rparr>"
  have 0: "same_planes st ?st0" "same_planes st (?st0\<lparr>st_remaining_replay := a, st_replay_seen := b\<rparr>)" for a b
    by (simp_all add: same_planes_def receipt_plane_def)
  have early: "outcome_of env st (Some e, ?st0)" for e
    using outcome_of_quiet 0(1) by blast
  have rest: "outcome_of env st (case consume env cl source n ack gap fs failure (?st0\<lparr>st_remaining_replay := a, st_replay_seen := b\<rparr>) of
      (Some x, st2) \<Rightarrow> (Some x, st2) | (None, st2) \<Rightarrow> close_connection source before rn st2)"
    for ack gap fs failure a b before rn
    by (rule outcome_of_frame[OF 0(2)[of b a]]) (intro outcome_of_bind consume_outcome close_connection_outcome)
  show ?thesis
    by (simp add: connection_def Let_def early rest split: sum.split list.split)
qed

lemma connections_outcome: "outcome_of env st (connections env cl source ns st)"
proof (induction ns arbitrary: st)
  case Nil
  then show ?case by (simp add: outcome_of_quiet same_planes_update)
next
  case (Cons n ns)
  then show ?case by (auto intro!: outcome_of_bind connection_outcome)
qed

section \<open>A concrete run\<close>

definition example_ack :: frame where
  "example_ack =
     [(''type'', JStr ''ack''), (''protocol'', JStr ''cmux-events''), (''version'', JInt 1), (''boot_id'', JStr ''boot''),
      (''replay_count'', JInt 0),
      (''resume'', JObj [(''requested_after_seq'', JNull), (''oldest_seq'', JInt 0), (''latest_seq'', JInt 6),
         (''next_seq'', JInt 7), (''gap'', JBool False)])]"

definition example_client :: stream_client where
  "example_client =
     \<lparr>cl_open_stream = (\<lambda>_ _. Inr ([example_ack, example_frame, [(''type'', JStr ''heartbeat'')]], None)),
      cl_snapshots = (\<lambda>_ _. Inr [])\<rparr>"

lemma example_run:
  "\<exists>res ob pr s. run None example_client ''host'' 1 empty_outbox new_producer () = (Inr res, ob, pr, s)
     \<and> length (ob_events ob) = 1"
proof -
  have "case run None example_client ''host'' 1 empty_outbox new_producer () of
      (r, ob, _, _) \<Rightarrow> \<not> isl r \<and> length (ob_events ob) = 1"
    by code_simp
  then show ?thesis by (auto split: prod.splits simp: isl_def) (metis isl_def old.sum.exhaust)
qed

lemma example_run_receipts:
  "\<exists>res ob pr s. run (Some example_env) example_client ''host'' 1 empty_outbox new_producer [] = (Inr res, ob, pr, s)
     \<and> length (ob_events ob) = 1"
proof -
  have "case run (Some example_env) example_client ''host'' 1 empty_outbox new_producer [] of
      (r, ob, _, _) \<Rightarrow> \<not> isl r \<and> length (ob_events ob) = 1"
    by code_simp
  then show ?thesis by (auto split: prod.splits simp: isl_def) (metis isl_def old.sum.exhaust)
qed

section \<open>Properties\<close>

text \<open>The state a run starts its connections from.\<close>

lemma run_outcome:
  assumes "run env cl source n ob pr s = (r, ob', pr', s')"
  shows "ob' = ob \<and> isl r
    \<or> (\<exists>pr0 s0 new obs mid_plane.
        (case env of None \<Rightarrow> (pr0, s0) = (pr, s)
         | Some v \<Rightarrow> observe_all v (outbox_events ob source) (new_producer, s) = (None, pr0, s0))
        \<and> outbox_step\<^sup>*\<^sup>* ob ob' \<and> ob_events ob' = ob_events ob @ new \<and> subseq new obs
        \<and> (\<forall>res. r = Inr res \<longrightarrow> rn_inserted_event_count res = int (length new) \<and> mid_plane = (pr', s'))
        \<and> (case env of None \<Rightarrow> mid_plane = (pr0, s0) | Some v \<Rightarrow> observe_all v obs (pr0, s0) = (None, mid_plane))
        \<and> (mid_plane = (pr', s')
           \<or> (\<exists>v e x. env = Some v \<and> producer_observe v e mid_plane = (Some x, pr', s'))))"
proof (cases "n \<le> 0 \<or> fst (case env of None \<Rightarrow> (None, pr, s) | Some v \<Rightarrow> recover v (outbox_events ob source) (pr, s)) \<noteq> None")
  case True
  then have "ob' = ob \<and> isl r"
    using assms
    by (cases "n \<le> 0"; cases "case env of None \<Rightarrow> (None, pr, s) | Some v \<Rightarrow> recover v (outbox_events ob source) (pr, s)")
      (auto simp: run_def split: option.splits)
  then show ?thesis by simp
next
  case False
  then obtain pr0 s0 where p: "(case env of None \<Rightarrow> (None, pr, s)
      | Some v \<Rightarrow> recover v (outbox_events ob source) (pr, s)) = (None, pr0, s0)"
    by (metis prod.collapse)
  let ?st = "\<lparr>st_outbox = ob, st_producer = pr0, st_sink = s0,
       st_run = \<lparr>rn_connections = nat n, rn_reconnect_after_seq = [], rn_slow_consumer_received = False,
         rn_disconnect_at_seq = None, rn_replay_event_count = 0, rn_inserted_event_count = 0,
         rn_duplicate_event_count = 0, rn_snapshot_commands = []\<rparr>,
       st_remaining_replay = 0, st_replay_seen = 0\<rparr>"
  obtain x st where c: "connections env cl source [0..<nat n] ?st = (x, st)" by fastforce
  have res: "(r, ob', pr', s') = ((case x of None \<Rightarrow> Inr (st_run st) | Some e \<Rightarrow> Inl e), st_outbox st, st_producer st, st_sink st)"
    using assms False p c by (auto simp: run_def split: option.splits)
  have start: "case env of None \<Rightarrow> (pr0, s0) = (pr, s)
      | Some v \<Rightarrow> observe_all v (outbox_events ob source) (new_producer, s) = (None, pr0, s0)"
    using p by (auto simp: recover_def split: option.splits)
  have "outcome_of env ?st (x, st)" using connections_outcome[of env ?st cl source "[0..<nat n]"] c by simp
  then obtain mid obs new where
    f: "fed env ?st mid obs new" "x = None \<longrightarrow> mid = st" "stopped env mid st"
    by (rule outcome_ofE)
  have planes: "(pr', s') = receipt_plane st" using res by (simp add: receipt_plane_def)
  have steps: "outbox_step\<^sup>*\<^sup>* ob ob' \<and> ob_events ob' = ob_events ob @ new \<and> subseq new obs"
    using f(1,3) res by (simp add: fed_def stopped_def)
  have count: "\<forall>res. r = Inr res \<longrightarrow> rn_inserted_event_count res = int (length new) \<and> receipt_plane mid = (pr', s')"
    using f(1,2) res planes by (cases x) (auto simp: fed_def)
  have took: "case env of None \<Rightarrow> receipt_plane mid = (pr0, s0)
      | Some v \<Rightarrow> observe_all v obs (pr0, s0) = (None, receipt_plane mid)"
    using f(1) by (simp add: fed_def receipt_plane_def split: option.splits)
  have end_: "receipt_plane mid = (pr', s')
      \<or> (\<exists>v e x. env = Some v \<and> producer_observe v e (receipt_plane mid) = (Some x, pr', s'))"
    using f(3) planes by (auto simp: stopped_def)
  show ?thesis using start steps count took end_ by blast
qed

text \<open>C29: Whatever the host sends and wherever a run stops, the outbox it leaves behind is one that outbox
  operations reach from the one it was given, so its invariant holds, nothing stored is lost and every event is stored once;
  and a run that returns reports exactly as many insertions as there are new rows.\<close>

theorem resident_run_keeps_outbox:
  assumes "outbox_step\<^sup>*\<^sup>* empty_outbox ob" "run env cl source n ob pr s = (r, ob', pr', s')"
  shows "outbox_step\<^sup>*\<^sup>* empty_outbox ob' \<and> wf_outbox ob' \<and> outbox_grows ob ob'
    \<and> (case r of Inr res \<Rightarrow> rn_inserted_event_count res = int (length (ob_events ob') - length (ob_events ob)) | Inl _ \<Rightarrow> True)"
proof -
  have step: "outbox_step\<^sup>*\<^sup>* ob ob'" using run_outcome[OF assms(2)] by auto
  have wf: "wf_outbox ob" using outbox.reachable_inv[OF refl assms(1)] .
  have "case r of Inr res \<Rightarrow> rn_inserted_event_count res = int (length (ob_events ob') - length (ob_events ob)) | Inl _ \<Rightarrow> True"
    using run_outcome[OF assms(2)] by (cases r) auto
  moreover have "outbox_step\<^sup>*\<^sup>* empty_outbox ob'" using assms(1) step by (rule rtranclp_trans)
  ultimately show ?thesis
    using outbox.inv_steps[OF step wf] outbox.steps_le[OF step wf] by blast
qed

text \<open>Witness of C29.\<close>

theorem resident_run_keeps_outbox_witness:
  "\<exists>res ob pr s. run None example_client ''host'' 1 empty_outbox new_producer () = (Inr res, ob, pr, s)
     \<and> wf_outbox ob \<and> rn_inserted_event_count res = 1"
proof -
  obtain res ob pr s where r: "run None example_client ''host'' 1 empty_outbox new_producer () = (Inr res, ob, pr, s)"
    "length (ob_events ob) = 1" using example_run by blast
  from resident_run_keeps_outbox[OF rtranclp.rtrancl_refl r(1)] r show ?thesis
    by (simp add: empty_outbox_def)
qed

text \<open>C6: Receipts before the cursor. With a producer attached, after the events stored earlier were replayed to it, every
  row that a run adds is an event that the producer took without an exception, in order; the receipt plane is what
  those events make of it, apart from at most one further event that the producer refused and that is therefore not
  stored and will be replayed.\<close>

theorem receipts_before_cursor:
  assumes "run (Some env) cl source n ob pr s = (r, ob', pr', s')"
  shows "ob' = ob \<or> (\<exists>new obs plane. ob_events ob' = ob_events ob @ new \<and> subseq new obs
    \<and> observe_all env (outbox_events ob source @ obs) (new_producer, s) = (None, plane)
    \<and> (plane = (pr', s') \<or> (\<exists>e x. producer_observe env e plane = (Some x, pr', s') \<and> isl r)))"
proof -
  from run_outcome[OF assms] show ?thesis
  proof (elim disjE conjE exE)
    fix pr0 s0 new obs mid
    assume a: "case Some env of None \<Rightarrow> (pr0, s0) = (pr, s)
         | Some v \<Rightarrow> observe_all v (outbox_events ob source) (new_producer, s) = (None, pr0, s0)"
      "ob_events ob' = ob_events ob @ new" "subseq new obs"
      "\<forall>res. r = Inr res \<longrightarrow> rn_inserted_event_count res = int (length new) \<and> mid = (pr', s')"
      "case Some env of None \<Rightarrow> mid = (pr0, s0) | Some v \<Rightarrow> observe_all v obs (pr0, s0) = (None, mid)"
    have all: "observe_all env (outbox_events ob source @ obs) (new_producer, s) = (None, mid)"
      using a(1,5) by (simp add: observe_all_append)
    show ?thesis if "mid = (pr', s')" using that a(2,3) all by blast
    show ?thesis if "Some env = Some v" "producer_observe v e mid = (Some x, pr', s')" for v e x
    proof (cases r)
      case (Inl y)
      with that have "producer_observe env e mid = (Some x, pr', s') \<and> isl r" by simp
      with a(2,3) all show ?thesis by blast
    next
      case (Inr res)
      with a(2,3,4) all show ?thesis by blast
    qed
  qed simp
qed

text \<open>Witness of C6.\<close>

theorem receipts_before_cursor_witness:
  "\<exists>(ob :: event_outbox) e obs plane. ob_events ob = [e] \<and> subseq [e] obs
     \<and> observe_all example_env obs (new_producer, []) = (None, plane)"
proof -
  obtain res ob pr s where r: "run (Some example_env) example_client ''host'' 1 empty_outbox new_producer [] = (Inr res, ob, pr, s)"
    "length (ob_events ob) = 1" using example_run_receipts by blast
  have e: "ob_events empty_outbox = []" "outbox_events empty_outbox ''host'' = []" by code_simp+
  have "ob \<noteq> empty_outbox" using r(2) e by auto
  moreover obtain x where "ob_events ob = [x]" using r(2) by (auto simp: length_Suc_conv)
  ultimately obtain obs where "subseq [x] obs" "observe_all example_env obs (new_producer, []) = (None, pr, s)"
    "ob_events ob = [x]" using receipts_before_cursor[OF r(1)] e by auto
  then show ?thesis by blast
qed

end
