(* ===== verification/Cmux_Socket.thy ===== *)
theory Cmux_Socket
  imports Cmux_Resident
begin

text \<open>
  \<open>plugins/cmux/yatagarasu_cmux/socket_client.py\<close> and \<open>socket_transport.py\<close>: newline-framed JSON over Unix sockets. A
  buffered reader is what the peer will still deliver: bytes, then the end of the stream or an
  exception. The operating system's sockets are a parameter whose state is threaded through; the client uses
  one command connection at a time.
\<close>

section \<open>Lines\<close>

record reader =
  rd_bytes :: "byte list"
  rd_failure :: "py_exc option"

text \<open>At most \<open>n\<close> bytes, up to and including the first newline.\<close>

fun split_line :: "nat \<Rightarrow> byte list \<Rightarrow> byte list \<times> byte list" where
  "split_line 0 bs = ([], bs)"
| "split_line (Suc n) [] = ([], [])"
| "split_line (Suc n) (b # bs) =
     (if b = 10 then ([b], bs) else case split_line n bs of (l, r) \<Rightarrow> (b # l, r))"

definition ends_line :: "byte list \<Rightarrow> bool" where
  "ends_line l = (l \<noteq> [] \<and> last l = 10)"

definition readline :: "nat \<Rightarrow> reader \<Rightarrow> byte list res \<times> reader" where
  "readline n rd =
     (case split_line n (rd_bytes rd) of
        (l, r) \<Rightarrow>
          if ends_line l \<or> length l = n then (Inr l, rd\<lparr>rd_bytes := r\<rparr>)
          else case rd_failure rd of
            None \<Rightarrow> (Inr l, rd\<lparr>rd_bytes := r\<rparr>)
          | Some e \<Rightarrow> (Inl e, rd\<lparr>rd_bytes := r\<rparr>))"

section \<open>Stream frames\<close>

definition parse_frame :: "byte list \<Rightarrow> frame option res" where
  "parse_frame raw =
     (if raw = [] then Inr None
      else if length raw > MAX_FRAME_BYTES + 1 \<or> \<not> ends_line raw
        then Inl (StreamProtocolError ''CMUX stream frame exceeds the 16 KiB limit'')
      else case loads_bytes raw of
        Inl UnicodeDecodeError \<Rightarrow> Inl (StreamProtocolError ''CMUX stream frame is not valid JSON'')
      | Inl JSONDecodeError \<Rightarrow> Inl (StreamProtocolError ''CMUX stream frame is not valid JSON'')
      | Inl e \<Rightarrow> Inl e
      | Inr (JObj f) \<Rightarrow> Inr (Some f)
      | Inr _ \<Rightarrow> Inl (StreamProtocolError ''CMUX stream frame must be a JSON object''))"

definition read_frame :: "reader \<Rightarrow> frame option res \<times> reader" where
  "read_frame rd =
     (case readline (MAX_FRAME_BYTES + 2) rd of
        (Inl e, rd') \<Rightarrow> (Inl e, rd')
      | (Inr raw, rd') \<Rightarrow> (parse_frame raw, rd'))"

lemma split_line_length: "split_line n bs = (l, r) \<Longrightarrow> length l + length r = length bs"
  by (induction n bs arbitrary: l r rule: split_line.induct) (auto split: if_splits prod.splits)

lemma split_line_append: "split_line n bs = (l, r) \<Longrightarrow> bs = l @ r"
  by (induction n bs arbitrary: l r rule: split_line.induct) (auto split: if_splits prod.splits)

lemma readline_Inr: "readline n rd = (Inr l, rd') \<Longrightarrow> rd_bytes rd = l @ rd_bytes rd'"
  by (auto simp: readline_def dest: split_line_append split: prod.splits if_splits option.splits)

lemma read_frame_consumes:
  assumes "read_frame rd = (Inr (Some f), rd')"
  shows "length (rd_bytes rd') < length (rd_bytes rd)"
proof -
  from assms obtain raw where raw: "readline (MAX_FRAME_BYTES + 2) rd = (Inr raw, rd')" "parse_frame raw = Inr (Some f)"
    by (auto simp: read_frame_def split: prod.splits sum.splits)
  then have "raw \<noteq> []" by (auto simp: parse_frame_def)
  with readline_Inr[OF raw(1)] show ?thesis by simp
qed

text \<open>The frames of a connection, one \<open>read_frame\<close> after the other, and how the sequence ends.\<close>

function frames_of :: "reader \<Rightarrow> frame list \<times> py_exc option" where
  "frames_of rd =
     (case read_frame rd of
        (Inl e, _) \<Rightarrow> ([], Some e)
      | (Inr None, _) \<Rightarrow> ([], None)
      | (Inr (Some f), rd') \<Rightarrow> (case frames_of rd' of (fs, x) \<Rightarrow> (f # fs, x)))"
  by pat_completeness auto

termination
  by (relation "measure (\<lambda>rd. length (rd_bytes rd))") (auto dest: read_frame_consumes[OF sym])

declare frames_of.simps [simp del]

section \<open>Command connections\<close>

definition MAX_COMMAND_FRAME_BYTES :: nat where
  "MAX_COMMAND_FRAME_BYTES = 4 * 1024 * 1024"

definition SNAPSHOT_METHODS :: "string list" where
  "SNAPSHOT_METHODS = [''extension.sidebar.snapshot'', ''workspace.list'', ''system.tree'']"

text \<open>What the client uses of the operating system: making a socket, connecting it, sending all of some bytes, reading a
  line, closing. Each of the first four may raise.\<close>

record 'k sockets =
  so_socket :: "'k \<Rightarrow> unit res \<times> 'k"
  so_connect :: "'k \<Rightarrow> unit res \<times> 'k"
  so_send :: "byte list \<Rightarrow> 'k \<Rightarrow> unit res \<times> 'k"
  so_readline :: "nat \<Rightarrow> 'k \<Rightarrow> byte list res \<times> 'k"
  so_close :: "'k \<Rightarrow> 'k"

record socket_client =
  uc_password :: "string option"
  uc_next_request :: nat

definition new_socket_client :: "string option \<Rightarrow> socket_client" where
  "new_socket_client password = \<lparr>uc_password = password, uc_next_request = 1\<rparr>"

text \<open>\<open>_connect\<close>: a socket that cannot be connected is closed before the exception goes on.\<close>

definition connect_socket :: "'k sockets \<Rightarrow> 'k \<Rightarrow> unit res \<times> 'k" where
  "connect_socket so k =
     (case so_socket so k of
        (Inl e, k1) \<Rightarrow> (Inl e, k1)
      | (Inr _, k1) \<Rightarrow>
        (case so_connect so k1 of
           (Inl e, k2) \<Rightarrow> (Inl e, so_close so k2)
         | (Inr _, k2) \<Rightarrow> (Inr (), k2)))"

definition json_line :: "json \<Rightarrow> byte list" where
  "json_line v = utf8 (dumps_compact v) @ [10]"

definition write_json :: "'k sockets \<Rightarrow> json \<Rightarrow> 'k \<Rightarrow> unit res \<times> 'k" where
  "write_json so v k = so_send so (json_line v) k"

definition parse_response :: "byte list \<Rightarrow> frame res" where
  "parse_response raw =
     (if raw = [] \<or> length raw > MAX_COMMAND_FRAME_BYTES + 1 \<or> \<not> ends_line raw
        then Inl (StreamProtocolError ''CMUX command response is missing or oversized'')
      else case loads_bytes raw of
        Inl UnicodeDecodeError \<Rightarrow> Inl (StreamProtocolError ''CMUX command response is not valid JSON'')
      | Inl JSONDecodeError \<Rightarrow> Inl (StreamProtocolError ''CMUX command response is not valid JSON'')
      | Inl e \<Rightarrow> Inl e
      | Inr (JObj f) \<Rightarrow> Inr f
      | Inr _ \<Rightarrow> Inl (StreamProtocolError ''CMUX command response must be a JSON object''))"

definition read_json :: "'k sockets \<Rightarrow> 'k \<Rightarrow> frame res \<times> 'k" where
  "read_json so k =
     (case so_readline so (MAX_COMMAND_FRAME_BYTES + 2) k of
        (Inl e, k') \<Rightarrow> (Inl e, k')
      | (Inr raw, k') \<Rightarrow> (parse_response raw, k'))"

text \<open>One request and its response on an open connection.\<close>

definition request :: "string \<Rightarrow> string \<Rightarrow> frame \<Rightarrow> json" where
  "request i method params = JObj [(''id'', JStr i), (''method'', JStr method), (''params'', JObj params)]"

definition exchange :: "'k sockets \<Rightarrow> json \<Rightarrow> 'k \<Rightarrow> frame res \<times> 'k" where
  "exchange so v k = (case write_json so v k of (Inl e, k') \<Rightarrow> (Inl e, k') | (Inr _, k') \<Rightarrow> read_json so k')"

definition authenticate :: "'k sockets \<Rightarrow> string option \<Rightarrow> 'k \<Rightarrow> unit res \<times> 'k" where
  "authenticate so password k =
     (case password of
        None \<Rightarrow> (Inr (), k)
      | Some p \<Rightarrow>
        (case exchange so (request ''yatagarasu-auth'' ''auth.login'' [(''password'', JStr p)]) k of
           (Inl e, k') \<Rightarrow> (Inl e, k')
         | (Inr response, k') \<Rightarrow>
             if dict_get response ''ok'' \<noteq> JBool True
               then (Inl (StreamProtocolError ''CMUX socket authentication failed''), k')
             else (Inr (), k')))"

text \<open>A request on a fresh connection that is closed on every path.\<close>

definition round_trip :: "'k sockets \<Rightarrow> string option \<Rightarrow> json \<Rightarrow> 'k \<Rightarrow> frame res \<times> 'k" where
  "round_trip so password v k =
     (case connect_socket so k of
        (Inl e, k1) \<Rightarrow> (Inl e, k1)
      | (Inr _, k1) \<Rightarrow>
        (case (case authenticate so password k1 of
                 (Inl e, k2) \<Rightarrow> (Inl e, k2)
               | (Inr _, k2) \<Rightarrow> exchange so v k2) of
           (r, k3) \<Rightarrow> (r, so_close so k3)))"

definition command_result :: "string \<Rightarrow> string \<Rightarrow> frame \<Rightarrow> json res" where
  "command_result request_id method response =
     (if dict_get response ''id'' \<noteq> JStr request_id
        then Inl (StreamProtocolError ''CMUX command response id mismatch'')
      else if dict_get response ''ok'' \<noteq> JBool True
        then Inl (StreamProtocolError (''CMUX command failed: '' @ method))
      else Inr (dict_get response ''result''))"

definition socket_call ::
  "'k sockets \<Rightarrow> string \<Rightarrow> frame \<Rightarrow> socket_client \<times> 'k \<Rightarrow> json res \<times> socket_client \<times> 'k" where
  "socket_call so method params st =
     (case st of (c, k) \<Rightarrow>
        let request_id = ''yatagarasu-command-'' @ nat_text (uc_next_request c);
            c' = c\<lparr>uc_next_request := Suc (uc_next_request c)\<rparr>
        in case round_trip so (uc_password c) (request request_id method params) k of
             (Inl e, k') \<Rightarrow> (Inl e, c', k')
           | (Inr response, k') \<Rightarrow> (command_result request_id method response, c', k'))"

text \<open>The stream connection stays open when the request was sent, and is closed when anything failed.\<close>

definition stream_params :: "int option \<Rightarrow> frame" where
  "stream_params after_seq =
     (''include_heartbeats'', JBool True) # (case after_seq of None \<Rightarrow> [] | Some n \<Rightarrow> [(''after_seq'', JInt n)])"

definition open_stream :: "'k sockets \<Rightarrow> string option \<Rightarrow> int option \<Rightarrow> 'k \<Rightarrow> unit res \<times> 'k" where
  "open_stream so password after_seq k =
     (case connect_socket so k of
        (Inl e, k1) \<Rightarrow> (Inl e, k1)
      | (Inr _, k1) \<Rightarrow>
        (case (case authenticate so password k1 of
                 (Inl e, k2) \<Rightarrow> (Inl e, k2)
               | (Inr _, k2) \<Rightarrow>
                   write_json so (request ''yatagarasu-events'' ''events.stream'' (stream_params after_seq)) k2) of
           (Inl e, k3) \<Rightarrow> (Inl e, so_close so k3)
         | (Inr _, k3) \<Rightarrow> (Inr (), k3)))"

definition snapshot_result :: "string \<Rightarrow> frame \<Rightarrow> SnapshotBaseline res" where
  "snapshot_result method response =
     (if dict_get response ''ok'' \<noteq> JBool True
        then Inl (StreamProtocolError (''snapshot RPC failed: '' @ method))
      else Inr \<lparr>bl_method = method, bl_snapshot_json = dumps (dict_get response ''result'')\<rparr>)"

fun snapshots_from ::
  "'k sockets \<Rightarrow> string option \<Rightarrow> nat \<Rightarrow> string list \<Rightarrow> 'k \<Rightarrow> SnapshotBaseline list res \<times> 'k" where
  "snapshots_from so password index [] k = (Inr [], k)"
| "snapshots_from so password index (method # methods) k =
     (case round_trip so password (request (''yatagarasu-snapshot-'' @ nat_text index) method []) k of
        (Inl e, k') \<Rightarrow> (Inl e, k')
      | (Inr response, k') \<Rightarrow>
        (case snapshot_result method response of
           Inl e \<Rightarrow> (Inl e, k')
         | Inr b \<Rightarrow>
           (case snapshots_from so password (Suc index) methods k' of
              (Inl e, k'') \<Rightarrow> (Inl e, k'')
            | (Inr bs, k'') \<Rightarrow> (Inr (b # bs), k''))))"

definition snapshots :: "'k sockets \<Rightarrow> string option \<Rightarrow> 'k \<Rightarrow> SnapshotBaseline list res \<times> 'k" where
  "snapshots so password k = snapshots_from so password 0 SNAPSHOT_METHODS k"

section \<open>The transport\<close>

definition send_text :: "'k sockets \<Rightarrow> string \<Rightarrow> string \<Rightarrow> socket_client \<times> 'k \<Rightarrow> unit res \<times> socket_client \<times> 'k" where
  "send_text so surface body st =
     (case socket_call so ''surface.send_text'' [(''surface_id'', JStr surface), (''text'', JStr body)] st of
        (r, st') \<Rightarrow> (map_sum id (\<lambda>_. ()) r, st'))"

definition send_key :: "'k sockets \<Rightarrow> string \<Rightarrow> string \<Rightarrow> socket_client \<times> 'k \<Rightarrow> unit res \<times> socket_client \<times> 'k" where
  "send_key so surface key st =
     (case socket_call so ''surface.send_key'' [(''surface_id'', JStr surface), (''key'', JStr key)] st of
        (r, st') \<Rightarrow> (map_sum id (\<lambda>_. ()) r, st'))"

section \<open>The client of the resident\<close>

text \<open>The resident's view of connections that deliver bytes.\<close>

definition byte_client :: "(nat \<Rightarrow> int option \<Rightarrow> reader res) \<Rightarrow> (nat \<Rightarrow> nat \<Rightarrow> SnapshotBaseline list res) \<Rightarrow> stream_client" where
  "byte_client opened snaps =
     \<lparr>cl_open_stream = (\<lambda>n after_seq. map_sum id frames_of (opened n after_seq)), cl_snapshots = snaps\<rparr>"

section \<open>Framing\<close>

lemma canon_False: "canon False v = v"
  by (induction v rule: wf_json.induct) (auto simp: Let_def list_all_iff intro!: map_idI)

lemma split_line_full:
  "10 \<notin> set l \<Longrightarrow> length l < n \<Longrightarrow> split_line n (l @ 10 # rest) = (l @ [10], rest)"
proof (induction l arbitrary: n)
  case Nil
  then show ?case by (cases n) simp_all
next
  case (Cons b l)
  then show ?case by (cases n) auto
qed

lemma printable_no_newline: "list_all printable s \<Longrightarrow> (10 :: byte) \<notin> set (utf8 s)"
proof (induction s)
  case (Cons c s)
  have "utf8_char c = [of_nat (of_char c)]" "(of_nat (of_char c) :: byte) \<noteq> 10"
    using Cons.prems byte_eq_iff[of "of_char c" 10] by (auto simp: utf8_char_def printable_def)
  with Cons show ?case by (simp add: utf8_Cons)
qed simp

lemma readline_json_line:
  assumes "length (json_line v) \<le> n"
  shows "readline n \<lparr>rd_bytes = json_line v @ rest, rd_failure = x\<rparr> = (Inr (json_line v), \<lparr>rd_bytes = rest, rd_failure = x\<rparr>)"
proof -
  have "split_line n (utf8 (dumps_compact v) @ 10 # rest) = (utf8 (dumps_compact v) @ [10], rest)"
    using assms printable_no_newline[OF printable_dumps_compact] by (intro split_line_full) (simp_all add: json_line_def)
  then show ?thesis by (simp add: readline_def json_line_def ends_line_def)
qed

lemma parse_json_line:
  assumes "wf_json (JObj f)" "length (json_line (JObj f)) \<le> MAX_FRAME_BYTES + 1"
  shows "parse_frame (json_line (JObj f)) = Inr (Some f)"
proof -
  have "loads_bytes (json_line (JObj f)) = Inr (JObj f)"
    unfolding json_line_def using loads_bytes_line[OF assms(1)] by (simp only: canon_False)
  with assms(2) show ?thesis by (auto simp: parse_frame_def json_line_def ends_line_def)
qed

lemma split_line_Nil [simp]: "split_line n [] = ([], [])"
  by (cases n) simp_all

lemma parse_response_line:
  assumes "wf_json (JObj f)" "length (json_line (JObj f)) \<le> MAX_COMMAND_FRAME_BYTES + 1"
  shows "parse_response (json_line (JObj f)) = Inr f"
proof -
  have "loads_bytes (json_line (JObj f)) = Inr (JObj f)"
    unfolding json_line_def using loads_bytes_line[OF assms(1)] by (simp only: canon_False)
  with assms(2) show ?thesis by (auto simp: parse_response_def json_line_def ends_line_def)
qed

lemma frames_of_empty: "frames_of \<lparr>rd_bytes = [], rd_failure = x\<rparr> = ([], x)"
  by (subst frames_of.simps)
    (simp add: read_frame_def readline_def ends_line_def parse_frame_def split: option.split)

lemma frames_of_lines:
  assumes "\<And>f. f \<in> set fs \<Longrightarrow> wf_json (JObj f) \<and> length (json_line (JObj f)) \<le> MAX_FRAME_BYTES + 1"
  shows "frames_of \<lparr>rd_bytes = concat (map (\<lambda>f. json_line (JObj f)) fs), rd_failure = x\<rparr> = (fs, x)"
  using assms
proof (induction fs)
  case Nil
  then show ?case by (simp add: frames_of_empty)
next
  case (Cons f fs)
  have f: "wf_json (JObj f)" "length (json_line (JObj f)) \<le> MAX_FRAME_BYTES + 1" using Cons.prems by auto
  have "read_frame \<lparr>rd_bytes = json_line (JObj f) @ concat (map (\<lambda>f. json_line (JObj f)) fs), rd_failure = x\<rparr>
      = (Inr (Some f), \<lparr>rd_bytes = concat (map (\<lambda>f. json_line (JObj f)) fs), rd_failure = x\<rparr>)"
    using readline_json_line[of "JObj f" "MAX_FRAME_BYTES + 2"] parse_json_line[OF f] f(2) by (simp add: read_frame_def)
  with Cons show ?case by (subst frames_of.simps) simp
qed

section \<open>Connections\<close>

text \<open>How the number of open connections follows the calls.\<close>

definition counts_open :: "'k sockets \<Rightarrow> ('k \<Rightarrow> nat) \<Rightarrow> bool" where
  "counts_open so opens \<longleftrightarrow>
     (\<forall>k e k'. so_socket so k = (Inl e, k') \<longrightarrow> opens k' = opens k)
     \<and> (\<forall>k u k'. so_socket so k = (Inr u, k') \<longrightarrow> opens k' = Suc (opens k))
     \<and> (\<forall>k r k'. so_connect so k = (r, k') \<longrightarrow> opens k' = opens k)
     \<and> (\<forall>bs k r k'. so_send so bs k = (r, k') \<longrightarrow> opens k' = opens k)
     \<and> (\<forall>n k r k'. so_readline so n k = (r, k') \<longrightarrow> opens k' = opens k)
     \<and> (\<forall>k. opens (so_close so k) = opens k - 1)"

lemma counts_openD:
  assumes "counts_open so opens"
  shows "so_socket so k = (Inl e, k') \<Longrightarrow> opens k' = opens k" "so_socket so k = (Inr u, k') \<Longrightarrow> opens k' = Suc (opens k)"
    "so_send so bs k = (r, k') \<Longrightarrow> opens k' = opens k" "so_readline so n k = (l, k') \<Longrightarrow> opens k' = opens k"
    "opens (so_close so k) = opens k - 1" "so_connect so k = (r, k') \<Longrightarrow> opens k' = opens k"
  using assms unfolding counts_open_def by blast+

lemma connect_socket_open:
  assumes "counts_open so opens" "connect_socket so k = (r, k')"
  shows "opens k' = opens k + of_bool (\<not> isl r)"
  using assms(2) counts_openD(1,2)[OF assms(1), of k] counts_openD(5,6)[OF assms(1)]
  by (fastforce simp: connect_socket_def split: prod.splits sum.splits)

lemma read_json_open: "counts_open so opens \<Longrightarrow> read_json so k = (r, k') \<Longrightarrow> opens k' = opens k"
  by (auto simp: read_json_def dest: counts_openD(4) split: prod.splits sum.splits)

lemma exchange_open: "counts_open so opens \<Longrightarrow> exchange so v k = (r, k') \<Longrightarrow> opens k' = opens k"
  unfolding exchange_def write_json_def
  using counts_openD(3)[of so opens "json_line v" k] read_json_open[of so opens _ r k']
  by (fastforce split: prod.splits sum.splits)

lemma authenticate_open: "counts_open so opens \<Longrightarrow> authenticate so p k = (r, k') \<Longrightarrow> opens k' = opens k"
  by (auto simp: authenticate_def dest: exchange_open split: option.splits prod.splits sum.splits if_splits)

lemma round_trip_open:
  assumes so: "counts_open so opens" and run: "round_trip so p v k = (r, k')"
  shows "opens k' = opens k"
proof -
  obtain c k1 where c: "connect_socket so k = (c, k1)" by fastforce
  show ?thesis
  proof (cases c)
    case (Inl e)
    with run c connect_socket_open[OF so c] show ?thesis by (simp add: round_trip_def)
  next
    case (Inr u)
    obtain a k2 where a: "authenticate so p k1 = (a, k2)" by fastforce
    obtain q k3 where q: "(case a of Inl e \<Rightarrow> (Inl e, k2) | Inr _ \<Rightarrow> exchange so v k2) = (q, k3)" by fastforce
    have "k' = so_close so k3" using run c Inr a q by (cases a) (auto simp: round_trip_def split: prod.splits)
    moreover have "opens k3 = opens k2" using q exchange_open[OF so] by (cases a) auto
    ultimately show ?thesis
      using connect_socket_open[OF so c] counts_openD(5)[OF so, of k3] authenticate_open[OF so a] c Inr by simp
  qed
qed

lemma open_stream_open:
  assumes so: "counts_open so opens" and run: "open_stream so p n k = (r, k')"
  shows "opens k' = opens k + of_bool (\<not> isl r)"
proof -
  obtain c k1 where c: "connect_socket so k = (c, k1)" by fastforce
  show ?thesis
  proof (cases c)
    case (Inl e)
    with run c connect_socket_open[OF so c] show ?thesis by (auto simp: open_stream_def)
  next
    case (Inr u)
    obtain a k2 where a: "authenticate so p k1 = (a, k2)" by fastforce
    obtain q k3 where q: "(case a of Inl e \<Rightarrow> (Inl e, k2)
        | Inr _ \<Rightarrow> write_json so (request ''yatagarasu-events'' ''events.stream'' (stream_params n)) k2) = (q, k3)" by fastforce
    have "(r, k') = (case q of Inl e \<Rightarrow> (Inl e, so_close so k3) | Inr _ \<Rightarrow> (Inr (), k3))"
      using run c Inr a q by (cases a) (auto simp: open_stream_def split: prod.splits)
    moreover have "opens k3 = opens k2" using q counts_openD(3)[OF so] by (cases a) (auto simp: write_json_def)
    ultimately show ?thesis
      using connect_socket_open[OF so c] counts_openD(5)[OF so, of k3] authenticate_open[OF so a] c Inr
      by (cases q) auto
  qed
qed

lemma snapshots_from_open:
  "counts_open so opens \<Longrightarrow> snapshots_from so p i ms k = (r, k') \<Longrightarrow> opens k' = opens k"
proof (induction ms arbitrary: i k r)
  case (Cons m ms)
  obtain q k1 where q: "round_trip so p (request (''yatagarasu-snapshot-'' @ nat_text i) m []) k = (q, k1)" by fastforce
  have "opens k1 = opens k" using round_trip_open[OF Cons.prems(1) q] .
  with Cons q show ?case by (auto split: sum.splits prod.splits)
qed simp

text \<open>How the lines that were read follow the calls.\<close>

definition logs_reads :: "'k sockets \<Rightarrow> ('k \<Rightarrow> byte list list) \<Rightarrow> bool" where
  "logs_reads so got \<longleftrightarrow>
     (\<forall>k r k'. so_socket so k = (r, k') \<longrightarrow> got k' = got k)
     \<and> (\<forall>k r k'. so_connect so k = (r, k') \<longrightarrow> got k' = got k)
     \<and> (\<forall>bs k r k'. so_send so bs k = (r, k') \<longrightarrow> got k' = got k)
     \<and> (\<forall>n k e k'. so_readline so n k = (Inl e, k') \<longrightarrow> got k' = got k)
     \<and> (\<forall>n k l k'. so_readline so n k = (Inr l, k') \<longrightarrow> got k' = got k @ [l])
     \<and> (\<forall>k. got (so_close so k) = got k)"

lemma logs_readsD:
  assumes "logs_reads so got"
  shows "so_socket so k = (r, k') \<Longrightarrow> got k' = got k" "so_connect so k = (r, k') \<Longrightarrow> got k' = got k"
    "so_send so bs k = (r, k') \<Longrightarrow> got k' = got k" "so_readline so n k = (Inr l, k') \<Longrightarrow> got k' = got k @ [l]"
    "got (so_close so k) = got k"
  using assms unfolding logs_reads_def by blast+

lemma exchange_reads:
  assumes so: "logs_reads so got" and run: "exchange so v k = (Inr response, k')"
  shows "\<exists>raw. got k' = got k @ [raw] \<and> parse_response raw = Inr response"
proof -
  from run obtain u k1 raw where "so_send so (json_line v) k = (Inr u, k1)"
    "so_readline so (MAX_COMMAND_FRAME_BYTES + 2) k1 = (Inr raw, k')" "parse_response raw = Inr response"
    by (auto simp: exchange_def write_json_def read_json_def split: prod.splits sum.splits)
  with logs_readsD(3,4)[OF so] show ?thesis by fastforce
qed

lemma authenticate_reads:
  assumes so: "logs_reads so got" and run: "authenticate so p k = (Inr u, k')"
  shows "\<exists>ls. got k' = got k @ ls \<and> length ls = of_bool (p \<noteq> None)"
proof (cases p)
  case (Some q)
  with run obtain response where
    "exchange so (request ''yatagarasu-auth'' ''auth.login'' [(''password'', JStr q)]) k = (Inr response, k')"
    by (auto simp: authenticate_def split: prod.splits sum.splits if_splits)
  from exchange_reads[OF so this] Some show ?thesis by auto
qed (use run in \<open>simp add: authenticate_def\<close>)

lemma round_trip_reads:
  assumes so: "logs_reads so got" and run: "round_trip so p v k = (Inr response, k')"
  shows "\<exists>ls raw. got k' = got k @ ls @ [raw] \<and> length ls = of_bool (p \<noteq> None) \<and> parse_response raw = Inr response"
proof -
  from run obtain u k1 w k2 k3 where c: "connect_socket so k = (Inr u, k1)" and a: "authenticate so p k1 = (Inr w, k2)"
    and x: "exchange so v k2 = (Inr response, k3)" and k': "k' = so_close so k3"
    by (auto simp: round_trip_def split: prod.splits sum.splits)
  have "got k1 = got k"
    using c logs_readsD(1,2)[OF so] by (fastforce simp: connect_socket_def split: prod.splits sum.splits)
  with authenticate_reads[OF so a] exchange_reads[OF so x] logs_readsD(5)[OF so] k' show ?thesis by auto
qed

section \<open>Properties\<close>

text \<open>C36: Framing. What a peer sends as one compact JSON object per line, no line above the limit, is read back frame by
  frame, exactly and in order, and the sequence of frames ends as the connection does.\<close>

theorem frames_read_back:
  assumes "\<forall>f \<in> set fs. wf_json (JObj f) \<and> length (json_line (JObj f)) \<le> MAX_FRAME_BYTES + 1"
  shows "frames_of \<lparr>rd_bytes = concat (map (\<lambda>f. json_line (JObj f)) fs), rd_failure = x\<rparr> = (fs, x)"
  using frames_of_lines assms by blast

text \<open>Witness of C36.\<close>

theorem frames_read_back_witness:
  "frames_of \<lparr>rd_bytes = json_line (JObj example_frame) @ json_line (JObj example_frame), rd_failure = None\<rparr>
     = ([example_frame, example_frame], None)"
proof -
  have "wf_json (JObj example_frame) \<and> length (json_line (JObj example_frame)) \<le> MAX_FRAME_BYTES + 1" by code_simp
  with frames_read_back[of "[example_frame, example_frame]" None] show ?thesis by simp
qed

text \<open>C37: No connection is leaked. A command, a failed attempt to open a stream and a series of snapshots leave as many
  sockets open as before, whatever goes wrong, a refused connection included; an opened stream leaves exactly one
  more. A command that returns has read one line, after the response to the login if there is a password, and
  that line is a response with the command's own fresh request id that reports success and holds the result.\<close>

theorem connections_closed:
  assumes "counts_open so opens" "logs_reads so got"
  shows "(case socket_call so m p (c, k) of (r, c', k') \<Rightarrow>
      opens k' = opens k \<and> uc_next_request c' = Suc (uc_next_request c)
      \<and> (\<forall>v. r = Inr v \<longrightarrow> (\<exists>ls raw response. got k' = got k @ ls @ [raw]
            \<and> length ls = of_bool (uc_password c \<noteq> None) \<and> parse_response raw = Inr response
            \<and> dict_get response ''id'' = JStr (''yatagarasu-command-'' @ nat_text (uc_next_request c))
            \<and> dict_get response ''ok'' = JBool True \<and> v = dict_get response ''result'')))
    \<and> (case open_stream so password n k of (r, k') \<Rightarrow> opens k' = opens k + of_bool (\<not> isl r))
    \<and> opens (snd (snapshots so password k)) = opens k"
proof -
  let ?id = "''yatagarasu-command-'' @ nat_text (uc_next_request c)"
  obtain q k' where q: "round_trip so (uc_password c) (request ?id m p) k = (q, k')" by fastforce
  have call: "socket_call so m p (c, k) = (case q of Inl e \<Rightarrow> Inl e | Inr response \<Rightarrow> command_result ?id m response,
      c\<lparr>uc_next_request := Suc (uc_next_request c)\<rparr>, k')"
    unfolding socket_call_def Let_def prod.case q by (cases q) simp_all
  have "\<exists>ls raw response. got k' = got k @ ls @ [raw] \<and> length ls = of_bool (uc_password c \<noteq> None)
      \<and> parse_response raw = Inr response \<and> dict_get response ''id'' = JStr ?id
      \<and> dict_get response ''ok'' = JBool True \<and> v = dict_get response ''result''"
    if "(case q of Inl e \<Rightarrow> Inl e | Inr response \<Rightarrow> command_result ?id m response) = Inr v" for v
  proof -
    from that obtain response where r: "q = Inr response" "command_result ?id m response = Inr v" by (cases q) auto
    from r(2) have "dict_get response ''id'' = JStr ?id" "dict_get response ''ok'' = JBool True"
      "v = dict_get response ''result''" by (auto simp: command_result_def split: if_splits)
    with round_trip_reads[OF assms(2) q[unfolded r(1)]] show ?thesis by blast
  qed
  moreover have "opens (snd (snapshots so password k)) = opens k"
    unfolding snapshots_def using snapshots_from_open[OF assms(1)] by (metis prod.collapse)
  ultimately show ?thesis
    using round_trip_open[OF assms(1) q] open_stream_open[OF assms(1), of password n k] by (auto simp: call split: prod.split)
qed

text \<open>Witness of C37: a peer that answers every line with one response; the state is the sockets that are open and the
  lines that were read.\<close>

definition example_response :: frame where
  "example_response = [(''id'', JStr ''yatagarasu-command-1''), (''ok'', JBool True), (''result'', JInt 5)]"

definition example_sockets :: "(nat \<times> byte list list) sockets" where
  "example_sockets =
     \<lparr>so_socket = (\<lambda>(n, ls). (Inr (), (Suc n, ls))), so_connect = (\<lambda>k. (Inr (), k)), so_send = (\<lambda>_ k. (Inr (), k)),
      so_readline = (\<lambda>_ (n, ls). (Inr (json_line (JObj example_response)), (n, ls @ [json_line (JObj example_response)]))),
      so_close = (\<lambda>(n, ls). (n - 1, ls))\<rparr>"

theorem connections_closed_witness:
  "case socket_call example_sockets ''ping'' [] (new_socket_client None, (0, [])) of
     (r, c, n, ls) \<Rightarrow> r = Inr (JInt 5) \<and> n = 0 \<and> length ls = 1"
proof -
  let ?call = "socket_call example_sockets ''ping'' [] (new_socket_client None, (0, []))"
  have so: "counts_open example_sockets fst" "logs_reads example_sockets snd"
    by (auto simp: counts_open_def logs_reads_def example_sockets_def)
  have "parse_response (json_line (JObj example_response)) = Inr example_response"
  proof (rule parse_response_line)
    have "length (json_line (JObj example_response)) \<le> 100" by code_simp
    then show "length (json_line (JObj example_response)) \<le> MAX_COMMAND_FRAME_BYTES + 1"
      by (simp add: MAX_COMMAND_FRAME_BYTES_def)
  qed code_simp
  moreover have "nat_text 1 = ''1''" by code_simp
  ultimately have ok: "fst ?call = Inr (JInt 5)"
    by (simp add: socket_call_def round_trip_def connect_socket_def authenticate_def exchange_def write_json_def read_json_def
        example_sockets_def new_socket_client_def command_result_def example_response_def dict_get_def Let_def)
  obtain r c n ls where call: "?call = (r, c, n, ls)" by (metis prod_cases4)
  from connections_closed[OF so, where m = "''ping''" and p = "[]" and c = "new_socket_client None" and k = "(0, [])"
      and password = None and n = None] ok show ?thesis
    by (fastforce simp: call new_socket_client_def)
qed

end
