(* ===== verification/Cmux_Runtime.thy ===== *)
theory Cmux_Runtime
  imports Cmux_Resident_Facts Cmux_Socket
begin

text \<open>
  \<open>plugins/cmux/yatagarasu_cmux/runtime.py\<close> and \<open>supervisor.py\<close>: what the resident is started with, the
  persistent marker key, and one supervised pass; with them the default locations of the journal and the outbox.
  The environment, the file system and the user are a parameter, and the state of the file system is threaded through
  the calls that change it; a path is its text, with \<open>Path.expanduser\<close> a parameter too. A text that is only printed is a
  list of code points.
\<close>

unbundle bit_operations_syntax

section \<open>Discovery\<close>

text \<open>\<open>ho_mkdir\<close> is \<open>Path.mkdir(parents=True, exist_ok=True)\<close>; \<open>'f\<close> is the state of the file system.\<close>

record 'f host =
  ho_environ :: "string \<Rightarrow> string option"
  ho_home :: string
  ho_expanduser :: "string \<Rightarrow> string"
  ho_exists :: "string \<Rightarrow> 'f \<Rightarrow> bool"
  ho_mode :: "string \<Rightarrow> 'f \<Rightarrow> 32 word"
  ho_owner :: "string \<Rightarrow> 'f \<Rightarrow> int"
  ho_uid :: int
  ho_nodename :: string
  ho_mkdir :: "string \<Rightarrow> 'f \<Rightarrow> unit res \<times> 'f"

definition join_path :: "string \<Rightarrow> string \<Rightarrow> string" where
  "join_path a b = (if a = ''/'' then a @ b else a @ ''/'' @ b)"

text \<open>Python's \<open>or\<close> over optional text.\<close>

definition or_text :: "string option \<Rightarrow> string option \<Rightarrow> string option" where
  "or_text a b = (if truthy a then a else b)"

definition state_home :: "'f host \<Rightarrow> string" where
  "state_home h =
     (if truthy (ho_environ h ''XDG_STATE_HOME'') then ho_expanduser h (the (ho_environ h ''XDG_STATE_HOME''))
      else join_path (ho_home h) ''.local/state'')"

definition discover_socket_path :: "'f host \<Rightarrow> string option \<Rightarrow> string" where
  "discover_socket_path h explicit =
     (if truthy explicit then ho_expanduser h (the explicit)
      else if truthy (ho_environ h ''CMUX_SOCKET_PATH'') then ho_expanduser h (the (ho_environ h ''CMUX_SOCKET_PATH''))
      else join_path (state_home h) ''cmux/cmux.sock'')"

text \<open>\<open>stat.S_ISSOCK\<close>, and the permission bits of group and others.\<close>

definition is_socket :: "32 word \<Rightarrow> bool" where
  "is_socket mode = (mode AND 0xF000 = 0xC000)"

definition beyond_owner :: "32 word \<Rightarrow> bool" where
  "beyond_owner mode = (mode AND 0x3F \<noteq> 0)"

definition verify_socket :: "'f host \<Rightarrow> string \<Rightarrow> 'f \<Rightarrow> string res" where
  "verify_socket h path fs =
     (if \<not> ho_exists h path fs then Inl (RuntimeDiscoveryError ''cmux socket not found'')
      else if \<not> is_socket (ho_mode h path fs) then Inl (RuntimeDiscoveryError ''path exists but is not a socket'')
      else if beyond_owner (ho_mode h path fs) then Inl (RuntimeDiscoveryError ''socket is accessible beyond its owner'')
      else if ho_owner h path fs \<noteq> ho_uid h then Inl (RuntimeDiscoveryError ''socket is owned by another user'')
      else Inr path)"

record RuntimeConfig =
  rt_socket_path :: string
  rt_state_dir :: string
  rt_password :: "string option"
  rt_source_instance_id :: string

definition journal_path :: "RuntimeConfig \<Rightarrow> string" where
  "journal_path c = join_path (rt_state_dir c) ''cmux-injection-journal.sqlite''"

definition outbox_path :: "RuntimeConfig \<Rightarrow> string" where
  "outbox_path c = join_path (rt_state_dir c) ''cmux-event-outbox.sqlite''"

text \<open>The state directory is made when the socket was found usable, before anything else can fail.\<close>

definition resolved_state_dir :: "'f host \<Rightarrow> string option \<Rightarrow> string" where
  "resolved_state_dir h state_dir =
     ho_expanduser h (the (or_text state_dir (or_text (ho_environ h ''YATAGARASU_STATE_DIR'')
       (Some (join_path (state_home h) ''yatagarasu'')))))"

definition load ::
  "'f host \<Rightarrow> string option \<Rightarrow> string option \<Rightarrow> string option \<Rightarrow> 'f \<Rightarrow> RuntimeConfig res \<times> 'f" where
  "load h socket_path state_dir source_instance_id fs =
     (case verify_socket h (discover_socket_path h socket_path) fs of
        Inl e \<Rightarrow> (Inl e, fs)
      | Inr resolved_socket \<Rightarrow>
        (let resolved_state = resolved_state_dir h state_dir
         in case ho_mkdir h resolved_state fs of
              (Inl e, fs') \<Rightarrow> (Inl e, fs')
            | (Inr _, fs') \<Rightarrow>
              (let instance_id = the (or_text source_instance_id
                     (or_text (ho_environ h ''YATAGARASU_SOURCE_INSTANCE_ID'') (Some (ho_nodename h))))
               in if instance_id = []
                    then (Inl (RuntimeDiscoveryError ''source_instance_id could not be determined''), fs')
                  else (Inr \<lparr>rt_socket_path = resolved_socket, rt_state_dir = resolved_state,
                             rt_password = or_text (ho_environ h ''CMUX_SOCKET_PASSWORD'') None,
                             rt_source_instance_id = instance_id\<rparr>, fs'))))"

text \<open>The summary for the operator; U+2014 is the dash in its last line.\<close>

definition code_points :: "string \<Rightarrow> nat list" where
  "code_points s = map of_char s"

definition describe :: "RuntimeConfig \<Rightarrow> nat list" where
  "describe c =
     code_points (''socket='' @ rt_socket_path c @ [CHR 0x0A] @ ''state='' @ rt_state_dir c @ [CHR 0x0A]
       @ ''journal='' @ journal_path c @ [CHR 0x0A] @ ''outbox='' @ outbox_path c @ [CHR 0x0A]
       @ ''source_instance_id='' @ rt_source_instance_id c @ [CHR 0x0A] @ ''password='')
     @ (if truthy (rt_password c) then code_points ''<set>''
        else code_points ''<none '' @ [0x2014] @ code_points '' using socket mode 0600>'')"

text \<open>\<open>default_path\<close> of the journal and \<open>default_event_outbox_path\<close>.\<close>

definition default_path :: "'f host \<Rightarrow> string" where
  "default_path h =
     join_path (join_path (the (or_text (ho_environ h ''YATAGARASU_STATE_DIR'')
                  (or_text (ho_environ h ''XDG_STATE_HOME'') (Some (join_path (ho_home h) ''.local/state'')))))
       ''yatagarasu'') ''cmux-injection-journal.sqlite''"

definition default_event_outbox_path :: "'f host \<Rightarrow> string" where
  "default_event_outbox_path h =
     (if truthy (ho_environ h ''YATAGARASU_STATE_DIR'')
        then join_path (the (ho_environ h ''YATAGARASU_STATE_DIR'')) ''cmux-event-outbox.sqlite''
      else join_path (ho_home h) ''.local/state/yatagarasu/cmux-event-outbox.sqlite'')"

section \<open>The marker key\<close>

text \<open>The key file: absent, or its mode and content.\<close>

type_synonym key_file = "(32 word \<times> byte list) option"

definition MARKER_KEY_BYTES :: nat where
  "MARKER_KEY_BYTES = 32"

definition marker_key_path :: "RuntimeConfig \<Rightarrow> string" where
  "marker_key_path c = join_path (rt_state_dir c) ''marker-key''"

text \<open>\<open>token\<close> is what \<open>secrets.token_bytes\<close> would give. A new file is a regular one with mode 0600.\<close>

definition load_or_create_marker_key :: "byte list \<Rightarrow> key_file \<Rightarrow> byte list res \<times> key_file" where
  "load_or_create_marker_key token file =
     (case file of
        Some (mode, key) \<Rightarrow>
          if beyond_owner mode then (Inl (RuntimeDiscoveryError ''marker key is readable beyond its owner''), file)
          else if length key < MARKER_KEY_BYTES
            then (Inl (RuntimeDiscoveryError ''refusing to sign with a short key''), file)
          else (Inr key, file)
      | None \<Rightarrow> (Inr token, Some (0x8180, token)))"

section \<open>Supervision\<close>

text \<open>\<open>Path.parent\<close>, and \<open>EventOutbox.__init__\<close>: the directory is made, then the file is opened. What opening a file yields,
  the tables it holds or an exception, is a parameter; what is written to them later is in the outbox.\<close>

definition parent_path :: "string \<Rightarrow> string" where
  "parent_path p =
     (case dropWhile (\<lambda>c. c \<noteq> CHR ''/'') (rev p) of
        [] \<Rightarrow> ''.''
      | [c] \<Rightarrow> ''/''
      | c # cs \<Rightarrow> rev cs)"

definition new_outbox ::
  "'f host \<Rightarrow> (string \<Rightarrow> 'f \<Rightarrow> event_outbox res \<times> 'f) \<Rightarrow> string \<Rightarrow> 'f \<Rightarrow> event_outbox res \<times> 'f" where
  "new_outbox h files path fs =
     (case ho_mkdir h (parent_path path) fs of (Inl e, fs') \<Rightarrow> (Inl e, fs') | (Inr _, fs') \<Rightarrow> files path fs')"

text \<open>\<open>EventStreamResident.__init__\<close>.\<close>

definition new_resident :: "string \<Rightarrow> string res" where
  "new_resident source_instance_id =
     (if source_instance_id = [] then Inl (ValueError ''source instance ID must not be empty'')
      else new_projector source_instance_id)"

record 's Supervisor =
  sv_config :: RuntimeConfig
  sv_receipt_producer :: "'s receipt_env option"

definition with_receipts ::
  "RuntimeConfig \<Rightarrow> (Receipt \<Rightarrow> 's \<Rightarrow> py_exc option \<times> 's) \<Rightarrow> string
    \<Rightarrow> (string \<Rightarrow> (Delivery \<times> DeliveryMarker) option) \<Rightarrow> 's Supervisor" where
  "with_receipts config core_client provider_id delivery_lookup =
     \<lparr>sv_config = config,
      sv_receipt_producer = Some \<lparr>re_core_client = core_client, re_provider_id = provider_id,
                                   re_delivery_lookup = delivery_lookup\<rparr>\<rparr>"

text \<open>\<open>build\<close> opens the outbox first; the number counts the outbox connections that are open. One supervised pass closes
  its outbox on every path after \<open>build\<close>. The result has what the outbox holds then, if it was opened.\<close>

definition build ::
  "'f host \<Rightarrow> (string \<Rightarrow> 'f \<Rightarrow> event_outbox res \<times> 'f) \<Rightarrow> 's Supervisor \<Rightarrow> nat \<Rightarrow> 'f
    \<Rightarrow> (string \<times> event_outbox) res \<times> nat \<times> 'f" where
  "build h files sv n fs =
     (case new_outbox h files (outbox_path (sv_config sv)) fs of
        (Inl e, fs') \<Rightarrow> (Inl e, n, fs')
      | (Inr ob, fs') \<Rightarrow>
        (case new_resident (rt_source_instance_id (sv_config sv)) of
           Inl e \<Rightarrow> (Inl e, Suc n, fs')
         | Inr source \<Rightarrow> (Inr (source, ob), Suc n, fs')))"

definition run_once ::
  "'f host \<Rightarrow> (string \<Rightarrow> 'f \<Rightarrow> event_outbox res \<times> 'f) \<Rightarrow> stream_client \<Rightarrow> 's Supervisor \<Rightarrow> int \<Rightarrow> nat \<Rightarrow> producer \<Rightarrow> 's \<Rightarrow> 'f
    \<Rightarrow> ResidentRun res \<times> event_outbox option \<times> nat \<times> producer \<times> 's \<times> 'f" where
  "run_once h files cl sv max_connections n pr s fs =
     (case build h files sv n fs of
        (Inl e, n', fs') \<Rightarrow> (Inl e, None, n', pr, s, fs')
      | (Inr (source, ob), n', fs') \<Rightarrow>
        (case run (sv_receipt_producer sv) cl source max_connections ob pr s of
           (r, ob', pr', s') \<Rightarrow> (r, Some ob', n' - 1, pr', s', fs')))"

section \<open>Properties\<close>

lemma dropWhile_rev_name:
  "CHR ''/'' \<notin> set f \<Longrightarrow> dropWhile (\<lambda>c. c \<noteq> CHR ''/'') (rev (d @ CHR ''/'' # f)) = CHR ''/'' # rev d"
  by (subst rev_append, simp, subst dropWhile_append2) auto

lemma parent_join_path:
  assumes "CHR ''/'' \<notin> set f" "d \<noteq> []"
  shows "parent_path (join_path d f) = d"
proof (cases "d = ''/''")
  case True
  with dropWhile_rev_name[OF assms(1), of "[]"] show ?thesis by (simp add: parent_path_def join_path_def)
next
  case False
  with dropWhile_rev_name[OF assms(1), of d] assms(2) show ?thesis
    by (auto simp: parent_path_def join_path_def split: list.splits)
qed

text \<open>What loading does to the file system: nothing when the socket is refused, else it makes the state directory.\<close>

lemma load_effect:
  "snd (load h socket_path state_dir source_id fs) =
     (if isl (verify_socket h (discover_socket_path h socket_path) fs) then fs
      else snd (ho_mkdir h (resolved_state_dir h state_dir) fs))"
  by (simp add: load_def Let_def split: sum.split prod.split)

lemma load_Inr:
  assumes "load h socket_path state_dir source_id fs = (Inr c, fs')"
  shows "verify_socket h (rt_socket_path c) fs = Inr (rt_socket_path c)" "rt_source_instance_id c \<noteq> []"
    "rt_state_dir c = resolved_state_dir h state_dir" "\<exists>u. ho_mkdir h (rt_state_dir c) fs = (Inr u, fs')"
  using assms by (auto simp: load_def verify_socket_def Let_def split: if_splits sum.splits prod.splits)

text \<open>A configuration that loads names a socket that exists, is a socket, is closed to everybody but its owner, and is
  owned by this process; its source instance is not empty, so a pass whose outbox opens runs the resident and leaves no
  outbox connection open. Nothing else than a
  discovery error or a failure to make the state directory stops the loading.\<close>

theorem loaded_config_usable:
  "case load h socket_path state_dir source_id fs of
     (Inr c, fs') \<Rightarrow> ho_exists h (rt_socket_path c) fs \<and> is_socket (ho_mode h (rt_socket_path c) fs)
       \<and> \<not> beyond_owner (ho_mode h (rt_socket_path c) fs) \<and> ho_owner h (rt_socket_path c) fs = ho_uid h
       \<and> run_once h files cl \<lparr>sv_config = c, sv_receipt_producer = env\<rparr> m n pr s fs2 =
           (case new_outbox h files (outbox_path c) fs2 of
              (Inl e, fs3) \<Rightarrow> (Inl e, None, n, pr, s, fs3)
            | (Inr ob, fs3) \<Rightarrow> (case run env cl (rt_source_instance_id c) m ob pr s of
                (r, ob', pr', s') \<Rightarrow> (r, Some ob', n, pr', s', fs3)))
   | (Inl e, fs') \<Rightarrow> (\<exists>msg. e = RuntimeDiscoveryError msg) \<or> ho_mkdir h (resolved_state_dir h state_dir) fs = (Inl e, fs')"
proof -
  obtain r fs' where run: "load h socket_path state_dir source_id fs = (r, fs')" by fastforce
  show ?thesis
  proof (cases r)
    case (Inl e)
    with run show ?thesis by (auto simp: load_def verify_socket_def Let_def split: if_splits sum.splits prod.splits)
  next
    case (Inr c)
    note c = load_Inr[OF run[unfolded Inr]]
    from c(2) have "new_resident (rt_source_instance_id c) = Inr (rt_source_instance_id c)"
      by (simp add: new_resident_def new_projector_def)
    with c(1) run Inr show ?thesis
      by (auto simp: run_once_def build_def verify_socket_def split: if_splits sum.splits prod.splits)
  qed
qed

text \<open>The directory of the outbox was made when the configuration was loaded, so only opening the file can fail. Making a
  directory that was just made does nothing, as \<open>exist_ok\<close> says.\<close>

lemma loaded_outbox_opens:
  assumes "load h socket_path state_dir source_id fs = (Inr c, fs')" "rt_state_dir c \<noteq> []"
    and "\<And>d fs u fs'. ho_mkdir h d fs = (Inr u, fs') \<Longrightarrow> ho_mkdir h d fs' = (Inr (), fs')"
  shows "new_outbox h files (outbox_path c) fs' = files (outbox_path c) fs'"
proof -
  from load_Inr(4)[OF assms(1)] assms(3) have "ho_mkdir h (rt_state_dir c) fs' = (Inr (), fs')" by blast
  with assms(2) show ?thesis by (simp add: new_outbox_def outbox_path_def parent_join_path)
qed

text \<open>With \<open>YATAGARASU_STATE_DIR\<close> set and no directory given, the outbox of a loaded configuration is the default
  one, but its journal is not: the default journal lies one directory deeper.\<close>

theorem journal_locations_differ:
  assumes "ho_environ h ''YATAGARASU_STATE_DIR'' = Some d" "d \<noteq> []" "ho_expanduser h d = d"
    and "load h socket_path None source_id fs = (Inr c, fs')"
  shows "outbox_path c = default_event_outbox_path h \<and> journal_path c \<noteq> default_path h"
proof -
  from assms(1-3) load_Inr(3)[OF assms(4)] have c: "rt_state_dir c = d" by (simp add: resolved_state_dir_def or_text_def)
  have "length (journal_path c) < length (default_path h)"
    using assms(1,2) c by (simp add: default_path_def journal_path_def or_text_def join_path_def)
  then have "journal_path c \<noteq> default_path h" by auto
  with assms(1,2) c show ?thesis by (simp add: default_event_outbox_path_def outbox_path_def)
qed

text \<open>The summary depends on the password only in whether there is one.\<close>

lemma describe_hides_password:
  "truthy (rt_password c) = truthy p \<Longrightarrow> describe (c\<lparr>rt_password := p\<rparr>) = describe c"
  by (simp add: describe_def journal_path_def outbox_path_def)

text \<open>The marker key is made once. The first start makes a key of 32 bytes that nobody else can read, and
  every later start, whatever random bytes it would draw, returns that key and leaves the file alone; a key that
  is ever returned has at least 32 bytes.\<close>

theorem marker_key_stable:
  assumes "length token = MARKER_KEY_BYTES" "load_or_create_marker_key token file = (Inr key, file')"
  shows "MARKER_KEY_BYTES \<le> length key \<and> (\<forall>token'. load_or_create_marker_key token' file' = (Inr key, file'))"
proof -
  have "\<not> beyond_owner 0x8180" by (simp add: beyond_owner_def)
  with assms show ?thesis by (auto simp: load_or_create_marker_key_def split: option.splits if_splits)
qed

text \<open>An instance.\<close>

theorem marker_key_stable_witness:
  "\<exists>file. load_or_create_marker_key (replicate 32 7) None = (Inr (replicate 32 7), file)
     \<and> load_or_create_marker_key [] file = (Inr (replicate 32 7), file)"
proof -
  have len: "length (replicate 32 (7 :: byte)) = MARKER_KEY_BYTES" by (simp add: MARKER_KEY_BYTES_def)
  have "load_or_create_marker_key (replicate 32 7) None = (Inr (replicate 32 7), Some (0x8180, replicate 32 7))"
    by (simp add: load_or_create_marker_key_def)
  with marker_key_stable[OF len this] show ?thesis by blast
qed

end
