(* ===== verification/Cmux_Main.thy ===== *)
theory Cmux_Main
  imports Cmux_Runtime "HOL-Library.Sublist"
begin

text \<open>
  \<open>plugins/cmux/yatagarasu_cmux/__main__.py\<close>: the three subcommands and their exit codes. The arguments are a
  namespace as the parser returns it; the parser itself is not modelled, apart from the defaults it declares. Sockets,
  clock, host and files are a parameter; a command changes the state of the sockets and that of the file system. A
  float is kept as its value in clock units and its text. Every line printed is part of the result, log lines are not.
\<close>

section \<open>Text of values\<close>

text \<open>\<open>repr\<close> of a text: double quotes when it has single quotes but no double ones, and escapes
  for what is not printable.\<close>

definition repr_char :: "char \<Rightarrow> char \<Rightarrow> string" where
  "repr_char quote c =
     (let n = of_char c :: nat
      in if c = quote \<or> n = 92 then [CHR 0x5C, c]
         else if n = 9 then [CHR 0x5C, CHR ''t'']
         else if n = 10 then [CHR 0x5C, CHR ''n'']
         else if n = 13 then [CHR 0x5C, CHR ''r'']
         else if n < 32 \<or> 127 \<le> n \<and> n \<le> 160 \<or> n = 173
           then [CHR 0x5C, CHR ''x'', hex_digit (n div 16), hex_digit (n mod 16)]
         else [c])"

definition repr_str :: "string \<Rightarrow> string" where
  "repr_str s =
     (let quote = (if CHR 0x27 \<in> set s \<and> CHR 0x22 \<notin> set s then CHR 0x22 else CHR 0x27)
      in [quote] @ concat (map (repr_char quote) s) @ [quote])"

fun comma_list :: "string list \<Rightarrow> string" where
  "comma_list [] = []"
| "comma_list [x] = x"
| "comma_list (x # y # xs) = x @ '', '' @ comma_list (y # xs)"

fun py_repr :: "json \<Rightarrow> string" where
  "py_repr JNull = ''None''"
| "py_repr (JBool b) = (if b then ''True'' else ''False'')"
| "py_repr (JInt n) = int_text n"
| "py_repr (JStr s) = repr_str s"
| "py_repr (JArr vs) = ''['' @ comma_list (map py_repr vs) @ '']''"
| "py_repr (JObj kvs) = ''{'' @ comma_list (map (\<lambda>(k, v). repr_str k @ '': '' @ py_repr v) kvs) @ ''}''"

definition py_str :: "json \<Rightarrow> string" where
  "py_str v = (case v of JStr s \<Rightarrow> s | _ \<Rightarrow> py_repr v)"

definition json_truthy :: "json \<Rightarrow> bool" where
  "json_truthy v =
     (case v of
        JNull \<Rightarrow> False
      | JBool b \<Rightarrow> b
      | JInt n \<Rightarrow> n \<noteq> 0
      | JStr s \<Rightarrow> s \<noteq> []
      | JArr vs \<Rightarrow> vs \<noteq> []
      | JObj kvs \<Rightarrow> kvs \<noteq> [])"

section \<open>Arguments and surroundings\<close>

datatype command = Doctor | Smoke | Run

record namespace =
  ns_command :: command
  ns_socket :: "string option"
  ns_state_dir :: "string option"
  ns_source_instance_id :: "string option"
  ns_max_connections :: int
  ns_max_frames :: int
  ns_timeout :: int
  ns_timeout_text :: string

definition default_args :: "int \<Rightarrow> command \<Rightarrow> namespace" where
  "default_args second cmd =
     \<lparr>ns_command = cmd, ns_socket = None, ns_state_dir = None, ns_source_instance_id = None,
      ns_max_connections = 8, ns_max_frames = 25, ns_timeout = 15 * second, ns_timeout_text = ''15.0''\<rparr>"

datatype channel = Stdout | Stderr

type_synonym printed = "(channel \<times> nat list) list"

text \<open>\<open>ce_os_error\<close> tells which exceptions of a socket are instances of \<open>TimeoutError\<close> or \<open>OSError\<close>; none that the program
  raises itself is.\<close>

record ('k, 'f) cli_env =
  ce_host :: "'f host"
  ce_sockets :: "'k sockets"
  ce_monotonic :: "'k \<Rightarrow> int \<times> 'k"
  ce_os_error :: "string \<Rightarrow> bool"
  ce_files :: "string \<Rightarrow> 'f \<Rightarrow> event_outbox res \<times> 'f"
  ce_client :: "RuntimeConfig \<Rightarrow> stream_client"

fun is_OSError :: "('k, 'f) cli_env \<Rightarrow> py_exc \<Rightarrow> bool" where
  "is_OSError env (ExternalError m) = ce_os_error env m"
| "is_OSError env e = False"

definition say :: "string \<Rightarrow> channel \<times> nat list" where
  "say s = (Stdout, code_points s)"

definition load_args :: "('k, 'f) cli_env \<Rightarrow> namespace \<Rightarrow> 'f \<Rightarrow> RuntimeConfig res \<times> 'f" where
  "load_args env ns fs = load (ce_host env) (ns_socket ns) (ns_state_dir ns) (ns_source_instance_id ns) fs"

section \<open>doctor\<close>

definition cmd_doctor :: "('k, 'f) cli_env \<Rightarrow> namespace \<Rightarrow> 'f \<Rightarrow> int res \<times> printed \<times> 'f" where
  "cmd_doctor env ns fs =
     (case load_args env ns fs of
        (Inl e, fs') \<Rightarrow> (Inl e, [], fs')
      | (Inr config, fs') \<Rightarrow>
        (Inr 0, [(Stdout, describe config), say ([CHR 0x0A] @ ''configuration is usable; nothing was started'')], fs'))"

section \<open>smoke\<close>

definition read_stream_frame :: "'k sockets \<Rightarrow> 'k \<Rightarrow> frame option res \<times> 'k" where
  "read_stream_frame so k =
     (case so_readline so (MAX_FRAME_BYTES + 2) k of
        (Inl e, k') \<Rightarrow> (Inl e, k')
      | (Inr raw, k') \<Rightarrow> (parse_frame raw, k'))"

text \<open>\<open>settimeout\<close> refuses a negative number.\<close>

definition set_read_timeout :: "int \<Rightarrow> unit res" where
  "set_read_timeout seconds = (if seconds < 0 then Inl (ValueError ''Timeout value out of range'') else Inr ())"

text \<open>The dictionary of counts, in the order of its keys.\<close>

definition frame_key :: "frame \<Rightarrow> string" where
  "frame_key f =
     (let v = dict_get f ''type''; w = dict_get f ''name'';
          kind = (if json_truthy v then py_str v else ''?'');
          name = (if json_truthy w then py_str w else [])
      in if name \<noteq> [] then kind @ '':'' @ name else kind)"

fun count_key :: "string \<Rightarrow> (string \<times> nat) list \<Rightarrow> (string \<times> nat) list" where
  "count_key key [] = [(key, 1)]"
| "count_key key ((k, n) # rest) = (if k = key then (k, n + 1) # rest else (k, n) # count_key key rest)"

text \<open>The loop runs while fewer than \<open>max_frames\<close> frames were read and the deadline has not passed.\<close>

function smoke_loop ::
  "('k, 'f) cli_env \<Rightarrow> int \<Rightarrow> int \<Rightarrow> int \<Rightarrow> (string \<times> nat) list \<Rightarrow> 'k \<Rightarrow> (int \<times> (string \<times> nat) list) res \<times> 'k" where
  "smoke_loop env max_frames deadline frames seen k =
     (if frames < max_frames then
        (case ce_monotonic env k of
           (now, k1) \<Rightarrow>
             if now < deadline then
               (case read_stream_frame (ce_sockets env) k1 of
                  (Inl e, k2) \<Rightarrow> if is_OSError env e then (Inr (frames, seen), k2) else (Inl e, k2)
                | (Inr None, k2) \<Rightarrow> (Inr (frames, seen), k2)
                | (Inr (Some f), k2) \<Rightarrow>
                    smoke_loop env max_frames deadline (frames + 1) (count_key (frame_key f) seen) k2)
             else (Inr (frames, seen), k1))
      else (Inr (frames, seen), k))"
  by pat_completeness auto

termination
  by (relation "measure (\<lambda>(env, max_frames, deadline, frames, seen, k). nat (max_frames - frames))") auto

declare smoke_loop.simps [simp del]

text \<open>The connection: opened, read, closed on every path.\<close>

definition smoke_read :: "('k, 'f) cli_env \<Rightarrow> RuntimeConfig \<Rightarrow> namespace \<Rightarrow> 'k \<Rightarrow> (int \<times> (string \<times> nat) list) res \<times> 'k" where
  "smoke_read env config ns k =
     (case ce_monotonic env k of
        (now, k0) \<Rightarrow>
          (case open_stream (ce_sockets env) (rt_password config) None k0 of
             (Inl e, k1) \<Rightarrow> (Inl e, k1)
           | (Inr _, k1) \<Rightarrow>
             (case (case set_read_timeout (ns_timeout ns) of
                      Inl e \<Rightarrow> (Inl e, k1)
                    | Inr _ \<Rightarrow> smoke_loop env (ns_max_frames ns) (now + ns_timeout ns) 0 [] k1) of
                (r, k2) \<Rightarrow> (r, so_close (ce_sockets env) k2))))"

text \<open>\<open>{n:4d}\<close>, and the keys by descending count, in the order they were first seen among equals.\<close>

definition pad4 :: "nat \<Rightarrow> string" where
  "pad4 n = replicate (4 - length (nat_text n)) (CHR '' '') @ nat_text n"

definition summary :: "(string \<times> nat) list \<Rightarrow> printed" where
  "summary seen =
     map (\<lambda>(key, n). say (''    '' @ pad4 n @ ''  '' @ key)) (sort_key (\<lambda>(key, n). - int n) seen)"

definition cmd_smoke :: "('k, 'f) cli_env \<Rightarrow> namespace \<Rightarrow> 'k \<Rightarrow> 'f \<Rightarrow> int res \<times> printed \<times> 'k \<times> 'f" where
  "cmd_smoke env ns k fs =
     (case load_args env ns fs of
        (Inl e, fs') \<Rightarrow> (Inl e, [], k, fs')
      | (Inr config, fs') \<Rightarrow>
        (let start = [(Stdout, describe config),
                      say ([CHR 0x0A] @ ''reading up to '' @ int_text (ns_max_frames ns)
                        @ '' frames from the live stream (read-only, '' @ ns_timeout_text ns @ ''s budget)...'')]
         in case smoke_read env config ns k of
              (Inl e, k') \<Rightarrow> (Inl e, start, k', fs')
            | (Inr (frames, seen), k') \<Rightarrow>
              (let report = start @ [say (''  frames_read = '' @ int_text frames)] @ summary seen
               in if frames = 0
                    then (Inr 1, report @ [(Stderr, code_points ([CHR 0x0A] @ ''FAILED: connected but read no frames''))],
                          k', fs')
                  else (Inr 0, report @ [say ([CHR 0x0A] @ ''Read live frames from cmux. No injection was performed.'')],
                        k', fs'))))"

section \<open>run, and the dispatch\<close>

text \<open>\<open>Supervisor(config)\<close> has no receipt producer. The result has what the outbox holds, if it was opened.\<close>

definition cmd_run :: "('k, 'f) cli_env \<Rightarrow> namespace \<Rightarrow> 'f \<Rightarrow> int res \<times> event_outbox option \<times> 'f" where
  "cmd_run env ns fs =
     (case load_args env ns fs of
        (Inl e, fs') \<Rightarrow> (Inl e, None, fs')
      | (Inr config, fs') \<Rightarrow>
        (case run_once (ce_host env) (ce_files env) (ce_client env config)
                \<lparr>sv_config = config, sv_receipt_producer = None\<rparr> (ns_max_connections ns) 0 new_producer () fs' of
           (Inl e, ob, _, _, _, fs'') \<Rightarrow> (Inl e, ob, fs'')
         | (Inr _, ob, _, _, _, fs'') \<Rightarrow> (Inr 0, ob, fs'')))"

definition run_command ::
  "('k, 'f) cli_env \<Rightarrow> namespace \<Rightarrow> 'k \<Rightarrow> 'f \<Rightarrow> int res \<times> printed \<times> event_outbox option \<times> 'k \<times> 'f" where
  "run_command env ns k fs =
     (case ns_command ns of
        Doctor \<Rightarrow> (case cmd_doctor env ns fs of (r, out, fs') \<Rightarrow> (r, out, None, k, fs'))
      | Smoke \<Rightarrow> (case cmd_smoke env ns k fs of (r, out, k', fs') \<Rightarrow> (r, out, None, k', fs'))
      | Run \<Rightarrow> (case cmd_run env ns fs of (r, ob, fs') \<Rightarrow> (r, [], ob, k, fs')))"

definition main ::
  "('k, 'f) cli_env \<Rightarrow> namespace \<Rightarrow> 'k \<Rightarrow> 'f \<Rightarrow> int res \<times> printed \<times> event_outbox option \<times> 'k \<times> 'f" where
  "main env ns k fs =
     (case run_command env ns k fs of
        (Inl (RuntimeDiscoveryError m), out, ob, k', fs') \<Rightarrow>
          (Inr 2, out @ [(Stderr, code_points (''error: '' @ m))], ob, k', fs')
      | r \<Rightarrow> r)"

section \<open>What smoke does to the host\<close>

text \<open>How the lines sent, the reads and the open connections follow the calls.\<close>

definition metered :: "('k, 'f) cli_env \<Rightarrow> ('k \<Rightarrow> byte list list) \<Rightarrow> ('k \<Rightarrow> nat) \<Rightarrow> ('k \<Rightarrow> nat) \<Rightarrow> bool" where
  "metered env sent reads opens \<longleftrightarrow>
     counts_open (ce_sockets env) opens
     \<and> (\<forall>k r k'. so_socket (ce_sockets env) k = (r, k') \<longrightarrow> sent k' = sent k \<and> reads k' = reads k)
     \<and> (\<forall>k r k'. so_connect (ce_sockets env) k = (r, k') \<longrightarrow> sent k' = sent k \<and> reads k' = reads k)
     \<and> (\<forall>bs k r k'. so_send (ce_sockets env) bs k = (r, k') \<longrightarrow> sent k' = sent k @ [bs] \<and> reads k' = reads k)
     \<and> (\<forall>n k r k'. so_readline (ce_sockets env) n k = (r, k') \<longrightarrow> sent k' = sent k \<and> reads k' = Suc (reads k))
     \<and> (\<forall>k. sent (so_close (ce_sockets env) k) = sent k \<and> reads (so_close (ce_sockets env) k) = reads k)
     \<and> (\<forall>k t k'. ce_monotonic env k = (t, k') \<longrightarrow> sent k' = sent k \<and> reads k' = reads k \<and> opens k' = opens k)"

lemma meteredD:
  assumes "metered env sent reads opens"
  shows "counts_open (ce_sockets env) opens"
    "so_connect (ce_sockets env) k = (c, k') \<Longrightarrow> sent k' = sent k \<and> reads k' = reads k"
    "so_send (ce_sockets env) bs k = (c, k') \<Longrightarrow> sent k' = sent k @ [bs] \<and> reads k' = reads k"
    "so_readline (ce_sockets env) n k = (l, k') \<Longrightarrow> sent k' = sent k \<and> reads k' = Suc (reads k)"
    "sent (so_close (ce_sockets env) k) = sent k" "reads (so_close (ce_sockets env) k) = reads k"
    "ce_monotonic env k = (t, k') \<Longrightarrow> sent k' = sent k \<and> reads k' = reads k \<and> opens k' = opens k"
    "so_socket (ce_sockets env) k = (c, k') \<Longrightarrow> sent k' = sent k \<and> reads k' = reads k"
  using assms unfolding metered_def by blast+

lemma connect_meters:
  assumes "metered env sent reads opens" "connect_socket (ce_sockets env) k = (c, k')"
  shows "sent k' = sent k \<and> reads k' = reads k"
  using assms(2) meteredD(2,5,6,8)[OF assms(1)]
  by (fastforce simp: connect_socket_def split: prod.splits sum.splits)

text \<open>The only lines that smoke may send: the login when there is a password, and the request for the stream.\<close>

definition login_lines :: "string option \<Rightarrow> byte list list" where
  "login_lines password =
     (case password of
        None \<Rightarrow> []
      | Some p \<Rightarrow> [json_line (request ''yatagarasu-auth'' ''auth.login'' [(''password'', JStr p)])])"

definition stream_lines :: "string option \<Rightarrow> byte list list" where
  "stream_lines password =
     login_lines password @ [json_line (request ''yatagarasu-events'' ''events.stream'' (stream_params None))]"

lemma authenticate_sends:
  assumes m: "metered env sent reads opens" and run: "authenticate (ce_sockets env) p k = (r, k')"
  shows "sent k' = sent k @ login_lines p \<and> reads k \<le> reads k' \<and> reads k' \<le> Suc (reads k)"
proof (cases p)
  case (Some q)
  let ?line = "json_line (request ''yatagarasu-auth'' ''auth.login'' [(''password'', JStr q)])"
  obtain c k1 where c: "so_send (ce_sockets env) ?line k = (c, k1)" by fastforce
  obtain l k2 where l: "so_readline (ce_sockets env) (MAX_COMMAND_FRAME_BYTES + 2) k1 = (l, k2)" by fastforce
  have "k' = k1 \<or> k' = k2"
    using run Some c l
    by (auto simp: authenticate_def exchange_def write_json_def read_json_def split: sum.splits prod.splits if_splits)
  with meteredD(3)[OF m c] meteredD(4)[OF m l] Some show ?thesis by (auto simp: login_lines_def)
qed (use run in \<open>simp add: authenticate_def login_lines_def\<close>)

lemma open_stream_sends:
  assumes m: "metered env sent reads opens" and run: "open_stream (ce_sockets env) p None k = (r, k')"
  shows "\<exists>us. prefix us (stream_lines p) \<and> sent k' = sent k @ us" "reads k \<le> reads k'"
    "reads k' \<le> Suc (reads k)"
proof -
  obtain c k1 where c: "connect_socket (ce_sockets env) k = (c, k1)" by fastforce
  obtain a k2 where a: "authenticate (ce_sockets env) p k1 = (a, k2)" by fastforce
  obtain w k3 where w: "so_send (ce_sockets env)
      (json_line (request ''yatagarasu-events'' ''events.stream'' (stream_params None))) k2 = (w, k3)" by fastforce
  have "k' \<in> {k1, so_close (ce_sockets env) k2, so_close (ce_sockets env) k3, k3}"
    using run c a w by (auto simp: open_stream_def write_json_def split: sum.splits)
  then have "sent k' \<in> {sent k, sent k @ login_lines p, sent k @ stream_lines p} \<and> reads k \<le> reads k'
      \<and> reads k' \<le> Suc (reads k)"
    using connect_meters[OF m c] authenticate_sends[OF m a] meteredD(3)[OF m w] meteredD(5,6)[OF m]
    by (auto simp: stream_lines_def)
  then show "\<exists>us. prefix us (stream_lines p) \<and> sent k' = sent k @ us" "reads k \<le> reads k'"
    "reads k' \<le> Suc (reads k)"
    by (auto simp: stream_lines_def intro: exI[of _ "[]"])
qed

lemma read_stream_frame_reads:
  assumes m: "metered env sent reads opens" and run: "read_stream_frame (ce_sockets env) k = (r, k')"
  shows "sent k' = sent k \<and> reads k' = Suc (reads k) \<and> opens k' = opens k"
proof -
  obtain l k1 where l: "so_readline (ce_sockets env) (MAX_FRAME_BYTES + 2) k = (l, k1)" by fastforce
  with run have "k' = k1" by (auto simp: read_stream_frame_def split: sum.splits)
  with meteredD(4)[OF m l] counts_openD(4)[OF meteredD(1)[OF m] l] show ?thesis by simp
qed

text \<open>The loop reads at most as many frames as are still allowed, and counts no more frames than it read.\<close>

lemma smoke_loop_reads:
  assumes m: "metered env sent reads opens"
  shows "smoke_loop env mx dl fr seen k = (r, k') \<Longrightarrow>
    sent k' = sent k \<and> opens k' = opens k \<and> reads k \<le> reads k' \<and> int (reads k') \<le> int (reads k) + max 0 (mx - fr)
    \<and> (\<forall>n seen'. r = Inr (n, seen') \<longrightarrow> fr \<le> n \<and> n - fr \<le> int (reads k') - int (reads k))"
proof (induction "nat (mx - fr)" arbitrary: fr seen k r k')
  case 0
  then show ?case by (auto simp: smoke_loop.simps)
next
  case (Suc n)
  then have lt: "fr < mx" and n: "n = nat (mx - (fr + 1))" by auto
  obtain now k1 where now: "ce_monotonic env k = (now, k1)" by fastforce
  obtain q k2 where q: "read_stream_frame (ce_sockets env) k1 = (q, k2)" by fastforce
  note meters = meteredD(7)[OF m now] read_stream_frame_reads[OF m q]
  show ?case
  proof (cases "now < dl \<and> (\<exists>f. q = Inr (Some f))")
    case True
    then obtain f where f: "q = Inr (Some f)" by blast
    with Suc.prems True lt now q
    have rest: "smoke_loop env mx dl (fr + 1) (count_key (frame_key f) seen) k2 = (r, k')"
      by (simp add: smoke_loop.simps[of env mx dl fr])
    from Suc.hyps(1)[OF n rest] meters lt show ?thesis by auto
  next
    case False
    with Suc.prems lt now q meters show ?thesis
      by (auto simp: smoke_loop.simps[of env mx dl fr] split: sum.splits option.splits if_splits)
  qed
qed

lemma smoke_read_meters:
  assumes m: "metered env sent reads opens" and run: "smoke_read env c ns k = (r, k')"
  shows "int (reads k') \<le> int (reads k) + 1 + max 0 (ns_max_frames ns) \<and> opens k' = opens k
    \<and> (\<exists>us. prefix us (stream_lines (rt_password c)) \<and> sent k' = sent k @ us)
    \<and> (\<forall>n seen. r = Inr (n, seen) \<longrightarrow> 0 \<le> n \<and> n \<le> int (reads k') - int (reads k))"
proof -
  obtain now k0 where now: "ce_monotonic env k = (now, k0)" by fastforce
  obtain o1 k1 where o1: "open_stream (ce_sockets env) (rt_password c) None k0 = (o1, k1)" by fastforce
  note opened = open_stream_sends[OF m o1] open_stream_open[OF meteredD(1)[OF m] o1] meteredD(7)[OF m now]
  show ?thesis
  proof (cases "isl o1 \<or> ns_timeout ns < 0")
    case True
    then have "isl r" "k' = (if isl o1 then k1 else so_close (ce_sockets env) k1)"
      using run now o1 by (auto simp: smoke_read_def set_read_timeout_def split: sum.splits)
    with opened meteredD(5,6)[OF m] counts_openD(5)[OF meteredD(1)[OF m], of k1] show ?thesis
      by (auto simp: isl_def)
  next
    case False
    obtain k2 where loop: "smoke_loop env (ns_max_frames ns) (now + ns_timeout ns) 0 [] k1 = (r, k2)"
      and k': "k' = so_close (ce_sockets env) k2"
      using run now o1 False by (auto simp: smoke_read_def set_read_timeout_def split: sum.splits prod.splits)
    from smoke_loop_reads[OF m loop] opened False meteredD(5,6)[OF m] counts_openD(5)[OF meteredD(1)[OF m], of k2]
    show ?thesis by (auto simp: k')
  qed
qed

section \<open>Properties\<close>

text \<open>C39: The preflight check ends and only reads. For any host it takes one login response and at most \<open>max_frames\<close> frames, leaves
  no connection open, and sends nothing but the login and the request for the event stream, or an initial part of
  these; the file system changes only as loading the configuration changes it. It reports success only if it read a
  frame, and failure with exit code 1 only if it read none.\<close>

theorem smoke_bounded_read_only:
  assumes "metered env sent reads opens" "cmd_smoke env ns k fs = (r, out, k', fs')"
  shows "int (reads k') \<le> int (reads k) + 1 + max 0 (ns_max_frames ns) \<and> opens k' = opens k
    \<and> (case fst (load_args env ns fs) of
         Inl e \<Rightarrow> r = Inl e \<and> k' = k
       | Inr c \<Rightarrow> \<exists>us. prefix us (stream_lines (rt_password c)) \<and> sent k' = sent k @ us)
    \<and> (r = Inr 0 \<longrightarrow> reads k < reads k') \<and> (\<forall>code. r = Inr code \<longrightarrow> code \<in> {0, 1})
    \<and> fs' = snd (load_args env ns fs)"
proof -
  obtain l fs1 where l: "load_args env ns fs = (l, fs1)" by fastforce
  show ?thesis
  proof (cases l)
    case (Inl e)
    with assms(2) l show ?thesis by (auto simp: cmd_smoke_def)
  next
    case (Inr c)
    obtain q k1 where q: "smoke_read env c ns k = (q, k1)" by fastforce
    with assms(2) Inr l have "k' = k1" "fs' = fs1"
      "\<And>code. r = Inr code \<Longrightarrow> \<exists>n seen. q = Inr (n, seen) \<and> code = of_bool (n = 0)"
      by (auto simp: cmd_smoke_def Let_def split: sum.splits if_splits)
    with smoke_read_meters[OF assms(1) q] Inr l show ?thesis by force
  qed
qed

text \<open>A host with one usable socket, whose peer will send the given lines, and what was sent, read and opened; its
  file system is the list of directories that were made.\<close>

type_synonym sample_net = "byte list list \<times> nat \<times> nat \<times> byte list list"

definition sample_host :: "bool \<Rightarrow> string list host" where
  "sample_host present =
     \<lparr>ho_environ = (\<lambda>_. None), ho_home = ''/home/a'', ho_expanduser = (\<lambda>p. p), ho_exists = (\<lambda>_ _. present),
      ho_mode = (\<lambda>_ _. 0xC180), ho_owner = (\<lambda>_ _. 7), ho_uid = 7, ho_nodename = ''node'',
      ho_mkdir = (\<lambda>d fs. (Inr (), List.insert d fs))\<rparr>"

definition sample_cli :: "bool \<Rightarrow> (sample_net, string list) cli_env" where
  "sample_cli present =
     \<lparr>ce_host = sample_host present,
      ce_sockets =
        \<lparr>so_socket = (\<lambda>(sent, reads, opens, ls). (Inr (), (sent, reads, Suc opens, ls))),
         so_connect = (\<lambda>k. (Inr (), k)),
         so_send = (\<lambda>bs (sent, reads, opens, ls). (Inr (), (sent @ [bs], reads, opens, ls))),
         so_readline = (\<lambda>_ (sent, reads, opens, ls).
           case ls of [] \<Rightarrow> (Inr [], (sent, Suc reads, opens, [])) | l # ls' \<Rightarrow> (Inr l, (sent, Suc reads, opens, ls'))),
         so_close = (\<lambda>(sent, reads, opens, ls). (sent, reads, opens - 1, ls))\<rparr>,
      ce_monotonic = (\<lambda>k. (0, k)), ce_os_error = (\<lambda>_. True), ce_files = (\<lambda>_ fs. (Inr empty_outbox, fs)),
      ce_client = (\<lambda>_. \<lparr>cl_open_stream = (\<lambda>_ _. Inr ([], None)), cl_snapshots = (\<lambda>_ _. Inr [])\<rparr>)\<rparr>"

lemma sample_cli_simps:
  "connect_socket (ce_sockets (sample_cli b)) (s, n, m, ls) = (Inr (), (s, n, Suc m, ls))"
  "so_send (ce_sockets (sample_cli b)) bs (s, n, m, ls) = (Inr (), (s @ [bs], n, m, ls))"
  "so_readline (ce_sockets (sample_cli b)) i (s, n, m, ls) =
     (case ls of [] \<Rightarrow> (Inr [], (s, Suc n, m, [])) | l # ls' \<Rightarrow> (Inr l, (s, Suc n, m, ls')))"
  "ce_monotonic (sample_cli b) k = (0, k)"
  by (simp_all add: sample_cli_def connect_socket_def)

lemma sample_cli_metered: "metered (sample_cli present) fst (\<lambda>k. fst (snd k)) (\<lambda>k. fst (snd (snd k)))"
  by (auto simp: metered_def counts_open_def sample_cli_def split: list.splits)

lemma default_args_simps:
  "ns_command (default_args s cmd) = cmd" "ns_max_frames (default_args s cmd) = 25" "ns_socket (default_args s cmd) = None"
  "ns_state_dir (default_args s cmd) = None"
  by (simp_all add: default_args_def)

lemma sample_cli_loads:
  "load_args (sample_cli True) (default_args 1 cmd) [] =
     (Inr \<lparr>rt_socket_path = ''/home/a/.local/state/cmux/cmux.sock'', rt_state_dir = ''/home/a/.local/state/yatagarasu'',
           rt_password = None, rt_source_instance_id = ''node''\<rparr>, [''/home/a/.local/state/yatagarasu''])"
  by code_simp

text \<open>Witness of C39.\<close>

theorem smoke_bounded_read_only_witness:
  "case cmd_smoke (sample_cli True) (default_args 1 Smoke) ([], 0, 0, [json_line (JObj [])]) [] of
     (r, out, (sent, reads, opens, ls), fs) \<Rightarrow> r = Inr 0 \<and> 0 < reads \<and> reads \<le> 26 \<and> opens = 0
       \<and> fs = [''/home/a/.local/state/yatagarasu'']"
proof -
  let ?k = "([], 0, 0, [json_line (JObj [])]) :: sample_net"
  let ?run = "cmd_smoke (sample_cli True) (default_args 1 Smoke) ?k []"
  have "wf_json (JObj [])" "length (json_line (JObj [])) = 3" by code_simp+
  then have "parse_frame (json_line (JObj [])) = Inr (Some [])"
    by (intro parse_json_line) (simp_all add: MAX_FRAME_BYTES_def)
  moreover have "parse_frame [] = Inr None" by (simp add: parse_frame_def)
  ultimately have frame: "parse_frame (json_line (JObj [])) = Inr (Some [])" "parse_frame [] = Inr None" by simp_all
  have loop: "smoke_loop (sample_cli True) 25 15 0 [] (s, n, m, [json_line (JObj [])]) =
      (Inr (1, [(''?'', 1)]), (s, Suc (Suc n), m, []))" for s n m
    by (simp add: sample_cli_simps smoke_loop.simps[of _ 25 15 0] smoke_loop.simps[of _ 25 15 1] read_stream_frame_def
        frame frame_key_def dict_get_def json_truthy_def)
  have "fst (smoke_read (sample_cli True) c (default_args 1 Smoke) ?k) = Inr (1, [(''?'', 1)])"
    if "rt_password c = None" for c
    using loop that
    by (simp add: smoke_read_def open_stream_def authenticate_def write_json_def set_read_timeout_def default_args_def
        sample_cli_simps)
  from this[of "projr (fst (load_args (sample_cli True) (default_args 1 Smoke) []))"] have ok: "fst ?run = Inr 0"
    by (auto simp: cmd_smoke_def sample_cli_loads Let_def split: prod.splits)
  obtain out sent reads opens ls fs where run: "?run = (Inr 0, out, (sent, reads, opens, ls), fs)"
    using ok by (cases ?run) auto
  from smoke_bounded_read_only[OF sample_cli_metered run] run show ?thesis
    by (simp add: default_args_simps sample_cli_loads)
qed

text \<open>C40: Exit codes. \<open>main\<close> returns 0, 1 or 2 and never lets a discovery error through. A configuration that cannot be discovered
  gives 2 and one line on the error channel; no socket is used and no outbox is opened. \<open>doctor\<close> uses no socket
  and opens no outbox in any case: its only effect is that of loading the configuration, which makes the state directory
  once the control socket was found usable and changes nothing when it was not.\<close>

theorem main_exit_codes:
  "case main env ns k fs of (r, out, ob, k', fs') \<Rightarrow>
     (\<forall>code. r = Inr code \<longrightarrow> code \<in> {0, 1, 2}) \<and> (\<forall>m. r \<noteq> Inl (RuntimeDiscoveryError m))
     \<and> (ns_command ns = Doctor \<longrightarrow> ob = None \<and> k' = k \<and> (r = Inr 0 \<longleftrightarrow> \<not> isl (fst (load_args env ns fs)))
          \<and> fs' = (if isl (verify_socket (ce_host env) (discover_socket_path (ce_host env) (ns_socket ns)) fs) then fs
                    else snd (ho_mkdir (ce_host env) (resolved_state_dir (ce_host env) (ns_state_dir ns)) fs)))
     \<and> (\<forall>m. fst (load_args env ns fs) = Inl (RuntimeDiscoveryError m) \<longrightarrow>
            r = Inr 2 \<and> out = [(Stderr, code_points (''error: '' @ m))] \<and> ob = None \<and> k' = k
            \<and> fs' = snd (load_args env ns fs))"
proof -
  obtain r out ob k' fs' where run: "run_command env ns k fs = (r, out, ob, k', fs')" by (metis prod_cases5)
  obtain l fs1 where l: "load_args env ns fs = (l, fs1)" by fastforce
  have codes: "\<And>code. r = Inr code \<Longrightarrow> code \<in> {0, 1}"
    using run
    by (cases "ns_command ns")
      (auto simp: run_command_def cmd_doctor_def cmd_smoke_def cmd_run_def Let_def split: sum.splits prod.splits if_splits)
  have "ns_command ns = Doctor \<Longrightarrow> ob = None \<and> k' = k \<and> (r = Inr 0 \<longleftrightarrow> \<not> isl l) \<and> fs' = fs1"
    using run l by (auto simp: run_command_def cmd_doctor_def split: sum.splits)
  moreover have "l = Inl e \<Longrightarrow> r = Inl e \<and> out = [] \<and> ob = None \<and> k' = k \<and> fs' = fs1" for e
    using run l
    by (cases "ns_command ns") (auto simp: run_command_def cmd_doctor_def cmd_smoke_def cmd_run_def)
  moreover have "fs1 = (if isl (verify_socket (ce_host env) (discover_socket_path (ce_host env) (ns_socket ns)) fs) then fs
      else snd (ho_mkdir (ce_host env) (resolved_state_dir (ce_host env) (ns_state_dir ns)) fs))"
    using load_effect[of "ce_host env" "ns_socket ns" "ns_state_dir ns" "ns_source_instance_id ns" fs] l
    by (simp add: load_args_def)
  ultimately show ?thesis
    using codes by (cases r) (auto simp: main_def run l split: py_exc.splits)
qed

text \<open>Witness of C40: without a socket nothing happens; with one, \<open>doctor\<close> makes the state directory.\<close>

theorem main_exit_codes_witness:
  "main (sample_cli False) (default_args 1 Run) ([], 0, 0, []) [] =
     (Inr 2, [(Stderr, code_points ''error: cmux socket not found'')], None, ([], 0, 0, []), [])
   \<and> (\<exists>out. main (sample_cli True) (default_args 1 Doctor) ([], 0, 0, []) [] =
        (Inr 0, out, None, ([], 0, 0, []), [''/home/a/.local/state/yatagarasu'']))"
proof -
  have none: "load_args (sample_cli False) (default_args 1 Run) [] = (Inl (RuntimeDiscoveryError ''cmux socket not found''), [])"
    by code_simp
  have dir: "(if isl (verify_socket (ce_host (sample_cli True)) (discover_socket_path (ce_host (sample_cli True)) None) []) then []
      else snd (ho_mkdir (ce_host (sample_cli True)) (resolved_state_dir (ce_host (sample_cli True)) None) []))
      = [''/home/a/.local/state/yatagarasu'']" by code_simp
  from main_exit_codes[where env = "sample_cli False" and ns = "default_args 1 Run" and k = "([], 0, 0, [])" and fs = "[]"] none
    main_exit_codes[where env = "sample_cli True" and ns = "default_args 1 Doctor" and k = "([], 0, 0, [])" and fs = "[]"] dir
  show ?thesis
    by (auto simp: sample_cli_loads default_args_simps split: prod.splits)
qed

end
