(* ===== verification/Cmux_Notifications.thy ===== *)
theory Cmux_Notifications
  imports Cmux_Stream
begin

text \<open>
  \<open>plugins/cmux/yatagarasu_cmux/notifications.py\<close>: the durable lifecycle of the banners that announce deliveries. The
  table \<open>notification_lifecycle\<close> is the list of its rows; every statement commits on its own. The command
  client is a parameter whose state is threaded through, so an operation is a function on the table and the host
  that returns or raises. A time is a whole number of clock units: the rounding of \<open>float\<close> is
  outside the model.
\<close>

section \<open>State\<close>

datatype NotificationState = Prepared | Active | Dismissed | Expired | Evicted

fun notification_state_value :: "NotificationState \<Rightarrow> string" where
  "notification_state_value Prepared = ''prepared''"
| "notification_state_value Active = ''active''"
| "notification_state_value Dismissed = ''dismissed''"
| "notification_state_value Expired = ''expired''"
| "notification_state_value Evicted = ''evicted''"

record NotificationRow =
  nr_event_id :: string
  nr_delivery_id :: string
  nr_seat_id :: string
  nr_notification_id :: "string option"
  nr_workspace_id :: string
  nr_surface_id :: string
  nr_correlation_token :: string
  nr_title :: string
  nr_subtitle :: string
  nr_body :: string
  nr_state :: NotificationState
  nr_created_at :: int
  nr_expires_at :: int
  nr_retired_reason :: "string option"

record NotificationRecord =
  no_event_id :: string
  no_delivery_id :: string
  no_seat_id :: string
  no_notification_id :: string
  no_workspace_id :: string
  no_surface_id :: string
  no_correlation_token :: string
  no_created_at :: int
  no_expires_at :: int

record 'h lifecycle =
  nl_rows :: "NotificationRow list"
  nl_host :: 'h

text \<open>What the constructor is given: the command client, the cap per seat and the lifetime of a banner.\<close>

record 'h lifecycle_env =
  nv_call :: "string \<Rightarrow> frame \<Rightarrow> 'h \<Rightarrow> json res \<times> 'h"
  nv_per_seat_cap :: int
  nv_mailbox_ttl :: int

definition new_lifecycle ::
  "(string \<Rightarrow> frame \<Rightarrow> 'h \<Rightarrow> json res \<times> 'h) \<Rightarrow> bool \<Rightarrow> int \<Rightarrow> int \<Rightarrow> 'h lifecycle_env res" where
  "new_lifecycle client suppress_only_focused_surface per_seat_cap mailbox_ttl =
     (if \<not> suppress_only_focused_surface
        then Inl (NotificationLifecycleError ''notifications.suppressOnlyFocusedSurface must be true'')
      else if per_seat_cap < 1 \<or> mailbox_ttl \<le> 0
        then Inl (ValueError ''notification cap and TTL must be positive'')
      else Inr \<lparr>nv_call = client, nv_per_seat_cap = per_seat_cap, nv_mailbox_ttl = mailbox_ttl\<rparr>)"

section \<open>Operations that may raise\<close>

type_synonym ('h, 'a) op = "'h lifecycle \<Rightarrow> 'a res \<times> 'h lifecycle"

definition return_op :: "'a \<Rightarrow> ('h, 'a) op" where
  "return_op a st = (Inr a, st)"

definition raise_op :: "py_exc \<Rightarrow> ('h, 'a) op" where
  "raise_op e st = (Inl e, st)"

definition bind_op :: "('h, 'a) op \<Rightarrow> ('a \<Rightarrow> ('h, 'b) op) \<Rightarrow> ('h, 'b) op" where
  "bind_op m f st = (case m st of (Inl e, st') \<Rightarrow> (Inl e, st') | (Inr a, st') \<Rightarrow> f a st')"

fun each_op :: "('x \<Rightarrow> ('h, 'a) op) \<Rightarrow> 'x list \<Rightarrow> ('h, unit) op" where
  "each_op f [] = return_op ()"
| "each_op f (x # xs) = bind_op (f x) (\<lambda>_. each_op f xs)"

definition call_op :: "'h lifecycle_env \<Rightarrow> string \<Rightarrow> frame \<Rightarrow> ('h, json) op" where
  "call_op env method params st =
     (case nv_call env method params (nl_host st) of (r, h) \<Rightarrow> (r, st\<lparr>nl_host := h\<rparr>))"

section \<open>Rows\<close>

definition row_for_delivery :: "NotificationRow list \<Rightarrow> string \<Rightarrow> NotificationRow option" where
  "row_for_delivery rows delivery_id = fetchone (\<lambda>r. nr_delivery_id r = delivery_id) rows"

text \<open>\<open>ORDER BY created_at, event_id\<close>.\<close>

definition oldest_first :: "NotificationRow list \<Rightarrow> NotificationRow list" where
  "oldest_first rows = sort_key nr_created_at (sort_key nr_event_id rows)"

definition to_record :: "NotificationRow \<Rightarrow> NotificationRecord res" where
  "to_record row =
     (case nr_notification_id row of
        None \<Rightarrow> Inl (NotificationLifecycleError ''notification_not_active'')
      | Some i \<Rightarrow> Inr
          \<lparr>no_event_id = nr_event_id row, no_delivery_id = nr_delivery_id row, no_seat_id = nr_seat_id row,
           no_notification_id = i, no_workspace_id = nr_workspace_id row, no_surface_id = nr_surface_id row,
           no_correlation_token = nr_correlation_token row, no_created_at = nr_created_at row,
           no_expires_at = nr_expires_at row\<rparr>)"

definition same_claim :: "NotificationRow \<Rightarrow> NotificationRow \<Rightarrow> bool" where
  "same_claim row claim =
     (nr_event_id row = nr_event_id claim \<and> nr_delivery_id row = nr_delivery_id claim
      \<and> nr_seat_id row = nr_seat_id claim \<and> nr_workspace_id row = nr_workspace_id claim
      \<and> nr_surface_id row = nr_surface_id claim \<and> nr_title row = nr_title claim
      \<and> nr_subtitle row = nr_subtitle claim \<and> nr_body row = nr_body claim)"

definition assert_same_claim :: "NotificationRow \<Rightarrow> NotificationRow \<Rightarrow> ('h, unit) op" where
  "assert_same_claim row claim =
     (if same_claim row claim then return_op ()
      else raise_op (NotificationLifecycleError ''event_id_claim_contradiction''))"

definition notification_token :: "string \<Rightarrow> string \<Rightarrow> string" where
  "notification_token event_id delivery_id =
     ''YGR-'' @ take 16 (hex (sha256 (utf8 (event_id @ [CHR 0x00] @ delivery_id))))"

text \<open>The two unique columns an insert can violate; a new row has no notification yet.\<close>

definition insert_notification :: "NotificationRow \<Rightarrow> NotificationRow list \<Rightarrow> NotificationRow list res" where
  "insert_notification row rows =
     (if nr_delivery_id row \<in> nr_delivery_id ` set rows \<or> nr_correlation_token row \<in> nr_correlation_token ` set rows
        then Inl IntegrityError
      else Inr (rows @ [row]))"

text \<open>\<open>UPDATE ... SET notification_id = ?, state = 'active'\<close>, with its unique column.\<close>

definition activate :: "string \<Rightarrow> string \<Rightarrow> NotificationRow list \<Rightarrow> NotificationRow list res" where
  "activate delivery_id notification_id rows =
     (let P = (\<lambda>r. nr_delivery_id r = delivery_id \<and> nr_state r = Prepared)
      in if filter P rows \<noteq> [] \<and> Some notification_id \<in> nr_notification_id ` set (filter (\<lambda>r. \<not> P r) rows)
           then Inl IntegrityError
         else Inr (update_where P (\<lambda>r. r\<lparr>nr_notification_id := Some notification_id, nr_state := Active\<rparr>) rows))"

definition retire_row :: "string \<Rightarrow> NotificationState \<Rightarrow> string \<Rightarrow> NotificationRow list \<Rightarrow> NotificationRow list" where
  "retire_row delivery_id new_state reason rows =
     update_where (\<lambda>r. nr_delivery_id r = delivery_id)
       (\<lambda>r. r\<lparr>nr_state := new_state, nr_retired_reason := Some reason\<rparr>) rows"

section \<open>The host's banners\<close>

definition matching :: "NotificationRow \<Rightarrow> json list \<Rightarrow> frame list" where
  "matching row items = concat (map (\<lambda>v.
     case v of
       JObj f \<Rightarrow>
         if dict_get f ''workspace_id'' = JStr (nr_workspace_id row)
            \<and> dict_get f ''surface_id'' = JStr (nr_surface_id row)
            \<and> dict_get f ''subtitle'' = JStr (nr_subtitle row)
         then [f] else []
     | _ \<Rightarrow> []) items)"

definition listed :: "json \<Rightarrow> json list option" where
  "listed result =
     (case result of
        JObj d \<Rightarrow> (case dict_get d ''notifications'' of JArr items \<Rightarrow> Some items | _ \<Rightarrow> None)
      | _ \<Rightarrow> None)"

definition matching_notifications :: "'h lifecycle_env \<Rightarrow> NotificationRow \<Rightarrow> ('h, frame list) op" where
  "matching_notifications env row =
     bind_op (call_op env ''notification.list'' []) (\<lambda>result.
       case listed result of
         None \<Rightarrow> raise_op (NotificationLifecycleError ''notification_list_shape_invalid'')
       | Some items \<Rightarrow> return_op (matching row items))"

definition notification_exists :: "'h lifecycle_env \<Rightarrow> string \<Rightarrow> ('h, bool) op" where
  "notification_exists env notification_id =
     bind_op (call_op env ''notification.list'' []) (\<lambda>result.
       return_op (case listed result of
         None \<Rightarrow> False
       | Some items \<Rightarrow>
           list_ex (\<lambda>v. case v of JObj f \<Rightarrow> dict_get f ''id'' = JStr notification_id | _ \<Rightarrow> False) items))"

text \<open>A dismissal that fails with a protocol error is fine if the banner is gone.\<close>

definition dismiss :: "'h lifecycle_env \<Rightarrow> string \<Rightarrow> ('h, unit) op" where
  "dismiss env notification_id st =
     (case call_op env ''notification.dismiss'' [(''id'', JStr notification_id)] st of
        (Inr _, st1) \<Rightarrow> (Inr (), st1)
      | (Inl (StreamProtocolError m), st1) \<Rightarrow>
          bind_op (notification_exists env notification_id) (\<lambda>there.
            if there then raise_op (StreamProtocolError m) else return_op ()) st1
      | (Inl e, st1) \<Rightarrow> (Inl e, st1))"

section \<open>Operations\<close>

definition banner_ids :: "'h lifecycle_env \<Rightarrow> NotificationRow \<Rightarrow> ('h, string list) op" where
  "banner_ids env row =
     (if truthy (nr_notification_id row) then return_op [the (nr_notification_id row)]
      else bind_op (matching_notifications env row) (\<lambda>items.
        return_op (concat (map (\<lambda>f. case dict_get f ''id'' of JStr i \<Rightarrow> [i] | _ \<Rightarrow> []) items))))"

definition update_rows :: "(NotificationRow list \<Rightarrow> NotificationRow list res) \<Rightarrow> ('h, unit) op" where
  "update_rows f st =
     (case f (nl_rows st) of Inl e \<Rightarrow> (Inl e, st) | Inr rows \<Rightarrow> (Inr (), st\<lparr>nl_rows := rows\<rparr>))"

definition retire_delivery ::
  "'h lifecycle_env \<Rightarrow> string \<Rightarrow> string \<Rightarrow> NotificationState \<Rightarrow> ('h, bool) op" where
  "retire_delivery env delivery_id reason new_state st =
     (case row_for_delivery (nl_rows st) delivery_id of
        None \<Rightarrow> (Inr False, st)
      | Some row \<Rightarrow>
          if nr_state row \<notin> {Prepared, Active} then (Inr False, st)
          else bind_op (banner_ids env row) (\<lambda>ids.
            bind_op (each_op (dismiss env) ids) (\<lambda>_.
              bind_op (update_rows (\<lambda>rows. Inr (retire_row delivery_id new_state reason rows))) (\<lambda>_.
                return_op True))) st)"

definition expire :: "'h lifecycle_env \<Rightarrow> int \<Rightarrow> ('h, nat) op" where
  "expire env cutoff st =
     (let rows = oldest_first (filter (\<lambda>r. nr_state r \<in> {Prepared, Active} \<and> nr_expires_at r \<le> cutoff) (nl_rows st))
      in bind_op (each_op (\<lambda>r. retire_delivery env (nr_delivery_id r) ''expired'' Expired) rows) (\<lambda>_.
           return_op (length rows)) st)"

definition seat_active :: "string \<Rightarrow> NotificationRow list \<Rightarrow> NotificationRow list" where
  "seat_active seat_id rows = filter (\<lambda>r. nr_seat_id r = seat_id \<and> nr_state r = Active) rows"

definition enforce_cap :: "'h lifecycle_env \<Rightarrow> string \<Rightarrow> string \<Rightarrow> ('h, unit) op" where
  "enforce_cap env seat_id keep_delivery_id st =
     (let rows = oldest_first (seat_active seat_id (nl_rows st));
          excess = max 0 (int (length rows) - nv_per_seat_cap env);
          evictable = filter (\<lambda>r. nr_delivery_id r \<noteq> keep_delivery_id) rows
      in each_op (\<lambda>r. retire_delivery env (nr_delivery_id r) ''per-seat-cap'' Evicted) (take (nat excess) evictable) st)"

text \<open>\<open>publish\<close>: the claim, in the row it would insert; claiming; the banner; the rest.\<close>

definition claim_row ::
  "'h lifecycle_env \<Rightarrow> int \<Rightarrow> string \<Rightarrow> string \<Rightarrow> string \<Rightarrow> string \<Rightarrow> string \<Rightarrow> string \<Rightarrow> string \<Rightarrow> string \<Rightarrow> NotificationRow" where
  "claim_row env now event_id delivery_id seat_id workspace_id surface_id title body subtitle =
     (let token = notification_token event_id delivery_id
      in \<lparr>nr_event_id = event_id, nr_delivery_id = delivery_id, nr_seat_id = seat_id, nr_notification_id = None,
          nr_workspace_id = workspace_id, nr_surface_id = surface_id, nr_correlation_token = token, nr_title = title,
          nr_subtitle = (if subtitle \<noteq> [] then subtitle @ '' '' @ [CHR 0xB7] @ '' '' @ token else token),
          nr_body = body, nr_state = Prepared, nr_created_at = now, nr_expires_at = now + nv_mailbox_ttl env,
          nr_retired_reason = None\<rparr>)"

text \<open>The row to announce, or the record of a banner that is already active.\<close>

definition claim_delivery :: "NotificationRow \<Rightarrow> ('h, NotificationRow + NotificationRecord) op" where
  "claim_delivery claim st =
     (case row_for_delivery (nl_rows st) (nr_delivery_id claim) of
        Some existing \<Rightarrow>
          bind_op (assert_same_claim existing claim) (\<lambda>_.
            if nr_state existing = Active
              then (case to_record existing of Inl e \<Rightarrow> raise_op e | Inr r \<Rightarrow> return_op (Inr r))
            else if nr_state existing \<noteq> Prepared
              then raise_op (NotificationLifecycleError
                     (''event already retired: '' @ notification_state_value (nr_state existing)))
            else return_op (Inl existing)) st
      | None \<Rightarrow>
          (case insert_notification claim (nl_rows st) of
             Inr rows \<Rightarrow>
               (case row_for_delivery rows (nr_delivery_id claim) of
                  None \<Rightarrow> (Inl AssertionError, st\<lparr>nl_rows := rows\<rparr>)
                | Some row \<Rightarrow> (Inr (Inl row), st\<lparr>nl_rows := rows\<rparr>))
           | Inl IntegrityError \<Rightarrow>
               (case row_for_delivery (nl_rows st) (nr_delivery_id claim) of
                  None \<Rightarrow> (Inl (NotificationLifecycleError ''notification_claim_conflict''), st)
                | Some winner \<Rightarrow> bind_op (assert_same_claim winner claim) (\<lambda>_. return_op (Inl winner)) st)
           | Inl e \<Rightarrow> (Inl e, st)))"

text \<open>The one banner of a row: found, or created and found.\<close>

definition create_params :: "string \<Rightarrow> string \<Rightarrow> NotificationRow \<Rightarrow> frame" where
  "create_params workspace_id surface_id row =
     [(''workspace_id'', JStr workspace_id), (''surface_id'', JStr surface_id), (''title'', JStr (nr_title row)),
      (''subtitle'', JStr (nr_subtitle row)), (''body'', JStr (nr_body row))]"

definition one_banner :: "frame list \<Rightarrow> ('h, string) op" where
  "one_banner matches =
     (case matches of
        [m] \<Rightarrow> (case dict_get m ''id'' of
                  JStr i \<Rightarrow> if i = [] then raise_op (NotificationLifecycleError ''notification_id_missing'')
                            else return_op i
                | _ \<Rightarrow> raise_op (NotificationLifecycleError ''notification_id_missing''))
      | _ \<Rightarrow> raise_op (NotificationLifecycleError
               (''notification_correlation_ambiguous:'' @ nat_text (length matches))))"

definition announce :: "'h lifecycle_env \<Rightarrow> string \<Rightarrow> string \<Rightarrow> NotificationRow \<Rightarrow> ('h, string) op" where
  "announce env workspace_id surface_id row =
     bind_op (matching_notifications env row) (\<lambda>found.
       bind_op (if found = []
                then bind_op (call_op env ''notification.create_for_target'' (create_params workspace_id surface_id row))
                       (\<lambda>_. matching_notifications env row)
                else return_op found) one_banner)"

definition publish ::
  "'h lifecycle_env \<Rightarrow> int \<Rightarrow> string \<Rightarrow> string \<Rightarrow> string \<Rightarrow> string \<Rightarrow> string \<Rightarrow> string \<Rightarrow> string \<Rightarrow> string
    \<Rightarrow> ('h, NotificationRecord) op" where
  "publish env now event_id delivery_id seat_id workspace_id surface_id title body subtitle =
     bind_op (expire env now) (\<lambda>_.
       bind_op (claim_delivery (claim_row env now event_id delivery_id seat_id workspace_id surface_id title body subtitle))
         (\<lambda>claimed.
           case claimed of
             Inr r \<Rightarrow> return_op r
           | Inl existing \<Rightarrow>
             bind_op (announce env workspace_id surface_id existing) (\<lambda>notification_id.
               bind_op (update_rows (activate delivery_id notification_id)) (\<lambda>_.
                 bind_op (enforce_cap env seat_id delivery_id) (\<lambda>_ st.
                   case row_for_delivery (nl_rows st) delivery_id of
                     None \<Rightarrow> (Inl AssertionError, st)
                   | Some active \<Rightarrow> (to_record active, st))))))"

definition IN_SESSION_EVIDENCE :: "string list" where
  "IN_SESSION_EVIDENCE = [''harness.prompt_accepted'', ''harness.turn_started'']"

definition on_receipt ::
  "'h lifecycle_env \<Rightarrow> string \<Rightarrow> string \<Rightarrow> string \<Rightarrow> string \<Rightarrow> string \<Rightarrow> ('h, bool) op" where
  "on_receipt env event_id delivery_id status state evidence_class st =
     (if status \<noteq> ''accepted'' \<or> state \<noteq> ''in-session'' \<or> evidence_class \<notin> set IN_SESSION_EVIDENCE then (Inr False, st)
      else case row_for_delivery (nl_rows st) delivery_id of
        None \<Rightarrow> (Inr False, st)
      | Some row \<Rightarrow>
          if nr_event_id row \<noteq> event_id then (Inr False, st)
          else retire_delivery env delivery_id ''in-session-receipt'' Dismissed st)"

definition on_notification_read :: "'h lifecycle_env \<Rightarrow> string \<Rightarrow> ('h, bool) op" where
  "on_notification_read env notification_id st =
     (case fetchone (\<lambda>r. nr_notification_id r = Some notification_id \<and> nr_state r = Active) (nl_rows st) of
        None \<Rightarrow> (Inr False, st)
      | Some row \<Rightarrow> retire_delivery env (nr_delivery_id row) ''explicit-mark-read'' Dismissed st)"

fun to_records :: "NotificationRow list \<Rightarrow> NotificationRecord list res" where
  "to_records [] = Inr []"
| "to_records (r # rs) =
     (case to_record r of
        Inl e \<Rightarrow> Inl e
      | Inr x \<Rightarrow> (case to_records rs of Inl e \<Rightarrow> Inl e | Inr xs \<Rightarrow> Inr (x # xs)))"

definition active_records :: "string option \<Rightarrow> NotificationRow list \<Rightarrow> NotificationRecord list res" where
  "active_records seat_id rows =
     to_records (oldest_first (filter (\<lambda>r. nr_state r = Active \<and> (\<forall>s \<in> set_option seat_id. nr_seat_id r = s)) rows))"

section \<open>Hook effects\<close>

definition validate_hook_effects :: "frame \<Rightarrow> frame \<Rightarrow> bool \<Rightarrow> unit res" where
  "validate_hook_effects before after explicit_mark_read =
     (case (dict_get before ''effects'', dict_get after ''effects'') of
        (JObj b, JObj a) \<Rightarrow>
          if dict_get b ''desktop'' = JBool True \<and> dict_get a ''desktop'' \<noteq> JBool True
            then Inl (NotificationLifecycleError ''notification_hook_removed_desktop'')
          else if \<not> explicit_mark_read \<and> dict_get b ''markUnread'' = JBool True \<and> dict_get a ''markUnread'' \<noteq> JBool True
            then Inl (NotificationLifecycleError ''notification_hook_removed_mark_unread'')
          else Inr ()
      | _ \<Rightarrow> Inl (NotificationLifecycleError ''notification_hook_effects_shape_invalid''))"

end
