(* ===== verification/Cmux_Notifications_Facts.thy ===== *)
theory Cmux_Notifications_Facts
  imports Cmux_Notifications
begin

text \<open>
  What the banner lifecycle promises, for every host: rows follow their life cycle and are never lost, a seat keeps
  at most its cap of active banners, and a banner is only created when the host has none for the claim.
\<close>

section \<open>Steps of the table\<close>

inductive row_step :: "NotificationRow list \<Rightarrow> NotificationRow list \<Rightarrow> bool" where
  inserted: "insert_notification r rows = Inr rows' \<Longrightarrow> nr_state r = Prepared \<Longrightarrow> nr_notification_id r = None \<Longrightarrow>
    row_step rows rows'"
| activated: "activate d i rows = Inr rows' \<Longrightarrow> i \<noteq> [] \<Longrightarrow> row_step rows rows'"
| retired: "row_for_delivery rows d = Some r \<Longrightarrow> nr_state r \<in> {Prepared, Active} \<Longrightarrow> n \<notin> {Prepared, Active} \<Longrightarrow>
    row_step rows (retire_row d n reason rows)"

text \<open>The invariant: the unique columns, and a banner for every active row.\<close>

definition wf_rows :: "NotificationRow list \<Rightarrow> bool" where
  "wf_rows rows =
     (distinct (map nr_delivery_id rows) \<and> distinct (map nr_correlation_token rows)
      \<and> (\<forall>r \<in> set rows. \<forall>s \<in> set rows. nr_notification_id r \<noteq> None \<and> nr_notification_id s = nr_notification_id r
            \<longrightarrow> nr_delivery_id s = nr_delivery_id r)
      \<and> (\<forall>r \<in> set rows. nr_state r = Active \<longrightarrow> truthy (nr_notification_id r))
      \<and> (\<forall>r \<in> set rows. nr_state r = Prepared \<longrightarrow> nr_notification_id r = None))"

text \<open>The life of a row: the claim never changes, a retired row never does, an active one keeps its banner.\<close>

definition claim_of :: "NotificationRow \<Rightarrow> NotificationRow" where
  "claim_of r = r\<lparr>nr_notification_id := None, nr_state := Prepared, nr_retired_reason := None\<rparr>"

definition banner_advances :: "NotificationRow \<Rightarrow> NotificationRow \<Rightarrow> bool" where
  "banner_advances r r' =
     (claim_of r' = claim_of r
      \<and> (r' = r \<or> nr_state r = Prepared \<and> nr_state r' \<noteq> Prepared
         \<or> nr_state r = Active \<and> nr_state r' \<notin> {Prepared, Active} \<and> nr_notification_id r' = nr_notification_id r))"

definition rows_advance :: "NotificationRow list \<Rightarrow> NotificationRow list \<Rightarrow> bool" where
  "rows_advance rows rows' = (\<exists>old new. rows' = old @ new \<and> list_all2 banner_advances rows old)"

lemma banner_advances_refl: "banner_advances r r"
  by (simp add: banner_advances_def)

lemma banner_advances_trans: "banner_advances r s \<Longrightarrow> banner_advances s t \<Longrightarrow> banner_advances r t"
  by (auto simp: banner_advances_def)

lemma rows_advance_refl: "rows_advance rows rows"
  unfolding rows_advance_def by (intro exI[of _ rows] exI[of _ "[]"]) (simp add: list_all2_refl banner_advances_refl)

lemma rows_advance_trans:
  assumes "rows_advance a b" "rows_advance b c"
  shows "rows_advance a c"
proof -
  from assms(1) obtain old new where 1: "b = old @ new" "list_all2 banner_advances a old" by (auto simp: rows_advance_def)
  from assms(2) obtain old' new' where 2: "c = old' @ new'" "list_all2 banner_advances b old'" by (auto simp: rows_advance_def)
  from 1 2(2) obtain u v where 3: "old' = u @ v" "list_all2 banner_advances old u"
    by (auto simp: list_all2_append1)
  have "list_all2 banner_advances a u" using list_all2_trans[OF banner_advances_trans 1(2) 3(2)] .
  with 2(1) 3(1) show ?thesis by (auto simp: rows_advance_def)
qed

lemma rows_advance_update:
  assumes "\<And>r. r \<in> set rows \<Longrightarrow> P r \<Longrightarrow> banner_advances r (f r)"
  shows "rows_advance rows (update_where P f rows)"
  unfolding rows_advance_def
  by (intro exI[of _ "update_where P f rows"] exI[of _ "[]"])
    (use assms banner_advances_refl in \<open>auto simp: update_where_def list_all2_map2 list.rel_refl_strong\<close>)

lemma row_for_delivery_unique:
  "distinct (map nr_delivery_id rows) \<Longrightarrow> row_for_delivery rows d = Some r \<longleftrightarrow> r \<in> set rows \<and> nr_delivery_id r = d"
  unfolding row_for_delivery_def by (rule fetchone_key_iff)

lemma row_step_advances:
  assumes "row_step rows rows'" "wf_rows rows"
  shows "rows_advance rows rows'"
  using assms
proof (cases rule: row_step.cases)
  case (inserted r)
  then have "rows' = rows @ [r]" by (auto simp: insert_notification_def split: if_splits)
  then show ?thesis unfolding rows_advance_def using list_all2_refl[of banner_advances, OF banner_advances_refl] by blast
next
  case (activated d i)
  then have "rows' = update_where (\<lambda>r. nr_delivery_id r = d \<and> nr_state r = Prepared)
      (\<lambda>r. r\<lparr>nr_notification_id := Some i, nr_state := Active\<rparr>) rows"
    by (auto simp: activate_def Let_def split: if_splits)
  then show ?thesis by (auto simp: banner_advances_def claim_of_def intro!: rows_advance_update)
next
  case (retired d r n reason)
  have uniq: "x = r" if "x \<in> set rows" "nr_delivery_id x = d" for x
    using that retired(2) assms(2) row_for_delivery_unique[of rows d] unfolding wf_rows_def by (metis option.inject)
  have "banner_advances r (r\<lparr>nr_state := n, nr_retired_reason := Some reason\<rparr>)"
    using retired(3,4) by (auto simp: banner_advances_def claim_of_def)
  with uniq show ?thesis
    unfolding retired(1) retire_row_def by (intro rows_advance_update) blast
qed

lemma wf_rowsI:
  assumes "distinct (map nr_delivery_id rows)" "distinct (map nr_correlation_token rows)"
    and "\<And>r s. r \<in> set rows \<Longrightarrow> s \<in> set rows \<Longrightarrow> nr_notification_id r \<noteq> None \<Longrightarrow>
      nr_notification_id s = nr_notification_id r \<Longrightarrow> nr_delivery_id s = nr_delivery_id r"
    and "\<And>r. r \<in> set rows \<Longrightarrow> nr_state r = Active \<Longrightarrow> truthy (nr_notification_id r)"
    and "\<And>r. r \<in> set rows \<Longrightarrow> nr_state r = Prepared \<Longrightarrow> nr_notification_id r = None"
  shows "wf_rows rows"
  unfolding wf_rows_def using assms by blast

lemma wf_rowsD:
  assumes "wf_rows rows"
  shows "distinct (map nr_delivery_id rows)" "distinct (map nr_correlation_token rows)"
    and "r \<in> set rows \<Longrightarrow> s \<in> set rows \<Longrightarrow> nr_notification_id r \<noteq> None \<Longrightarrow>
      nr_notification_id s = nr_notification_id r \<Longrightarrow> nr_delivery_id s = nr_delivery_id r"
    and "r \<in> set rows \<Longrightarrow> nr_state r = Active \<Longrightarrow> truthy (nr_notification_id r)"
    and "r \<in> set rows \<Longrightarrow> nr_state r = Prepared \<Longrightarrow> nr_notification_id r = None"
  using assms unfolding wf_rows_def by blast+

lemma row_step_wf:
  assumes "row_step rows rows'" "wf_rows rows"
  shows "wf_rows rows'"
  using assms
proof (cases rule: row_step.cases)
  case (inserted r)
  then have "rows' = rows @ [r]" "nr_delivery_id r \<notin> nr_delivery_id ` set rows"
    "nr_correlation_token r \<notin> nr_correlation_token ` set rows"
    by (auto simp: insert_notification_def split: if_splits)
  note new = this
  have "nr_delivery_id t = nr_delivery_id s"
    if "s \<in> set rows'" "t \<in> set rows'" "nr_notification_id s \<noteq> None" "nr_notification_id t = nr_notification_id s" for s t
  proof -
    have "s \<in> set rows" "t \<in> set rows" using that inserted(3) unfolding new(1) by auto
    with wf_rowsD(3)[OF assms(2)] that show ?thesis by blast
  qed
  moreover have "nr_state s = Active \<longrightarrow> truthy (nr_notification_id s)" "nr_state s = Prepared \<longrightarrow> nr_notification_id s = None"
    if "s \<in> set rows'" for s
    using that inserted(2,3) wf_rowsD(4,5)[OF assms(2)] unfolding new(1) by auto
  moreover have "distinct (map nr_delivery_id rows')" "distinct (map nr_correlation_token rows')"
    using new wf_rowsD(1,2)[OF assms(2)] by simp_all
  ultimately show ?thesis by (intro wf_rowsI) blast+
next
  case (activated d i)
  let ?P = "\<lambda>r. nr_delivery_id r = d \<and> nr_state r = Prepared"
  have rows': "rows' = update_where ?P (\<lambda>r. r\<lparr>nr_notification_id := Some i, nr_state := Active\<rparr>) rows"
    and free: "filter ?P rows = [] \<or> Some i \<notin> nr_notification_id ` set (filter (\<lambda>r. \<not> ?P r) rows)"
    using activated(1) by (auto simp: activate_def Let_def split: if_splits)
  have fresh: "nr_notification_id s \<noteq> Some i" if "r \<in> set rows" "?P r" "s \<in> set rows" "\<not> ?P s" for r s
  proof -
    have ne: "filter ?P rows \<noteq> []" using that(1,2) by (auto simp: filter_empty_conv)
    have "nr_notification_id s \<in> nr_notification_id ` set (filter (\<lambda>r. \<not> ?P r) rows)"
      using that(3,4) by (intro imageI) simp
    with free ne show ?thesis by (elim disjE) (blast, metis (no_types))
  qed
  have keys: "map nr_delivery_id rows' = map nr_delivery_id rows" "map nr_correlation_token rows' = map nr_correlation_token rows"
    unfolding rows' by (simp_all add: update_where_map_key)
  have "nr_delivery_id s = nr_delivery_id r"
    if "r \<in> set rows'" "s \<in> set rows'" "nr_notification_id r \<noteq> None" "nr_notification_id s = nr_notification_id r" for r s
  proof -
    from that(1,2) obtain x y where x: "x \<in> set rows" "r = (if ?P x then x\<lparr>nr_notification_id := Some i, nr_state := Active\<rparr> else x)"
      and y: "y \<in> set rows" "s = (if ?P y then y\<lparr>nr_notification_id := Some i, nr_state := Active\<rparr> else y)"
      unfolding rows' by (auto dest!: set_update_whereD)
    have same: "?P x \<longleftrightarrow> ?P y"
    proof (rule ccontr)
      assume "\<not> ?thesis"
      then consider "?P x" "\<not> ?P y" | "\<not> ?P x" "?P y" by blast
      then show False
      proof cases
        case 1
        then have "nr_notification_id r = Some i" "s = y" using x(2) y(2) by auto
        with that(4) fresh[OF x(1) _ y(1)] 1 show False by simp
      next
        case 2
        then have "nr_notification_id s = Some i" "r = x" using x(2) y(2) by auto
        with that(4) fresh[OF y(1) _ x(1)] 2 show False by simp
      qed
    qed
    show ?thesis
    proof (cases "?P x")
      case True
      with same x(2) y(2) show ?thesis by auto
    next
      case False
      with same x(2) y(2) have "r = x" "s = y" by auto
      with wf_rowsD(3)[OF assms(2) x(1) y(1)] that(3,4) show ?thesis by simp
    qed
  qed
  moreover have "nr_state r = Active \<longrightarrow> truthy (nr_notification_id r)" "nr_state r = Prepared \<longrightarrow> nr_notification_id r = None"
    if "r \<in> set rows'" for r
    using that wf_rowsD(4,5)[OF assms(2)] activated(2) unfolding rows' by (auto dest!: set_update_whereD)
  moreover have "distinct (map nr_delivery_id rows')" "distinct (map nr_correlation_token rows')"
    using keys wf_rowsD(1,2)[OF assms(2)] by simp_all
  ultimately show ?thesis by (intro wf_rowsI) blast+
next
  case (retired d r n reason)
  have keys: "map nr_delivery_id rows' = map nr_delivery_id rows" "map nr_correlation_token rows' = map nr_correlation_token rows"
    unfolding retired(1) retire_row_def by (simp_all add: update_where_map_key)
  have row: "\<exists>x \<in> set rows. nr_delivery_id x = nr_delivery_id y \<and> nr_notification_id x = nr_notification_id y
      \<and> (nr_state y = nr_state x \<or> nr_state y \<notin> {Prepared, Active})" if "y \<in> set rows'" for y
  proof -
    from that obtain x where x: "x \<in> set rows"
      "y = (if nr_delivery_id x = d then x\<lparr>nr_state := n, nr_retired_reason := Some reason\<rparr> else x)"
      unfolding retired(1) retire_row_def by (auto dest!: set_update_whereD)
    with retired(4) show ?thesis by (intro bexI[of _ x]) auto
  qed
  have "nr_delivery_id s = nr_delivery_id r'"
    if "r' \<in> set rows'" "s \<in> set rows'" "nr_notification_id r' \<noteq> None" "nr_notification_id s = nr_notification_id r'" for r' s
    using row[OF that(1)] row[OF that(2)] that(3,4) wf_rowsD(3)[OF assms(2)] by metis
  moreover have "nr_state y = Active \<longrightarrow> truthy (nr_notification_id y)" "nr_state y = Prepared \<longrightarrow> nr_notification_id y = None"
    if "y \<in> set rows'" for y
    using row[OF that] wf_rowsD(4,5)[OF assms(2)] by (metis insertCI)+
  moreover have "distinct (map nr_delivery_id rows')" "distinct (map nr_correlation_token rows')"
    using keys wf_rowsD(1,2)[OF assms(2)] by simp_all
  ultimately show ?thesis by (intro wf_rowsI) blast+
qed

interpretation banners: progress_system "\<lambda>rows. rows = []" row_step wf_rows rows_advance
  by unfold_locales
    (auto simp: wf_rows_def[of "[]"] rows_advance_refl intro: rows_advance_trans row_step_wf row_step_advances)

section \<open>Operations as sequences of steps\<close>

text \<open>A relation between the states before and after, that every piece of an operation respects: first for pieces that
  create no banner, then with the call that does, then with changes of the table.\<close>

locale op_relation =
  fixes env :: "'h lifecycle_env" and R :: "'h lifecycle \<Rightarrow> 'h lifecycle \<Rightarrow> bool"
  assumes R_refl: "R st st"
    and R_trans: "R a b \<Longrightarrow> R b c \<Longrightarrow> R a c"
    and R_call: "m \<noteq> ''notification.create_for_target'' \<Longrightarrow> R st (snd (call_op env m p st))"
begin

definition within :: "('h, 'a) op \<Rightarrow> bool" where
  "within m = (\<forall>st. R st (snd (m st)))"

lemma withinI: "(\<And>st r st'. m st = (r, st') \<Longrightarrow> R st st') \<Longrightarrow> within m"
  unfolding within_def by (metis prod.collapse)

lemma withinD: "within m \<Longrightarrow> m st = (r, st') \<Longrightarrow> R st st'"
  unfolding within_def by (metis snd_conv)

lemma within_return: "within (return_op a)"
  and within_raise: "within (raise_op e)"
  by (simp_all add: within_def return_op_def raise_op_def R_refl)

lemma within_call: "m \<noteq> ''notification.create_for_target'' \<Longrightarrow> within (call_op env m p)"
  by (simp add: within_def R_call)

lemma within_bind_res:
  assumes "within m" "\<And>a. Q a \<Longrightarrow> within (f a)" "\<And>st a st'. m st = (Inr a, st') \<Longrightarrow> Q a"
  shows "within (bind_op m f)"
proof (rule withinI)
  fix st r' st2
  assume f: "bind_op m f st = (r', st2)"
  obtain r st1 where m: "m st = (r, st1)" by fastforce
  have "R st1 st2"
    using f m withinD[OF assms(2), of _ st1 r' st2] assms(3)[of st _ st1] R_refl by (cases r) (auto simp: bind_op_def)
  with withinD[OF assms(1) m] show "R st st2" by (rule R_trans)
qed

lemma within_bind: "within m \<Longrightarrow> (\<And>a. within (f a)) \<Longrightarrow> within (bind_op m f)"
  by (rule within_bind_res[where Q = "\<lambda>_. True"]) simp_all

lemma within_each: "(\<And>x. x \<in> set xs \<Longrightarrow> within (f x)) \<Longrightarrow> within (each_op f xs)"
  by (induction xs) (auto intro: within_bind within_return)

lemma within_matching: "within (matching_notifications env row)"
  unfolding matching_notifications_def
  by (rule within_bind) (auto intro: within_call within_raise within_return split: option.split)

lemma within_exists: "within (notification_exists env i)"
  unfolding notification_exists_def by (intro within_bind within_call within_return) simp

lemma within_one_banner: "within (one_banner matches)"
  by (auto simp: one_banner_def intro: within_return within_raise split: list.split json.split)

lemma within_dismiss: "within (dismiss env i)"
proof (rule withinI)
  fix st r' st'
  assume d: "dismiss env i st = (r', st')"
  obtain r st1 where c: "call_op env ''notification.dismiss'' [(''id'', JStr i)] st = (r, st1)" by fastforce
  have "within (bind_op (notification_exists env i) (\<lambda>there. if there then raise_op e else return_op ()))" for e
    by (rule within_bind[OF within_exists]) (simp add: within_raise within_return)
  from withinD[OF this, of _ st1] have "R st1 st'"
    using c d R_refl by (cases r) (auto simp: dismiss_def split: py_exc.splits)
  moreover have "R st st1" using R_call[of "''notification.dismiss''" st "[(''id'', JStr i)]"] c by simp
  ultimately show "R st st'" using R_trans by blast
qed

lemma within_banner_ids: "within (banner_ids env row)"
  unfolding banner_ids_def by (auto intro: within_return within_bind within_matching)

end

locale op_relation_create = op_relation +
  assumes R_create: "R st (snd (call_op env ''notification.create_for_target'' p st))"
begin

lemma within_any_call: "within (call_op env m p)"
  using R_create R_call by (cases "m = ''notification.create_for_target''") (simp_all add: within_def)

lemma within_announce: "within (announce env w v row)"
  unfolding announce_def
  by (intro within_bind within_matching within_one_banner) (auto intro: within_bind within_any_call within_matching within_return)

end

locale op_relation_rows = op_relation +
  assumes R_rows: "R st (st\<lparr>nl_rows := rows\<rparr>)"
begin

lemma within_update: "within (update_rows f)"
  by (rule withinI) (auto simp: update_rows_def R_refl R_rows split: sum.splits)

lemma within_retire: "within (retire_delivery env d reason n)"
proof (rule withinI)
  fix st r st'
  assume r: "retire_delivery env d reason n st = (r, st')"
  have "within (bind_op (banner_ids env row) (\<lambda>ids. bind_op (each_op (dismiss env) ids) (\<lambda>_.
      bind_op (update_rows (\<lambda>rows. Inr (retire_row d n reason rows))) (\<lambda>_. return_op True))))" for row
    by (intro within_bind within_banner_ids within_each within_dismiss within_update within_return)
  from withinD[OF this] r R_refl show "R st st'" by (auto simp: retire_delivery_def split: option.splits if_splits)
qed

lemma within_expire: "within (expire env cutoff)"
  unfolding within_def expire_def Let_def
  by (intro allI withinD[OF _ prod.collapse[symmetric]] within_bind within_each within_return within_retire)

lemma within_enforce_cap: "within (enforce_cap env seat keep)"
  unfolding within_def enforce_cap_def Let_def
  by (intro allI withinD[OF _ prod.collapse[symmetric]] within_each within_retire)

end

interpretation keeps: op_relation_create env "\<lambda>st st'. nl_rows st' = nl_rows st" for env
  by unfold_locales (auto simp: call_op_def split: prod.split)

interpretation steps: op_relation_create env "\<lambda>st st'. row_step\<^sup>*\<^sup>* (nl_rows st) (nl_rows st')" for env
  by unfold_locales (auto simp: call_op_def split: prod.split)

definition live :: "NotificationRow list \<Rightarrow> string \<Rightarrow> bool" where
  "live rows d = (\<exists>row. row_for_delivery rows d = Some row \<and> nr_state row \<in> {Prepared, Active})"

lemma retire_delivery_cases:
  assumes "retire_delivery env d reason n st = (r, st')"
  obtains (raised) e where "r = Inl e" "nl_rows st' = nl_rows st"
  | (absent) "\<not> live (nl_rows st) d" "r = Inr False" "st' = st"
  | (retired) "live (nl_rows st) d" "r = Inr True" "nl_rows st' = retire_row d n reason (nl_rows st)"
proof (cases "live (nl_rows st) d")
  case False
  then have "r = Inr False \<and> st' = st"
    using assms by (auto simp: retire_delivery_def live_def split: option.splits if_splits)
  then show thesis using absent False by simp
next
  case True
  then obtain row where row: "row_for_delivery (nl_rows st) d = Some row" "nr_state row \<in> {Prepared, Active}"
    by (auto simp: live_def)
  have k: "keeps.within (bind_op (banner_ids env row) (\<lambda>ids. each_op (dismiss env) ids))"
    by (intro keeps.within_bind keeps.within_banner_ids keeps.within_each keeps.within_dismiss)
  obtain q st1 where q: "bind_op (banner_ids env row) (\<lambda>ids. each_op (dismiss env) ids) st = (q, st1)" by fastforce
  have same: "nl_rows st1 = nl_rows st" using keeps.withinD[OF k q] by simp
  have "retire_delivery env d reason n st =
      (case q of Inl e \<Rightarrow> (Inl e, st1) | Inr _ \<Rightarrow> (Inr True, st1\<lparr>nl_rows := retire_row d n reason (nl_rows st1)\<rparr>))"
    using row q by (auto simp: retire_delivery_def bind_op_def update_rows_def return_op_def split: prod.splits sum.splits)
  with assms True same raised retired show thesis by (cases q) auto
qed

lemma retire_delivery_steps: "n \<notin> {Prepared, Active} \<Longrightarrow> steps.within (retire_delivery env d reason n)"
  unfolding steps.within_def
proof
  fix st
  assume n: "n \<notin> {Prepared, Active}"
  obtain r st' where r: "retire_delivery env d reason n st = (r, st')" by fastforce
  then show "row_step\<^sup>*\<^sup>* (nl_rows st) (nl_rows (snd (retire_delivery env d reason n st)))"
  proof (cases rule: retire_delivery_cases)
    case retired
    then have "row_step (nl_rows st) (nl_rows st')" using n by (auto simp: live_def intro: row_step.retired)
    then show ?thesis using r by auto
  qed (use r in auto)
qed

lemma expire_steps: "steps.within (expire env cutoff)"
  unfolding steps.within_def
proof
  fix st
  show "row_step\<^sup>*\<^sup>* (nl_rows st) (nl_rows (snd (expire env cutoff st)))"
    unfolding expire_def Let_def
    by (intro steps.withinD[OF _ prod.collapse[symmetric]] steps.within_bind steps.within_each steps.within_return retire_delivery_steps) simp
qed

lemma enforce_cap_steps: "steps.within (enforce_cap env seat keep)"
  unfolding steps.within_def
proof
  fix st
  show "row_step\<^sup>*\<^sup>* (nl_rows st) (nl_rows (snd (enforce_cap env seat keep st)))"
    unfolding enforce_cap_def Let_def
    by (intro steps.withinD[OF _ prod.collapse[symmetric]] steps.within_each retire_delivery_steps) simp
qed

lemma claim_delivery_cases:
  assumes "claim_delivery claim st = (r, st')"
  obtains (raised) e where "r = Inl e" "st' = st"
  | (known) row x where "r = Inr (Inr x)" "st' = st" "row_for_delivery (nl_rows st) (nr_delivery_id claim) = Some row"
      "nr_state row = Active" "to_record row = Inr x"
  | (pending) row where "r = Inr (Inl row)" "st' = st" "row_for_delivery (nl_rows st) (nr_delivery_id claim) = Some row"
      "nr_state row = Prepared" "same_claim row claim"
  | (new) rows where "r = Inr (Inl claim)" "insert_notification claim (nl_rows st) = Inr rows" "st' = st\<lparr>nl_rows := rows\<rparr>"
      "row_for_delivery (nl_rows st) (nr_delivery_id claim) = None"
proof (cases "row_for_delivery (nl_rows st) (nr_delivery_id claim)")
  case (Some row)
  then show thesis
    using assms that
    by (auto simp: claim_delivery_def assert_same_claim_def bind_op_def return_op_def raise_op_def
        split: if_splits sum.splits)
next
  case None
  show thesis
  proof (cases "insert_notification claim (nl_rows st)")
    case (Inl e)
    then have "e = IntegrityError" by (auto simp: insert_notification_def split: if_splits)
    with Inl None assms have "r = Inl (NotificationLifecycleError ''notification_claim_conflict'')" "st' = st"
      by (auto simp: claim_delivery_def)
    then show thesis by (rule raised)
  next
    case (Inr rows)
    then have "rows = nl_rows st @ [claim]" by (auto simp: insert_notification_def split: if_splits)
    with None have "row_for_delivery rows (nr_delivery_id claim) = Some claim"
      by (simp add: row_for_delivery_def fetchone_append)
    with None Inr assms show thesis by (intro new) (auto simp: claim_delivery_def)
  qed
qed

lemma claim_delivery_steps:
  assumes "nr_state claim = Prepared" "nr_notification_id claim = None"
  shows "steps.within (claim_delivery claim)"
  unfolding steps.within_def
proof
  fix st
  obtain r st' where r: "claim_delivery claim st = (r, st')" by fastforce
  then show "row_step\<^sup>*\<^sup>* (nl_rows st) (nl_rows (snd (claim_delivery claim st)))"
    by (cases rule: claim_delivery_cases) (use r assms in \<open>auto intro!: r_into_rtranclp row_step.inserted\<close>)
qed

lemma announce_id:
  assumes "announce env w v row st = (Inr i, st')"
  shows "i \<noteq> []"
  using assms by (auto simp: announce_def one_banner_def bind_op_def return_op_def raise_op_def
      split: prod.splits sum.splits list.splits json.splits if_splits)

lemma activate_steps: "i \<noteq> [] \<Longrightarrow> steps.within (update_rows (activate d i))"
  by (auto simp: steps.within_def update_rows_def intro!: r_into_rtranclp row_step.activated split: sum.split)

lemma claim_row_fields:
  "nr_state (claim_row env now e d s w v t b sub) = Prepared" "nr_notification_id (claim_row env now e d s w v t b sub) = None"
  "nr_delivery_id (claim_row env now e d s w v t b sub) = d" "nr_seat_id (claim_row env now e d s w v t b sub) = s"
  by (simp_all add: claim_row_def Let_def)

lemma read_back_steps:
  "steps.within (\<lambda>st. case row_for_delivery (nl_rows st) d of None \<Rightarrow> (Inl AssertionError, st) | Some a \<Rightarrow> (to_record a, st))"
  by (auto simp: steps.within_def split: option.split)

lemma announce_then_steps:
  "(\<And>i. i \<noteq> [] \<Longrightarrow> steps.within (f i)) \<Longrightarrow> steps.within (bind_op (announce env w v row) f)"
  using announce_id by (intro steps.within_bind_res[where Q = "\<lambda>i. i \<noteq> []"] steps.within_announce) blast+

lemma publish_steps: "steps.within (publish env now e d s w v t b sub)"
  unfolding publish_def
  by (rule steps.within_bind[OF expire_steps], rule steps.within_bind[OF claim_delivery_steps])
    (auto simp: claim_row_fields split: sum.split
      intro!: steps.within_return announce_then_steps steps.within_bind activate_steps enforce_cap_steps read_back_steps)

text \<open>A run of the lifecycle, with a host that may change on its own.\<close>

inductive lifecycle_step :: "'h lifecycle_env \<Rightarrow> 'h lifecycle \<Rightarrow> 'h lifecycle \<Rightarrow> bool" for env where
  published: "lifecycle_step env st (snd (publish env now e d s w v t b sub st))"
| received: "lifecycle_step env st (snd (on_receipt env e d status state cls st))"
| read: "lifecycle_step env st (snd (on_notification_read env i st))"
| expired: "lifecycle_step env st (snd (expire env cutoff st))"
| host_moved: "lifecycle_step env st (st\<lparr>nl_host := h\<rparr>)"

lemma on_receipt_steps: "steps.within (on_receipt env e d status state cls)"
  using retire_delivery_steps[of Dismissed env d "''in-session-receipt''"]
  by (auto simp: steps.within_def on_receipt_def split: option.split)

lemma on_read_steps: "steps.within (on_notification_read env i)"
  using retire_delivery_steps[of Dismissed env _ "''explicit-mark-read''"]
  by (auto simp: steps.within_def on_notification_read_def split: option.split)

lemma lifecycle_rows: "(lifecycle_step env)\<^sup>*\<^sup>* st st' \<Longrightarrow> row_step\<^sup>*\<^sup>* (nl_rows st) (nl_rows st')"
proof (induction rule: rtranclp_induct)
  case (step u v)
  from step.hyps(2) have "row_step\<^sup>*\<^sup>* (nl_rows u) (nl_rows v)"
    by cases (auto intro: steps.withinD[OF publish_steps prod.collapse[symmetric]]
        steps.withinD[OF on_receipt_steps prod.collapse[symmetric]] steps.withinD[OF on_read_steps prod.collapse[symmetric]]
        steps.withinD[OF expire_steps prod.collapse[symmetric]])
  with step.IH show ?case by (rule rtranclp_trans)
qed simp

section \<open>Retiring several deliveries\<close>

lemma live_member:
  "distinct (map nr_delivery_id rows) \<Longrightarrow> r \<in> set rows \<Longrightarrow> nr_state r \<in> {Prepared, Active} \<Longrightarrow> live rows (nr_delivery_id r)"
  unfolding live_def using row_for_delivery_unique by blast

definition retire_rows :: "string set \<Rightarrow> NotificationState \<Rightarrow> string \<Rightarrow> NotificationRow list \<Rightarrow> NotificationRow list" where
  "retire_rows D n reason rows =
     update_where (\<lambda>r. nr_delivery_id r \<in> D) (\<lambda>r. r\<lparr>nr_state := n, nr_retired_reason := Some reason\<rparr>) rows"

lemma retire_rows_empty: "retire_rows {} n reason rows = rows"
  by (simp add: retire_rows_def update_where_def)

lemma retire_rows_insert:
  "retire_rows D n reason (retire_row d n reason rows) = retire_rows (insert d D) n reason rows"
  by (auto simp: retire_rows_def retire_row_def update_where_def)

lemma live_retire_row: "d' \<noteq> d \<Longrightarrow> live (retire_row d n reason rows) d' \<longleftrightarrow> live rows d'"
proof -
  assume "d' \<noteq> d"
  then have "row_for_delivery (retire_row d n reason rows) d' = row_for_delivery rows d'"
    by (induction rows) (auto simp: row_for_delivery_def retire_row_def update_where_def)
  then show ?thesis by (simp add: live_def)
qed

lemma retire_each:
  assumes "each_op (\<lambda>r. retire_delivery env (nr_delivery_id r) reason n) xs st = (Inr u, st')"
    and "distinct (map nr_delivery_id xs)" "\<And>r. r \<in> set xs \<Longrightarrow> live (nl_rows st) (nr_delivery_id r)"
  shows "nl_rows st' = retire_rows (nr_delivery_id ` set xs) n reason (nl_rows st)"
  using assms
proof (induction xs arbitrary: st)
  case Nil
  then show ?case by (simp add: return_op_def retire_rows_empty)
next
  case (Cons x xs)
  obtain r st1 where r: "retire_delivery env (nr_delivery_id x) reason n st = (r, st1)" by fastforce
  have live: "live (nl_rows st) (nr_delivery_id x)" using Cons.prems(3) by simp
  from r show ?case
  proof (cases rule: retire_delivery_cases)
    case (raised e)
    with Cons.prems(1) r show ?thesis by (simp add: bind_op_def)
  next
    case absent
    with live show ?thesis by simp
  next
    case retired
    with Cons.prems(1) r have rest: "each_op (\<lambda>r. retire_delivery env (nr_delivery_id r) reason n) xs st1 = (Inr u, st')"
      by (simp add: bind_op_def)
    have "live (nl_rows st1) (nr_delivery_id y)" if "y \<in> set xs" for y
    proof -
      have "nr_delivery_id y \<in> nr_delivery_id ` set xs" using that by (rule imageI)
      with Cons.prems(2) have "nr_delivery_id y \<noteq> nr_delivery_id x" by auto
      with live_retire_row Cons.prems(3)[of y] that retired(3) show ?thesis by simp
    qed
    with Cons.IH[OF rest] Cons.prems(2) retired(3) show ?thesis by (simp add: retire_rows_insert)
  qed
qed

lemma set_oldest_first [simp]: "set (oldest_first rows) = set rows"
  and length_oldest_first [simp]: "length (oldest_first rows) = length rows"
  by (simp_all add: oldest_first_def)

lemma distinct_oldest_first: "distinct (map f (oldest_first rows)) \<longleftrightarrow> distinct (map f rows)"
  by (simp add: oldest_first_def distinct_map)

section \<open>The cap\<close>

lemma filter_out_length:
  assumes "distinct (map f xs)" "distinct (map f ys)" "set ys \<subseteq> set xs"
  shows "length (filter (\<lambda>x. f x \<notin> f ` set ys) xs) = length xs - length ys"
proof -
  have "distinct xs" "distinct ys" using assms(1,2) by (auto simp: distinct_map)
  have "{x \<in> set xs. f x \<notin> f ` set ys} = set xs - set ys"
    using assms(1,3) by (auto simp: distinct_map inj_on_def)
  then have "card (set (filter (\<lambda>x. f x \<notin> f ` set ys) xs)) = card (set xs) - card (set ys)"
    using assms(3) by (simp add: card_Diff_subset)
  then show ?thesis
    using \<open>distinct xs\<close> \<open>distinct ys\<close> distinct_card[OF distinct_filter[OF \<open>distinct xs\<close>]] by (metis distinct_card)
qed

lemma filter_one_less:
  assumes "distinct (map f xs)" shows "length xs \<le> length (filter (\<lambda>x. f x \<noteq> k) xs) + 1"
  using assms
proof (induction xs)
  case (Cons x xs)
  show ?case
  proof (cases "f x = k")
    case True
    then have "filter (\<lambda>x. f x \<noteq> k) xs = xs" using Cons.prems by (auto simp: filter_id_conv image_iff)
    with True show ?thesis by simp
  next
    case False
    with Cons show ?thesis by simp
  qed
qed simp

lemma seat_active_retire_rows:
  "n \<noteq> Active \<Longrightarrow> seat_active seat (retire_rows D n reason rows) = filter (\<lambda>r. nr_delivery_id r \<notin> D) (seat_active seat rows)"
  by (induction rows) (auto simp: seat_active_def retire_rows_def update_where_def)

lemma row_for_retire_rows:
  "d \<notin> D \<Longrightarrow> row_for_delivery (retire_rows D n reason rows) d = row_for_delivery rows d"
  by (induction rows) (auto simp: row_for_delivery_def retire_rows_def update_where_def)

lemma distinct_seat_active: "distinct (map f rows) \<Longrightarrow> distinct (map f (seat_active seat rows))"
  by (simp add: seat_active_def distinct_map_filter)

text \<open>What the cap leaves: the cap's number of banners, the new one among them.\<close>

lemma enforce_cap_effect:
  assumes wf: "distinct (map nr_delivery_id (nl_rows st))" and cap: "1 \<le> nv_per_seat_cap env"
    and run: "enforce_cap env seat keep st = (Inr u, st')"
  shows "int (length (seat_active seat (nl_rows st'))) \<le> nv_per_seat_cap env
    \<and> row_for_delivery (nl_rows st') keep = row_for_delivery (nl_rows st) keep"
proof -
  let ?A = "seat_active seat (nl_rows st)"
  let ?S = "oldest_first ?A"
  let ?k = "nat (max 0 (int (length ?A) - nv_per_seat_cap env))"
  let ?T = "take ?k (filter (\<lambda>r. nr_delivery_id r \<noteq> keep) ?S)"
  have dA: "distinct (map nr_delivery_id ?A)" using wf by (rule distinct_seat_active)
  then have dS: "distinct (map nr_delivery_id ?S)" by (simp add: distinct_oldest_first)
  have sub: "set ?T \<subseteq> set ?A" using set_take_subset by fastforce
  have dT: "distinct (map nr_delivery_id ?T)" using dS by (simp add: take_map[symmetric] distinct_map_filter)
  have each: "each_op (\<lambda>r. retire_delivery env (nr_delivery_id r) ''per-seat-cap'' Evicted) ?T st = (Inr u, st')"
    using run by (simp add: enforce_cap_def Let_def)
  have "live (nl_rows st) (nr_delivery_id r)" if "r \<in> set ?T" for r
    using that sub wf by (intro live_member) (auto simp: seat_active_def)
  from retire_each[OF each dT this]
  have rows: "nl_rows st' = retire_rows (nr_delivery_id ` set ?T) Evicted ''per-seat-cap'' (nl_rows st)" .
  have "length (seat_active seat (nl_rows st')) = length ?A - length ?T"
    unfolding rows using filter_out_length[OF dA dT sub] by (simp add: seat_active_retire_rows)
  moreover have "length ?A \<le> length (filter (\<lambda>r. nr_delivery_id r \<noteq> keep) ?S) + 1"
    using filter_one_less[OF dS, of keep] by simp
  then have "length ?T = ?k" using cap by simp
  moreover have "row_for_delivery (nl_rows st') keep = row_for_delivery (nl_rows st) keep"
    unfolding rows by (rule row_for_retire_rows) (use set_take_subset in fastforce)
  moreover have "int (length ?A - ?k) \<le> nv_per_seat_cap env" using cap by linarith
  ultimately show ?thesis by simp
qed

text \<open>Expiry only ever takes active banners away.\<close>

lemma expire_effect:
  assumes "distinct (map nr_delivery_id (nl_rows st))" "expire env cutoff st = (Inr n, st')"
  shows "nl_rows st' = retire_rows {nr_delivery_id r |r. r \<in> set (nl_rows st) \<and> nr_state r \<in> {Prepared, Active} \<and> nr_expires_at r \<le> cutoff}
      Expired ''expired'' (nl_rows st)
    \<and> n = length (filter (\<lambda>r. nr_state r \<in> {Prepared, Active} \<and> nr_expires_at r \<le> cutoff) (nl_rows st))"
proof -
  let ?P = "\<lambda>r. nr_state r \<in> {Prepared, Active} \<and> nr_expires_at r \<le> cutoff"
  let ?xs = "oldest_first (filter ?P (nl_rows st))"
  from assms(2) have each: "each_op (\<lambda>r. retire_delivery env (nr_delivery_id r) ''expired'' Expired) ?xs st = (Inr (), st')"
    and n: "n = length ?xs"
    by (auto simp: expire_def Let_def bind_op_def return_op_def split: prod.splits sum.splits)
  have "distinct (map nr_delivery_id ?xs)"
    using assms(1) by (simp add: distinct_oldest_first distinct_map_filter)
  from retire_each[OF each this] live_member[OF assms(1)]
  have "nl_rows st' = retire_rows (nr_delivery_id ` set ?xs) Expired ''expired'' (nl_rows st)" by auto
  moreover have "nr_delivery_id ` set ?xs = {nr_delivery_id r |r. r \<in> set (nl_rows st) \<and> ?P r}" by auto
  ultimately show ?thesis using n by simp
qed

lemma seat_active_expire:
  assumes "distinct (map nr_delivery_id (nl_rows st))" "expire env cutoff st = (Inr n, st')"
  shows "length (seat_active seat (nl_rows st')) \<le> length (seat_active seat (nl_rows st))"
  using expire_effect[OF assms] by (simp add: seat_active_retire_rows)

lemma activate_effect:
  assumes "distinct (map nr_delivery_id rows)" "row_for_delivery rows d = Some row" "nr_state row = Prepared"
    and "activate d i rows = Inr rows'"
  shows "row_for_delivery rows' d = Some (row\<lparr>nr_notification_id := Some i, nr_state := Active\<rparr>)"
    and "map nr_delivery_id rows' = map nr_delivery_id rows"
proof -
  have rows': "rows' = update_where (\<lambda>r. nr_delivery_id r = d \<and> nr_state r = Prepared)
      (\<lambda>r. r\<lparr>nr_notification_id := Some i, nr_state := Active\<rparr>) rows"
    using assms(4) by (auto simp: activate_def Let_def split: if_splits)
  show "map nr_delivery_id rows' = map nr_delivery_id rows" unfolding rows' by (simp add: update_where_map_key)
  have "row_for_delivery rows' d = map_option (\<lambda>r. if d = d \<and> nr_state r = Prepared
      then r\<lparr>nr_notification_id := Some i, nr_state := Active\<rparr> else r) (row_for_delivery rows d)"
    unfolding rows' row_for_delivery_def by (rule fetchone_update_where_key[OF assms(1)]) simp
  with assms(2,3) show "row_for_delivery rows' d = Some (row\<lparr>nr_notification_id := Some i, nr_state := Active\<rparr>)" by simp
qed

lemma bind_opE:
  assumes "bind_op m f st = (Inr b, st')"
  obtains a st1 where "m st = (Inr a, st1)" "f a st1 = (Inr b, st')"
  using assms by (auto simp: bind_op_def split: prod.splits sum.splits)

text \<open>The ways in which \<open>publish\<close> returns: with a banner that was active, or with the one it activated.\<close>

lemma publish_returns:
  assumes wf: "wf_rows (nl_rows st)"
    and run: "publish env now e d s w v t b sub st = (Inr x, st')"
  obtains (known) st1 n row where "expire env now st = (Inr n, st1)" "st' = st1" "row_for_delivery (nl_rows st1) d = Some row"
      "nr_state row = Active" "to_record row = Inr x"
  | (fresh) st1 st2 n row i where "expire env now st = (Inr n, st1)" "row_for_delivery (nl_rows st1) d = None \<or>
        (\<exists>r. row_for_delivery (nl_rows st1) d = Some r \<and> nr_state r = Prepared)"
      "distinct (map nr_delivery_id (nl_rows st2))" "enforce_cap env s d st2 = (Inr (), st')"
      "row_for_delivery (nl_rows st2) d = Some (row\<lparr>nr_notification_id := Some i, nr_state := Active\<rparr>)"
      "row_for_delivery (nl_rows st') d \<noteq> None"
      "(case row_for_delivery (nl_rows st') d of None \<Rightarrow> Inl AssertionError | Some a \<Rightarrow> to_record a) = Inr x"
proof -
  let ?claim = "claim_row env now e d s w v t b sub"
  from run obtain n st1 where 1: "expire env now st = (Inr n, st1)" and run1: "bind_op (claim_delivery ?claim) (\<lambda>claimed.
       case claimed of Inr r \<Rightarrow> return_op r
       | Inl existing \<Rightarrow> bind_op (announce env w v existing) (\<lambda>i. bind_op (update_rows (activate d i)) (\<lambda>_.
           bind_op (enforce_cap env s d) (\<lambda>_ st. case row_for_delivery (nl_rows st) d of
             None \<Rightarrow> (Inl AssertionError, st) | Some active \<Rightarrow> (to_record active, st))))) st1 = (Inr x, st')"
    unfolding publish_def by (rule bind_opE)
  have wf1: "wf_rows (nl_rows st1)"
    using banners.inv_steps[OF steps.withinD[OF expire_steps 1] wf] .
  from run1 obtain c st2 where c: "claim_delivery ?claim st1 = (Inr c, st2)" and run2: "(case c of Inr r \<Rightarrow> return_op r
       | Inl existing \<Rightarrow> bind_op (announce env w v existing) (\<lambda>i. bind_op (update_rows (activate d i)) (\<lambda>_.
           bind_op (enforce_cap env s d) (\<lambda>_ st. case row_for_delivery (nl_rows st) d of
             None \<Rightarrow> (Inl AssertionError, st) | Some active \<Rightarrow> (to_record active, st))))) st2 = (Inr x, st')"
    by (rule bind_opE)
  have wf2: "wf_rows (nl_rows st2)"
    using banners.inv_steps[OF steps.withinD[OF claim_delivery_steps c] wf1] by (simp add: claim_row_fields)
  show thesis
  proof (cases c)
    case (Inr y)
    from c Inr run2 show thesis
      by (cases rule: claim_delivery_cases) (use 1 known in \<open>auto simp: return_op_def claim_row_fields\<close>)
  next
    case (Inl row)
    have row: "row_for_delivery (nl_rows st2) d = Some row" "nr_state row = Prepared" "row_for_delivery (nl_rows st1) d = None
        \<or> (\<exists>r. row_for_delivery (nl_rows st1) d = Some r \<and> nr_state r = Prepared)"
      using c Inl by (cases rule: claim_delivery_cases; auto simp: claim_row_fields row_for_delivery_def fetchone_append
          insert_notification_def split: if_splits)+
    from run2 Inl obtain i st3 where 3: "announce env w v row st2 = (Inr i, st3)"
      and run3: "bind_op (update_rows (activate d i)) (\<lambda>_. bind_op (enforce_cap env s d) (\<lambda>_ st.
          case row_for_delivery (nl_rows st) d of None \<Rightarrow> (Inl AssertionError, st) | Some active \<Rightarrow> (to_record active, st))) st3
          = (Inr x, st')" by (auto elim: bind_opE)
    have same: "nl_rows st3 = nl_rows st2" using keeps.withinD[OF keeps.within_announce 3] by simp
    from run3 obtain u st4 where 4: "update_rows (activate d i) st3 = (Inr u, st4)" and run4: "bind_op (enforce_cap env s d) (\<lambda>_ st.
          case row_for_delivery (nl_rows st) d of None \<Rightarrow> (Inl AssertionError, st) | Some active \<Rightarrow> (to_record active, st)) st4
          = (Inr x, st')" by (rule bind_opE)
    from 4 same have act: "activate d i (nl_rows st2) = Inr (nl_rows st4)"
      by (auto simp: update_rows_def split: sum.splits)
    note eff = activate_effect[OF wf_rowsD(1)[OF wf2] row(1,2) act]
    from run4 obtain u' st5 where 5: "enforce_cap env s d st4 = (Inr u', st5)" "st' = st5"
      "(case row_for_delivery (nl_rows st') d of None \<Rightarrow> Inl AssertionError | Some a \<Rightarrow> to_record a) = Inr x"
      by (elim bind_opE) (auto split: option.splits)
    show thesis
      using fresh[OF 1 row(3) _ _ eff(1)] eff(2) wf_rowsD(1)[OF wf2] 5 by (auto split: option.splits)
  qed
qed

section \<open>What the host sees\<close>

text \<open>A host whose answers may depend on every call before, and that writes down calls and answers.\<close>

type_synonym host_call = "string \<times> frame \<times> json res"

definition observed_env ::
  "(string \<Rightarrow> frame \<Rightarrow> host_call list \<Rightarrow> json res) \<Rightarrow> int \<Rightarrow> int \<Rightarrow> host_call list lifecycle_env" where
  "observed_env answer cap ttl =
     \<lparr>nv_call = (\<lambda>m p calls. (answer m p calls, calls @ [(m, p, answer m p calls)])),
      nv_per_seat_cap = cap, nv_mailbox_ttl = ttl\<rparr>"

definition creates :: "host_call list \<Rightarrow> host_call list" where
  "creates calls = filter (\<lambda>c. fst c = ''notification.create_for_target'') calls"

lemma creates_simps [simp]:
  "creates [] = []" "creates (c # cs) = (if fst c = ''notification.create_for_target'' then c # creates cs else creates cs)"
  "creates (xs @ ys) = creates xs @ creates ys"
  by (simp_all add: creates_def)

lemma call_observed:
  "call_op (observed_env answer cap ttl) m p st =
     (answer m p (nl_host st), st\<lparr>nl_host := nl_host st @ [(m, p, answer m p (nl_host st))]\<rparr>)"
  by (simp add: call_op_def observed_env_def)

interpretation quiet: op_relation_rows "observed_env answer cap ttl"
    "\<lambda>st st'. \<exists>calls. nl_host st' = nl_host st @ calls \<and> creates calls = []" for answer cap ttl
  by unfold_locales (fastforce simp: call_observed)+

lemma claim_quiet: "claim_delivery claim st = (r, st') \<Longrightarrow> nl_host st' = nl_host st"
  by (cases rule: claim_delivery_cases) auto

text \<open>Creating a banner for a claim: at most once, and directly after the host listed none for it.\<close>

definition creates_if_absent :: "NotificationRow \<Rightarrow> host_call list \<Rightarrow> bool" where
  "creates_if_absent row calls =
     (creates calls = []
      \<or> (\<exists>pre result items params x post.
            calls = pre @ (''notification.list'', [], Inr result) # (''notification.create_for_target'', params, x) # post
            \<and> creates pre = [] \<and> creates post = [] \<and> listed result = Some items \<and> matching row items = []))"

lemma creates_if_absent_append:
  assumes "creates_if_absent row calls" "creates before = []" "creates after = []"
  shows "creates_if_absent row (before @ calls @ after)"
proof (cases "creates calls = []")
  case True
  with assms(2,3) show ?thesis by (simp add: creates_if_absent_def)
next
  case False
  with assms(1) obtain pre result items params x post where
    "calls = pre @ (''notification.list'', [], Inr result) # (''notification.create_for_target'', params, x) # post"
    "creates pre = []" "creates post = []" "listed result = Some items" "matching row items = []"
    unfolding creates_if_absent_def by blast
  with assms(2,3) show ?thesis
    unfolding creates_if_absent_def
    by (intro disjI2 exI[of _ "before @ pre"] exI[of _ result] exI[of _ items] exI[of _ params] exI[of _ x]
        exI[of _ "post @ after"]) simp
qed

lemma announce_calls:
  assumes "announce (observed_env answer cap ttl) w v row st = (r, st')"
  shows "\<exists>calls. nl_host st' = nl_host st @ calls \<and> creates_if_absent row calls"
proof -
  let ?env = "observed_env answer cap ttl"
  let ?l = "answer ''notification.list'' [] (nl_host st)"
  let ?c1 = "(''notification.list'', [], ?l)"
  let ?st1 = "st\<lparr>nl_host := nl_host st @ [?c1]\<rparr>"
  have keep: "snd (one_banner ms u) = u" for ms and u :: "host_call list lifecycle"
    by (simp add: one_banner_def raise_op_def return_op_def split: list.split json.split)
  have one: "creates_if_absent row [?c1]" by (simp add: creates_if_absent_def)
  consider (bad) "isl ?l \<or> (\<exists>a. ?l = Inr a \<and> listed a = None)"
    | (found) a items where "?l = Inr a" "listed a = Some items" "matching row items \<noteq> []"
    | (none) a items where "?l = Inr a" "listed a = Some items" "matching row items = []"
    by (cases ?l) auto
  then show ?thesis
  proof cases
    case bad
    then have "st' = ?st1"
      using assms by (cases ?l) (auto simp: announce_def matching_notifications_def bind_op_def call_observed raise_op_def)
    with one show ?thesis by auto
  next
    case found
    then have "st' = ?st1"
      using assms keep[of "matching row items" ?st1]
      by (auto simp: announce_def matching_notifications_def bind_op_def call_observed return_op_def)
    with one show ?thesis by auto
  next
    case none
    let ?p = "create_params w v row"
    let ?a = "answer ''notification.create_for_target'' ?p (nl_host ?st1)"
    let ?st2 = "?st1\<lparr>nl_host := nl_host ?st1 @ [(''notification.create_for_target'', ?p, ?a)]\<rparr>"
    obtain q st3 where q: "bind_op (matching_notifications ?env row) one_banner ?st2 = (q, st3)" by fastforce
    have "quiet.within (bind_op (matching_notifications ?env row) one_banner)"
      by (intro quiet.within_bind quiet.within_matching quiet.within_one_banner)
    from quiet.withinD[OF this, OF q] obtain post where post: "nl_host st3 = nl_host ?st2 @ post" "creates post = []" by blast
    have first: "matching_notifications ?env row st = (Inr [], ?st1)"
      using none by (simp add: matching_notifications_def bind_op_def call_observed return_op_def)
    have "announce ?env w v row st = (case ?a of Inl e \<Rightarrow> (Inl e, ?st2) | Inr _ \<Rightarrow> (q, st3))"
      unfolding announce_def bind_op_def[of _ _ st] first
      using q by (cases ?a) (simp_all add: bind_op_def[of _ one_banner] bind_op_def[of "call_op _ _ _"] call_observed[of _ _ _ "''notification.create_for_target''"])
    then have "st' = (if isl ?a then ?st2 else st3)" using assms by (cases ?a) auto
    then have "\<exists>post. creates post = [] \<and> nl_host st' = nl_host st @ ([?c1, (''notification.create_for_target'', ?p, ?a)] @ post)"
      using post by (cases "isl ?a") auto
    moreover have "creates_if_absent row ([?c1, (''notification.create_for_target'', ?p, ?a)] @ post)" if "creates post = []" for post
      unfolding creates_if_absent_def using none that by (intro disjI2 exI[of _ "[]"]) auto
    ultimately show ?thesis by blast
  qed
qed

lemma publish_calls:
  assumes run: "publish (observed_env answer cap ttl) now e d s w v t b sub st = (r, st')"
  shows "\<exists>calls. nl_host st' = nl_host st @ calls
    \<and> creates_if_absent (claim_row (observed_env answer cap ttl) now e d s w v t b sub) calls"
proof -
  let ?env = "observed_env answer cap ttl"
  let ?claim = "claim_row ?env now e d s w v t b sub"
  let ?finish = "\<lambda>i. bind_op (update_rows (activate d i)) (\<lambda>_. bind_op (enforce_cap ?env s d) (\<lambda>_ st.
      case row_for_delivery (nl_rows st) d of None \<Rightarrow> (Inl AssertionError, st) | Some active \<Rightarrow> (to_record active, st)))"
  have silent: "creates_if_absent ?claim calls" if "creates calls = []" for calls
    using that by (simp add: creates_if_absent_def)
  have finish: "quiet.within (?finish i)" for i
  proof (intro quiet.within_bind quiet.within_update quiet.within_enforce_cap quiet.withinI)
    fix st1 st2 :: "host_call list lifecycle" and r
    assume "(case row_for_delivery (nl_rows st1) d of None \<Rightarrow> (Inl AssertionError, st1) | Some active \<Rightarrow> (to_record active, st1))
        = (r, st2)"
    then have "st2 = st1" by (auto split: option.splits)
    then show "\<exists>calls. nl_host st2 = nl_host st1 @ calls \<and> creates calls = []" by simp
  qed
  obtain x1 st1 where 1: "expire ?env now st = (x1, st1)" by fastforce
  from quiet.withinD[OF quiet.within_expire, OF 1] obtain c1 where c1: "nl_host st1 = nl_host st @ c1" "creates c1 = []" by blast
  obtain x2 st2 where 2: "claim_delivery ?claim st1 = (x2, st2)" by fastforce
  have host2: "nl_host st2 = nl_host st1" using claim_quiet[OF 2] .
  consider (stop) "st' = st1 \<or> st' = st2" | (go) row where "x2 = Inr (Inl row)"
      "bind_op (announce ?env w v row) ?finish st2 = (r, st')"
    using run unfolding publish_def bind_op_def[of "expire _ _"] 1
    by (cases x1; cases x2) (auto simp: bind_op_def[of "claim_delivery _"] 2 return_op_def split: sum.splits)
  then show ?thesis
  proof cases
    case stop
    with host2 c1 silent show ?thesis by auto
  next
    case go
    have same: "matching row items = matching ?claim items" for items
      using 2 go(1) by (cases rule: claim_delivery_cases) (auto simp: same_claim_def matching_def)
    obtain x3 st3 where 3: "announce ?env w v row st2 = (x3, st3)" by fastforce
    from announce_calls[OF 3] obtain c3 where c3: "nl_host st3 = nl_host st2 @ c3" "creates_if_absent ?claim c3"
      unfolding creates_if_absent_def same by blast
    have "\<exists>c4. nl_host st' = nl_host st3 @ c4 \<and> creates c4 = []"
    proof (cases x3)
      case (Inl y)
      with go(2) 3 show ?thesis by (auto simp: bind_op_def)
    next
      case (Inr i)
      with go(2) 3 have "?finish i st3 = (r, st')" by (simp add: bind_op_def[of "announce _ _ _ _"])
      from quiet.withinD[OF finish, OF this] show ?thesis .
    qed
    then obtain c4 where c4: "nl_host st' = nl_host st3 @ c4" "creates c4 = []" by blast
    have "nl_host st' = nl_host st @ (c1 @ c3 @ c4)" using c1(1) c3(1) c4(1) host2 by simp
    with creates_if_absent_append[OF c3(2) c1(2) c4(2)] show ?thesis by blast
  qed
qed

section \<open>Properties\<close>

text \<open>C33: The banner table under any sequence of operations and any host. The unique columns stay unique and every active
  row has its banner; no row is ever lost, its claim never changes, an active row keeps its banner, and a
  row that was dismissed, expired or evicted never changes again.\<close>

theorem notification_rows_lifecycle:
  assumes "nl_rows init = []" "(lifecycle_step env)\<^sup>*\<^sup>* init st" "(lifecycle_step env)\<^sup>*\<^sup>* st st'"
  shows "wf_rows (nl_rows st) \<and> rows_advance (nl_rows st) (nl_rows st')"
  using banners.reachable_inv[OF assms(1) lifecycle_rows[OF assms(2)]]
    banners.reachable_le[OF assms(1) lifecycle_rows[OF assms(2)] lifecycle_rows[OF assms(3)]] by blast

text \<open>C34: When \<open>publish\<close> returns, the delivery has an active row with the banner that the record names; its seat has
  no more active banners than its cap, unless the banner was active before and the seat had that many already.\<close>

theorem publish_enforces_cap:
  assumes "wf_rows (nl_rows st)" "1 \<le> nv_per_seat_cap env" "publish env now e d s w v t b sub st = (Inr x, st')"
  shows "(\<exists>row. row_for_delivery (nl_rows st') d = Some row \<and> nr_state row = Active \<and> to_record row = Inr x)
    \<and> (int (length (seat_active s (nl_rows st'))) \<le> nv_per_seat_cap env
       \<or> length (seat_active s (nl_rows st')) \<le> length (seat_active s (nl_rows st))
         \<and> (\<exists>row. row_for_delivery (nl_rows st) d = Some row \<and> nr_state row = Active))"
  using assms(1,3)
proof (cases rule: publish_returns)
  case (known st1 n row)
  have dist: "distinct (map nr_delivery_id (nl_rows st))" using wf_rowsD(1)[OF assms(1)] .
  from expire_effect[OF dist known(1)] obtain D where D: "nl_rows st1 = retire_rows D Expired ''expired'' (nl_rows st)" by blast
  have "d \<notin> D"
  proof
    assume "d \<in> D"
    have "row \<in> set (nl_rows st1)" "nr_delivery_id row = d"
      using fetchone_SomeD[OF known(3)[unfolded row_for_delivery_def]] by auto
    with \<open>d \<in> D\<close> have "nr_state row = Expired" unfolding D retire_rows_def by (auto dest!: set_update_whereD split: if_splits)
    with known(4) show False by simp
  qed
  then have "row_for_delivery (nl_rows st) d = Some row" using known(3) D row_for_retire_rows by metis
  with known seat_active_expire[OF dist known(1), of s] show ?thesis by auto
next
  case (fresh st1 st2 n row i)
  from enforce_cap_effect[OF fresh(3) assms(2) fresh(4)] fresh(5,7) show ?thesis by simp
qed

text \<open>C35: One \<open>publish\<close> asks the host for at most one new banner, and only directly after the host has listed its banners
  without one for this claim. So a retry after a crash adopts the banner that the host already shows.\<close>

theorem publish_creates_once:
  assumes "publish (observed_env answer cap ttl) now e d s w v t b sub st = (r, st')"
  shows "\<exists>calls. nl_host st' = nl_host st @ calls \<and> length (creates calls) \<le> 1
    \<and> creates_if_absent (claim_row (observed_env answer cap ttl) now e d s w v t b sub) calls"
proof -
  from publish_calls[OF assms] obtain calls where c: "nl_host st' = nl_host st @ calls"
    "creates_if_absent (claim_row (observed_env answer cap ttl) now e d s w v t b sub) calls" by blast
  moreover from c(2) have "length (creates calls) \<le> 1" by (auto simp: creates_if_absent_def)
  ultimately show ?thesis by blast
qed

section \<open>A concrete host\<close>

text \<open>A host with the banner of the claim already there, as after a crash between creating and recording.\<close>

definition example_answer :: "string \<Rightarrow> frame \<Rightarrow> host_call list \<Rightarrow> json res" where
  "example_answer m p calls =
     Inr (JObj [(''notifications'', JArr [JObj
       [(''id'', JStr ''n1''), (''workspace_id'', JStr ''w''), (''surface_id'', JStr ''v''),
        (''subtitle'', JStr (notification_token ''e'' ''d''))]])])"

definition example_lifecycle :: "host_call list lifecycle" where
  "example_lifecycle = \<lparr>nl_rows = [], nl_host = []\<rparr>"

definition example_published :: "NotificationRecord res \<times> host_call list lifecycle" where
  "example_published = publish (observed_env example_answer 1 60) 0 ''e'' ''d'' ''s'' ''w'' ''v'' ''title'' ''body'' [] example_lifecycle"

lemma example_published_returns: "\<exists>x st. example_published = (Inr x, st) \<and> length (nl_rows st) = 1 \<and> length (nl_host st) = 1"
proof -
  have "case example_published of (r, st) \<Rightarrow> \<not> isl r \<and> length (nl_rows st) = 1 \<and> length (nl_host st) = 1"
    by (simp add: example_published_def example_lifecycle_def publish_def bind_op_def expire_def oldest_first_def Let_def
        return_op_def claim_delivery_def row_for_delivery_def claim_row_def insert_notification_def announce_def
        matching_notifications_def call_op_def example_answer_def listed_def dict_get_def matching_def one_banner_def
        update_rows_def activate_def update_where_def enforce_cap_def seat_active_def observed_env_def to_record_def) auto
  then show ?thesis by (auto split: prod.splits simp: isl_def) (metis isl_def old.sum.exhaust)
qed

text \<open>Witness of C33.\<close>

theorem notification_rows_lifecycle_witness:
  "length (nl_rows (snd example_published)) = 1 \<and> wf_rows (nl_rows (snd example_published))
     \<and> rows_advance [] (nl_rows (snd example_published))"
proof -
  let ?step = "lifecycle_step (observed_env example_answer 1 60)"
  have "?step example_lifecycle (snd example_published)"
    unfolding example_published_def by (rule lifecycle_step.published)
  then have s: "?step\<^sup>*\<^sup>* example_lifecycle (snd example_published)" by blast
  have e: "nl_rows example_lifecycle = []" by (simp add: example_lifecycle_def)
  have "length (nl_rows (snd example_published)) = 1" using example_published_returns by (metis snd_conv)
  with notification_rows_lifecycle[OF e s rtranclp.rtrancl_refl] notification_rows_lifecycle[OF e rtranclp.rtrancl_refl s] e
  show ?thesis by simp
qed

text \<open>Witness of C34.\<close>

theorem publish_enforces_cap_witness:
  "\<exists>x st row. example_published = (Inr x, st) \<and> row_for_delivery (nl_rows st) ''d'' = Some row \<and> nr_state row = Active
     \<and> length (seat_active ''s'' (nl_rows st)) \<le> 1"
proof -
  obtain x st where p: "example_published = (Inr x, st)" using example_published_returns by blast
  have wf: "wf_rows (nl_rows example_lifecycle)" "nl_rows example_lifecycle = []"
    by (simp_all add: example_lifecycle_def wf_rows_def)
  have "1 \<le> nv_per_seat_cap (observed_env example_answer 1 60)" by (simp add: observed_env_def)
  from publish_enforces_cap[OF wf(1) this p[unfolded example_published_def]] p wf(2) show ?thesis
    by (auto simp: observed_env_def row_for_delivery_def)
qed

text \<open>Witness of C35: the banner is adopted.\<close>

theorem publish_creates_once_witness:
  "\<exists>x st. example_published = (Inr x, st) \<and> length (nl_host st) = 1 \<and> length (creates (nl_host st)) \<le> 1"
proof -
  obtain x st where p: "example_published = (Inr x, st)" "length (nl_host st) = 1" using example_published_returns by blast
  have "nl_host example_lifecycle = []" by (simp add: example_lifecycle_def)
  with publish_creates_once[OF p(1)[unfolded example_published_def]] p show ?thesis by auto
qed

end
