(* ===== verification/Spec2Isabelle.thy ===== *)
theory Spec2Isabelle
  imports Core_System Core_Migration_Versions Cmux_Injection Cmux_Delivery Cmux_Main Cmux_Notifications_Facts
begin

text \<open>
  A verification library of yatagarasu, a message-delivery plane for agents that live in terminal sessions.

  \<^bold>\<open>The program.\<close> The core (\<open>src/core/yatagarasu_core\<close>) keeps deliveries in a SQLite store and moves each
  one through \<open>queued\<close>, \<open>dispatching\<close>, \<open>transport-submitted\<close>, \<open>session-entered\<close> and \<open>processed\<close>. It trusts nobody:
  a state changes only because a provider submitted a receipt whose keys, evidence class, session binding and
  signed delivery marker pass the reducer. A broadcast expands one room message into one delivery per
  seat. The cmux plugin (\<open>src/plugins/cmux/yatagarasu_cmux\<close>) is one provider. It types a message with a marker
  into a session and waits for the host's events as proof; it reads the host's event stream, stores a
  projection of every event in an outbox, and derives from correlated events the
  receipts it submits to the core; it announces deliveries with banners.

  \<^bold>\<open>Standard library.\<close>
  \<^item> \<open>Prelude\<close>: exceptions as values (\<open>py_exc\<close>, \<open>res\<close>), list and option facts, and four locales: \<open>table\<close> and
    \<open>keyed_table\<close> (what an INSERT under a key constraint promises), \<open>invariant_system\<close> and \<open>progress_system\<close> (an
    invariant and an order kept by every step of a transition system).
  \<^item> \<open>Py_Time\<close>, \<open>Py_Hash\<close>, \<open>Py_Json\<close>, \<open>Py_Base64\<close>: ISO timestamps, UTF-8, SHA-256 and HMAC on 32-bit words,
    \<open>json.dumps\<close> and \<open>json.loads\<close> with their round trip, and url-safe base64.

  \<^bold>\<open>The core.\<close>
  \<^item> \<open>Core_Types\<close> (\<open>types.py\<close>): the enumerations and frozen dataclasses.
  \<^item> \<open>Core_Proofs\<close> (\<open>proofs.py\<close>): mint, sign, validate, encode and decode of markers. A minted marker validates
    exactly during its lifetime; one signature binds one marker up to an HMAC collision.
  \<^item> \<open>Core_Store\<close>, \<open>Core_Store_Facts\<close> (\<open>store.py\<close>): a table is a list of rows, an operation a function from the
    store to a result and a store. Every key constraint interprets \<open>keyed_table\<close>; \<open>wf_db\<close> is the
    invariant with primary and foreign keys.
  \<^item> \<open>Core_Receipts\<close>, \<open>Core_Receipts_Facts\<close>, \<open>Core_Reducer\<close> (\<open>receipts.py\<close>): \<open>submit\<close> as a decision on the tables
    (\<open>submit_check\<close>) and its writes (\<open>carry_out\<close>). The abstract specification is the inductive state machine
    \<open>legal\<close> with the declarative condition \<open>admissible\<close>; \<open>submit\<close> accepts exactly what they allow.
  \<^item> \<open>Core_Broadcasts\<close>, \<open>Core_Broadcasts_Facts\<close> (\<open>broadcasts.py\<close>): the atomic fan-out and its frozen snapshot.
  \<^item> \<open>Core_System\<close>: all operations on one database as the relation \<open>core_step\<close>, with submissions of
    several connections checked at one moment and carried out at another. It interprets
    \<open>progress_system\<close>: the invariant holds in every reachable state, states never move back, and the audit
    log is a path of the state machine.
  \<^item> \<open>Core_Migration\<close>, \<open>Core_Migration_Facts\<close>, \<open>Core_Migration_Versions\<close> (\<open>CoreStore.__init__\<close> and the migration in \<open>store.py\<close>):
    a database as tables with columns, constraints and rows, and the statements that bring it to the current schema.
    The locale \<open>idempotent_script\<close> is the contract of a start-up script whose steps may be repeated. The steps look at
    the names of tables and columns only, so what a start achieves is shown for stores of an earlier version
    (\<open>earlier_version\<close>): every table is one of the schema, perhaps without columns added later, or the
    old table of deliveries. A start on such a store that returns reaches exactly the current schema, keeps every value and is
    not repeated; it does return on the old table of deliveries when rows and references are sound and no recipient has
    two active bindings. A rebuild that fails leaves the deliveries in a renamed table. An index is its name.

  \<^bold>\<open>The cmux plugin.\<close>
  \<^item> \<open>Cmux_Transport\<close> (\<open>outcome.py\<close>, \<open>receipt_translation.py\<close>, \<open>harness_profiles.py\<close>) and \<open>Cmux_Marker\<close> (\<open>marker.py\<close>): the
    submit outcomes, the translation of a proven submit, and the marker on the wire, which is extracted again
    from any preview long enough to hold it.
  \<^item> \<open>Cmux_Injector\<close> (\<open>injector.py\<close>), \<open>Cmux_Journal\<close> (\<open>journal.py\<close>), \<open>Cmux_Injection\<close>: one injection with its trace
    of effects, the journal as a refinement of a map, and the two together: a delivery whose
    injection touched a surface is never injected again, also when a directory sync fails.
  \<^item> \<open>Cmux_Outbox\<close>, \<open>Cmux_Outbox_Facts\<close> (\<open>event_outbox.py\<close>): the stored events and the cursor, which move together;
    a committed event is stored exactly once.
  \<^item> \<open>Cmux_Stream\<close> (\<open>stream_protocol.py\<close>): the acknowledgement parser and the projection. Of the payload it keeps exactly the
    scalars, or lists of scalars, under known keys and the marker of a preview; the fields beside the payload, such as
    the category and the source, are copied as they come.
  \<^item> \<open>Cmux_Emitter\<close> (\<open>receipt_emitter.py\<close>), \<open>Cmux_Producer\<close> (\<open>receipt_producer.py\<close>), \<open>Cmux_Turn\<close>: the chain of events per
    workspace, the receipts it yields, the recovery from the outbox, and what one turn submits.
  \<^item> \<open>Cmux_Resident\<close>, \<open>Cmux_Resident_Facts\<close> (\<open>resident.py\<close>): the bounded reconnect loop. Receipts are submitted
    before the cursor moves, and the outbox stays well-formed wherever a run stops.
  \<^item> \<open>Cmux_Notifications\<close>, \<open>Cmux_Notifications_Facts\<close> (\<open>notifications.py\<close>): the banner table and its calls to the
    host. The locale \<open>op_relation\<close> lifts a relation that holds for the single statements and calls to every
    operation; it is interpreted for the rows, for their life cycle and for the requests sent.
  \<^item> \<open>Cmux_Socket\<close> (\<open>socket_client.py\<close>, \<open>socket_transport.py\<close>): line framing, commands, snapshots, stream opening; frames
    written are read back, no socket is leaked, a failed connection included, and a command returns the result of
    the response it read, which carries its own request id.
  \<^item> \<open>Cmux_Runtime\<close> (\<open>runtime.py\<close>, \<open>supervisor.py\<close>, and the default paths of the stores): discovery, the marker key file and
    one supervised pass, with the state of the file system threaded through the directories made and the files opened.
  \<^item> \<open>Cmux_Main\<close> (\<open>__main__.py\<close>): the commands \<open>doctor\<close>, \<open>smoke\<close> and \<open>run\<close> with what they print and their exit codes;
    \<open>smoke\<close> ends for every host and only reads, and \<open>doctor\<close> does nothing but make the state directory.
  \<^item> \<open>Cmux_Delivery\<close>: both packages together. The four bus events of a turn, projected, translated and submitted
    to the reducer, take the delivery from \<open>transport-submitted\<close> to \<open>processed\<close>.

  \<^bold>\<open>Parameters.\<close> What the program is handed is an argument of the definitions: clocks, random bytes and
  identifier factories; the transport, resolver and observer of an injection; the callbacks; the operating system's
  sockets; environment, file system and user of the runtime. Theorems hold for every value of them unless a
  hypothesis says otherwise. The delivery lookup of the receipt emitter is a fixed total function: a lookup that raises, or
  whose answer changes while the emitter runs, is not covered.

  \<^bold>\<open>Bounds and fuel.\<close> Only the JSON scanner uses fuel, two units per character and one more;
  \<open>loads_fuel\<close> shows that it never runs out. All other loops are total: structural recursion,
  or a measure on the text that is left (\<open>scan_str\<close>, \<open>ygr1_matches\<close>, \<open>frames_of\<close>) or on the frames that may still be
  read (\<open>smoke_loop\<close>). Integers bound to SQL statements
  are checked against 64 bits where the code can exceed them.

  \<^bold>\<open>Not modelled.\<close>
  \<^item> The argument parser of \<open>__main__.py\<close> (a command takes a parsed namespace) and all log lines; the \<open>__init__.py\<close> files
    (re-exports), and the discord and agent-bridge packages, which hold only a docstring.
  \<^item> What a crash leaves of a file (fsync, WAL), other processes writing the plugin's own databases, and a key file
    written halfway.
  \<^item> Code points above U+00FF in the texts the program works on, since a text is a list of characters of eight
    bits; only what is printed is a list of code points. Further floating-point JSON numbers, and CPython's limits on
    recursion depth and on digits of an integer. Of an error message only the fixed part is kept.
\<close>

end
